(* ===== verification/Gobjfs_Prelude.thy ===== *)
theory Gobjfs_Prelude
  imports Complex_Main "HOL-Library.Word" "HOL-Library.Multiset"
begin

text \<open>
  Shared vocabulary of the development: the outcome type of C++ code that may fault, the errno
  values the sources use, the system environment the code reads (clock, libm, float rounding),
  and the interfaces (locales) that several components share: a FIFO queue, a counted resource,
  a transition system with an invariant, a system that comes to rest, and a prefix codec.
\<close>

unbundle bit_operations_syntax

named_theorems res_simps \<open>rewriting of fallible computations\<close>
named_theorems fifo_simps \<open>rewriting of queue operations\<close>

section \<open>Outcomes\<close>

text \<open>
  A computation either returns or faults. \<open>AssertFailed\<close> is a failing C assertion (in builds with
  NDEBUG the statement is absent: a run of the model without this fault is a run of both builds);
  \<open>UseAfterFree\<close> is an access through a pointer to a deleted object; \<open>Blocked\<close> says that the
  calling thread waits on a synchronisation object that only another thread can signal.
\<close>

datatype fault =
    AssertFailed string
  | UseAfterFree nat
  | NullDeref string
  | UndefinedBehaviour string
  | Blocked string
  | Aborted string

type_synonym 'a res = "fault + 'a"

definition rbind :: "'a res \<Rightarrow> ('a \<Rightarrow> 'b res) \<Rightarrow> 'b res" where
  "rbind m f = (case m of Inl e \<Rightarrow> Inl e | Inr x \<Rightarrow> f x)"

definition rassert :: "string \<Rightarrow> bool \<Rightarrow> unit res" where
  "rassert msg b = (if b then Inr () else Inl (AssertFailed msg))"

lemma rbind_simps [simp, res_simps]:
  "rbind (Inl e) f = Inl e"
  "rbind (Inr x) f = f x"
  by (simp_all add: rbind_def)

lemma rbind_eq_Inr [res_simps]: "rbind m f = Inr y \<longleftrightarrow> (\<exists>x. m = Inr x \<and> f x = Inr y)"
  by (cases m) auto

lemma rbind_eq_Inl: "rbind m f = Inl e \<longleftrightarrow> m = Inl e \<or> (\<exists>x. m = Inr x \<and> f x = Inl e)"
  by (cases m) auto

lemma rassert_simps [simp, res_simps]:
  "rassert msg True = Inr ()"
  "rassert msg False = Inl (AssertFailed msg)"
  by (simp_all add: rassert_def)

lemma rassert_eq_Inr [simp, res_simps]: "rassert msg b = Inr u \<longleftrightarrow> b"
  by (simp add: rassert_def)

lemma rbind_assoc: "rbind (rbind m f) g = rbind m (\<lambda>x. rbind (f x) g)"
  by (cases m) auto

text \<open>A loop over a list whose body threads a state and may fault.\<close>

fun rfold :: "('a \<Rightarrow> 's \<Rightarrow> 's res) \<Rightarrow> 'a list \<Rightarrow> 's \<Rightarrow> 's res" where
  "rfold f [] s = Inr s"
| "rfold f (x # xs) s = rbind (f x s) (rfold f xs)"

lemma rfold_append: "rfold f (xs @ ys) s = rbind (rfold f xs s) (rfold f ys)"
  by (induction xs arbitrary: s) (auto simp: rbind_assoc intro!: arg_cong2 [where f = rbind])

text \<open>
  The loop rule: if an indexed invariant \<open>I\<close> over the elements still to do is advanced by every
  iteration, the loop returns and establishes \<open>I []\<close>.
\<close>

lemma rfold_inv:
  assumes "I xs s"
    and "\<And>x ys s. I (x # ys) s \<Longrightarrow> \<exists>s'. f x s = Inr s' \<and> I ys s'"
  shows "\<exists>s'. rfold f xs s = Inr s' \<and> I [] s'"
  using assms(1)
proof (induction xs arbitrary: s)
  case Nil
  then show ?case by simp
next
  case (Cons x xs)
  from assms(2) [OF Cons.prems] obtain s1 where "f x s = Inr s1" "I xs s1"
    by blast
  with Cons.IH show ?case by simp
qed

section \<open>Error numbers\<close>

abbreviation ENOENT :: int where "ENOENT \<equiv> 2"
abbreviation EINTR :: int where "EINTR \<equiv> 4"
abbreviation EIO :: int where "EIO \<equiv> 5"
abbreviation EBADF :: int where "EBADF \<equiv> 9"
abbreviation EAGAIN :: int where "EAGAIN \<equiv> 11"
abbreviation ENOMEM :: int where "ENOMEM \<equiv> 12"
abbreviation EINVAL :: int where "EINVAL \<equiv> 22"
abbreviation EDOM :: int where "EDOM \<equiv> 33"
abbreviation ENOSYS :: int where "ENOSYS \<equiv> 38"
abbreviation EBADMSG :: int where "EBADMSG \<equiv> 74"
abbreviation ETIMEDOUT :: int where "ETIMEDOUT \<equiv> 110"
abbreviation EINPROGRESS :: int where "EINPROGRESS \<equiv> 115"
abbreviation ECANCELED :: int where "ECANCELED \<equiv> 125"

section \<open>The system environment\<close>

text \<open>
  What the code reads from the C library and the hardware: the successive readings of the clock in
  nanoseconds, \<open>floor (log10 x)\<close> as computed by libm, and the rounding of a real to \<open>float\<close>.
\<close>

record sysenv =
  clock :: "nat \<Rightarrow> int"
  log10_floor :: "int \<Rightarrow> int"
  fl :: "real \<Rightarrow> real"

text \<open>
  The documented behaviour the executor relies on: the clock is steady and advances between two
  readings, and the decimal logarithm of a positive 63-bit value lies between 0 and 19.
\<close>

definition env_ok :: "sysenv \<Rightarrow> bool" where
  "env_ok E \<longleftrightarrow> strict_mono (clock E) \<and> (\<forall>x>0. 0 \<le> log10_floor E x \<and> log10_floor E x < 20)"

lemma env_ok_clock: "env_ok E \<Longrightarrow> m < n \<Longrightarrow> clock E m < clock E n"
  by (simp add: env_ok_def strict_mono_def)

lemma env_ok_log10: "env_ok E \<Longrightarrow> 0 < x \<Longrightarrow> 0 \<le> log10_floor E x \<and> log10_floor E x < 20"
  by (simp add: env_ok_def)

text \<open>A concrete environment, used by the witnesses: a clock that ticks once per reading.\<close>

definition tick_env :: sysenv where
  "tick_env = \<lparr>clock = int, log10_floor = (\<lambda>x. if x < 10 then 0 else if x < 100 then 1 else 2),
     fl = (\<lambda>x. x)\<rparr>"

lemma tick_env_ok: "env_ok tick_env"
  by (simp add: env_ok_def tick_env_def strict_mono_def)

lemma tick_env_simps [simp]:
  "clock tick_env n = int n" "fl tick_env r = r"
  "log10_floor tick_env x = (if x < 10 then 0 else if x < 100 then 1 else 2)"
  by (simp_all add: tick_env_def)

section \<open>Interface: first-in first-out queues\<close>

text \<open>
  The sources use \<open>boost::lockfree::queue\<close>, \<open>std::queue\<close> and \<open>std::list\<close> in the same way: elements
  are appended at one end and taken from the other. The laws are those of the abstract sequence.
\<close>

locale fifo =
  fixes contents :: "'q \<Rightarrow> 'a list"
    and push :: "'a \<Rightarrow> 'q \<Rightarrow> 'q"
    and pop :: "'q \<Rightarrow> ('a \<times> 'q) option"
  assumes contents_push: "contents (push x q) = contents q @ [x]"
    and pop_empty: "pop q = None \<longleftrightarrow> contents q = []"
    and pop_head: "pop q = Some (x, q') \<Longrightarrow> contents q = x # contents q'"
begin

lemma pop_push_empty:
  assumes "contents q = []"
  obtains q' where "pop (push x q) = Some (x, q')" "contents q' = []"
proof (cases "pop (push x q)")
  case None
  then show ?thesis using assms by (simp add: pop_empty contents_push)
next
  case (Some yq)
  obtain y q' where yq: "yq = (y, q')" by (cases yq)
  with Some have "contents (push x q) = y # contents q'" by (simp add: pop_head)
  with assms have "y = x" "contents q' = []" by (simp_all add: contents_push)
  with Some yq that show ?thesis by blast
qed

lemma mset_push: "mset (contents (push x q)) = add_mset x (mset (contents q))"
  by (simp add: contents_push)

lemma mset_pop: "pop q = Some (x, q') \<Longrightarrow> mset (contents q) = add_mset x (mset (contents q'))"
  by (auto dest: pop_head)

lemma length_pop: "pop q = Some (x, q') \<Longrightarrow> length (contents q) = Suc (length (contents q'))"
  by (auto dest: pop_head)

text \<open>Nothing overtakes: an element pushed behind \<open>k\<close> others is the result of the \<open>k+1\<close>st pop.\<close>

fun pops :: "nat \<Rightarrow> 'q \<Rightarrow> ('a list \<times> 'q) option" where
  "pops 0 q = Some ([], q)"
| "pops (Suc n) q = (case pop q of None \<Rightarrow> None
     | Some (x, q') \<Rightarrow> (case pops n q' of None \<Rightarrow> None | Some (xs, q'') \<Rightarrow> Some (x # xs, q'')))"

lemma pops_contents:
  "n \<le> length (contents q) \<Longrightarrow>
    \<exists>q'. pops n q = Some (take n (contents q), q') \<and> contents q' = drop n (contents q)"
proof (induction n arbitrary: q)
  case 0
  then show ?case by simp
next
  case (Suc n)
  then have "contents q \<noteq> []" by auto
  then obtain x q1 where p: "pop q = Some (x, q1)"
    by (cases "pop q") (auto simp: pop_empty)
  then have c: "contents q = x # contents q1" by (rule pop_head)
  with Suc.prems have "n \<le> length (contents q1)" by simp
  from Suc.IH [OF this] obtain q' where "pops n q1 = Some (take n (contents q1), q')"
    "contents q' = drop n (contents q1)" by blast
  with p c show ?case by simp
qed

lemma pop_order:
  "\<exists>q'. pops (Suc (length (contents q))) (push x q) = Some (contents q @ [x], q') \<and> contents q' = []"
  using pops_contents [of "Suc (length (contents q))" "push x q"] by (simp add: contents_push)

end

text \<open>Plain lists with append and removal of the head are such a queue.\<close>

definition list_push :: "'a \<Rightarrow> 'a list \<Rightarrow> 'a list" where
  "list_push x xs = xs @ [x]"

fun list_pop :: "'a list \<Rightarrow> ('a \<times> 'a list) option" where
  "list_pop [] = None"
| "list_pop (x # xs) = Some (x, xs)"

interpretation lq: fifo "\<lambda>xs. xs" list_push list_pop
proof unfold_locales
  show "list_push x q = q @ [x]" for x :: 'a and q
    by (simp add: list_push_def)
  show "(list_pop q = None) = (q = [])" for q :: "'a list"
    by (cases q) auto
  show "list_pop q = Some (x, q') \<Longrightarrow> q = x # q'" for q :: "'a list" and x q'
    by (cases q) auto
qed

lemmas list_push_simps [simp, fifo_simps] = list_push_def

section \<open>Interface: transition systems with an invariant\<close>

text \<open>
  Every concurrent component is a step relation. An inductive invariant that holds initially and is
  kept by each step holds in every reachable state.
\<close>

inductive reach :: "('s \<Rightarrow> bool) \<Rightarrow> ('s \<Rightarrow> 's \<Rightarrow> bool) \<Rightarrow> 's \<Rightarrow> bool" for init step where
  reach_init: "init s \<Longrightarrow> reach init step s"
| reach_step: "reach init step s \<Longrightarrow> step s t \<Longrightarrow> reach init step t"

locale invariant_system =
  fixes init :: "'s \<Rightarrow> bool"
    and step :: "'s \<Rightarrow> 's \<Rightarrow> bool"
    and inv :: "'s \<Rightarrow> bool"
  assumes inv_init: "init s \<Longrightarrow> inv s"
    and inv_step: "inv s \<Longrightarrow> step s t \<Longrightarrow> inv t"
begin

lemma inv_reach: "reach init step s \<Longrightarrow> inv s"
proof (induction rule: reach.induct)
  case (reach_init s)
  then show ?case by (rule inv_init)
next
  case (reach_step s t)
  then show ?case using inv_step by blast
qed

end

section \<open>Interface: systems that come to rest\<close>

text \<open>
  The steps a system takes by itself, each of which leaves less to do: runs of them are bounded, and
  some run ends where no such step is possible.
\<close>

locale draining =
  fixes good :: "'s \<Rightarrow> bool"
    and own :: "'s \<Rightarrow> 's \<Rightarrow> bool"
    and left :: "'s \<Rightarrow> nat"
  assumes good_own: "good s \<Longrightarrow> own s t \<Longrightarrow> good t"
    and own_less: "good s \<Longrightarrow> own s t \<Longrightarrow> left t < left s"
begin

lemma own_run: "(own ^^ k) s t \<Longrightarrow> good s \<Longrightarrow> good t \<and> k + left t \<le> left s"
proof (induction k arbitrary: t)
  case (Suc k)
  then obtain u where "(own ^^ k) s u" "own u t" by auto
  with Suc.IH [of u] Suc.prems(2) good_own [of u t] own_less [of u t] show ?case by simp
qed simp

lemma own_ends: "good s \<Longrightarrow> \<exists>k t. (own ^^ k) s t \<and> (\<nexists>u. own t u)"
proof (induction "left s" arbitrary: s rule: less_induct)
  case less
  show ?case
  proof (cases "\<exists>u. own s u")
    case True
    then obtain u where u: "own s u" by blast
    then obtain k t where "(own ^^ k) u t" "\<nexists>v. own t v"
      using less.hyps [of u] good_own [OF less.prems u] own_less [OF less.prems u] by blast
    then show ?thesis using relpowp_Suc_I2 [of own, OF u] by blast
  next
    case False
    then show ?thesis by (intro exI [of _ 0] exI [of _ s]) simp
  qed
qed

lemma own_reaches: "(own ^^ k) s t \<Longrightarrow> reach init step s \<Longrightarrow> (\<And>u v. own u v \<Longrightarrow> step u v) \<Longrightarrow> reach init step t"
proof (induction k arbitrary: t)
  case (Suc k)
  then obtain u where "(own ^^ k) s u" "own u t" by auto
  with Suc show ?case by (meson reach_step)
qed simp

end

section \<open>Interface: prefix codecs\<close>

text \<open>
  An encoder and a decoder that consumes a prefix of its input: decoding an encoding followed by
  anything returns the value and the rest.
\<close>

locale prefix_codec =
  fixes enc :: "'v \<Rightarrow> 'b list"
    and dec :: "'b list \<Rightarrow> ('v \<times> 'b list) option"
    and dom_ok :: "'v \<Rightarrow> bool"
  assumes dec_enc: "dom_ok v \<Longrightarrow> dec (enc v @ rest) = Some (v, rest)"
begin

lemma enc_prefix_free:
  assumes "dom_ok v" "dom_ok w" and eq: "enc v @ xs = enc w @ ys"
  shows "v = w \<and> xs = ys"
proof -
  have "Some (v, xs) = dec (enc v @ xs)" by (simp only: dec_enc [OF assms(1)])
  also have "\<dots> = dec (enc w @ ys)" by (simp only: eq)
  also have "\<dots> = Some (w, ys)" by (simp only: dec_enc [OF assms(2)])
  finally show ?thesis by simp
qed

lemma enc_inj: "dom_ok v \<Longrightarrow> dom_ok w \<Longrightarrow> enc v = enc w \<Longrightarrow> v = w"
  using enc_prefix_free [of v w "[]" "[]"] by blast

end

end
