(* ===== verification/OS_Utils.thy ===== *)
theory OS_Utils
  imports Gobjfs_Prelude
begin

text \<open>
  Alignment arithmetic of \<open>src/util/os_utils.h\<close>. Sizes are \<open>size_t\<close>, 64-bit words; the rounding mask
  is computed on a \<open>uint32_t\<close> and widened, exactly as the C++ expression does.
\<close>

definition DirectIOSize :: int where "DirectIOSize = 512"

definition FD_INVALID :: int where "FD_INVALID = -1"

definition IsDirectIOAligned :: "64 word \<Rightarrow> bool" where
  "IsDirectIOAligned number \<longleftrightarrow> number = 0 \<or> number AND (word_of_int DirectIOSize - 1) = 0"

definition RoundToNext512 :: "64 word \<Rightarrow> 64 word" where
  "RoundToNext512 numToRound =
     (let multiple = word_of_int DirectIOSize :: 32 word
      in (numToRound + ucast multiple - 1) AND ucast (NOT (multiple - 1)))"

text \<open>\<open>IsFdOpen\<close>: what \<open>fcntl(fd, F_GETFL)\<close> answers is a parameter.\<close>

definition IsFdOpen :: "(int \<Rightarrow> int) \<Rightarrow> int \<Rightarrow> bool" where
  "IsFdOpen fcntl_getfl fd \<longleftrightarrow> fcntl_getfl fd \<noteq> -1"

text \<open>\<open>GetCpuCore\<close>: the cached \<open>sched_getcpu()\<close> value, 0 when the call failed.\<close>

definition GetCpuCore :: "int \<Rightarrow> int" where
  "GetCpuCore thisCore = (if thisCore \<ge> 0 then thisCore else 0)"

text \<open>
  \<open>RaiseThreadPriority\<close>: the results of \<open>getrlimit\<close>, \<open>sched_setscheduler\<close> and \<open>sched_getscheduler\<close>
  are parameters; \<open>SCHED_RR\<close> is 2.
\<close>

definition RaiseThreadPriority ::
  "int \<Rightarrow> nat \<Rightarrow> nat \<Rightarrow> int \<Rightarrow> int \<Rightarrow> int" where
  "RaiseThreadPriority getrlimit_ret rlim_cur rlim_max setsched_ret getsched_ret =
     (if getrlimit_ret = -1 then getrlimit_ret
      else if rlim_cur = 0 \<or> rlim_max = 0 then getrlimit_ret
      else if setsched_ret \<noteq> 0 then setsched_ret
      else if getsched_ret = -1 then getsched_ret
      else if getsched_ret = 0 then - EINVAL
      else if getsched_ret = 2 then 0
      else getsched_ret)"

section \<open>Alignment\<close>

lemma aligned_iff_dvd: "IsDirectIOAligned w \<longleftrightarrow> 512 dvd unat w"
proof -
  have "w AND 511 = take_bit 9 w"
    by (simp add: take_bit_eq_mask mask_eq_exp_minus_1)
  moreover have "take_bit 9 w = 0 \<longleftrightarrow> unat (take_bit 9 w) = 0"
    by (simp add: unat_eq_zero)
  moreover have "unat (take_bit 9 w) = unat w mod 512"
    by (simp add: take_bit_eq_mod unat_mod)
  ultimately show ?thesis
    by (auto simp: IsDirectIOAligned_def DirectIOSize_def mod_eq_0_iff_dvd)
qed

lemma round_mask: "(ucast (NOT (512 - 1 :: 32 word)) :: 64 word) = mask 32 AND NOT (mask 9)"
  by (simp add: mask_eq_exp_minus_1)

lemma and_round_mask:
  "x AND (mask 32 AND NOT (mask 9)) = push_bit 9 (drop_bit 9 (take_bit 32 x))" for x :: "64 word"
  by (rule bit_word_eqI) (auto simp: bit_simps)

lemma unat_clear_low_bits:
  "unat w < 2 ^ 32 \<Longrightarrow> unat (push_bit 9 (drop_bit 9 w)) = unat w div 512 * 512" for w :: "64 word"
  by (simp add: push_bit_eq_mult drop_bit_eq_div unat_word_ariths unat_div)

lemma unat_RoundToNext512:
  "unat (RoundToNext512 n) = (unat (n + 511) mod 2 ^ 32) div 512 * 512"
proof -
  let ?y = "take_bit 32 (n + 511)"
  have y: "unat ?y = unat (n + 511) mod 2 ^ 32"
    by (simp add: take_bit_eq_mod unat_mod)
  have "RoundToNext512 n = push_bit 9 (drop_bit 9 ?y)"
    unfolding RoundToNext512_def Let_def and_round_mask [symmetric] round_mask [symmetric]
    by (simp add: DirectIOSize_def add.commute [of n])
  moreover have "unat (push_bit 9 (drop_bit 9 ?y)) = unat ?y div 512 * 512"
    by (rule unat_clear_low_bits) (simp add: y)
  ultimately show ?thesis by (simp add: y)
qed

lemma RoundToNext512_aligned [simp]: "IsDirectIOAligned (RoundToNext512 n)"
  by (simp add: aligned_iff_dvd unat_RoundToNext512)

lemma RoundToNext512_zero [simp]: "RoundToNext512 0 = 0"
  by (simp add: unat_eq_zero [symmetric] unat_RoundToNext512)

text \<open>Below 4 GiB the function is the rounding it is named after.\<close>

lemma round_up_512: "(k::nat) \<le> (k + 511) div 512 * 512 \<and> (k + 511) div 512 * 512 < k + 512"
proof -
  have "(k + 511) div 512 * 512 + (k + 511) mod 512 = k + 511" by (rule div_mult_mod_eq)
  moreover have "(k + 511) mod 512 < 512" by simp
  ultimately show ?thesis by linarith
qed

lemma unat_RoundToNext512_small:
  assumes "unat n \<le> 2 ^ 32 - 512"
  shows "unat (RoundToNext512 n) = (unat n + 511) div 512 * 512"
proof -
  have "unat (n + 511) = unat n + 511"
    using assms by (simp add: unat_word_ariths)
  with assms show ?thesis by (simp add: unat_RoundToNext512)
qed

text \<open>
  C27. For a size of at most 4 GiB minus 512 bytes, \<open>RoundToNext512\<close> returns the least multiple of
  512 that is not smaller than the size.
\<close>

theorem RoundToNext512_least:
  assumes "unat n \<le> 2 ^ 32 - 512"
  shows "unat n \<le> unat (RoundToNext512 n) \<and> IsDirectIOAligned (RoundToNext512 n) \<and>
    (\<forall>m. 512 dvd m \<longrightarrow> unat n \<le> m \<longrightarrow> unat (RoundToNext512 n) \<le> m)"
proof (intro conjI allI impI)
  have r: "unat (RoundToNext512 n) = (unat n + 511) div 512 * 512"
    by (rule unat_RoundToNext512_small [OF assms])
  then show "unat n \<le> unat (RoundToNext512 n)"
    using round_up_512 [of "unat n"] by simp
  show "IsDirectIOAligned (RoundToNext512 n)" by simp
  fix m assume "512 dvd m" "unat n \<le> m"
  then obtain k where m: "m = 512 * k" by blast
  with \<open>unat n \<le> m\<close> have "unat n + 511 < 512 * (k + 1)" by simp
  then have "(unat n + 511) div 512 < k + 1" by (simp only: less_mult_imp_div_less mult.commute)
  then have "(unat n + 511) div 512 \<le> k" by simp
  with r m show "unat (RoundToNext512 n) \<le> m" by simp
qed

theorem RoundToNext512_least_witness:
  "unat (1000 :: 64 word) \<le> 2 ^ 32 - 512 \<and> RoundToNext512 1000 = 1024 \<and>
   unat (1000 :: 64 word) \<le> unat (RoundToNext512 1000)"
proof -
  have h: "unat (1000 :: 64 word) \<le> 2 ^ 32 - 512" by simp
  moreover have "RoundToNext512 1000 = 1024" by (simp add: RoundToNext512_def DirectIOSize_def)
  ultimately show ?thesis using RoundToNext512_least [OF h] by blast
qed

text \<open>
  The mask is computed on 32 bits and widened with zeros, so the result never reaches 4 GiB:
  every size above 4 GiB minus 512 bytes that does not overflow is rounded \<^emph>\<open>down\<close>, to less
  than itself.
\<close>

theorem RoundToNext512_truncates:
  "unat (RoundToNext512 n) < 2 ^ 32 \<and> (unat n > 2 ^ 32 - 512 \<longrightarrow> RoundToNext512 n < n)"
proof (intro conjI impI)
  have le: "unat (RoundToNext512 n) \<le> unat (n + 511) mod 2 ^ 32"
    by (simp add: unat_RoundToNext512)
  also have "\<dots> < 2 ^ 32" by simp
  finally show lt: "unat (RoundToNext512 n) < 2 ^ 32" .
  assume big: "unat n > 2 ^ 32 - 512"
  show "RoundToNext512 n < n"
  proof (cases "unat n < 2 ^ 32")
    case True
    then have "unat (n + 511) = unat n + 511" by (simp add: unat_word_ariths)
    with True big have "unat (n + 511) mod 2 ^ 32 = unat n + 511 - 2 ^ 32"
      by (simp add: le_mod_geq)
    with True have "unat (n + 511) mod 2 ^ 32 < 511" by simp
    with le big have "unat (RoundToNext512 n) < unat n" by simp
    then show ?thesis by (simp add: word_less_nat_alt)
  next
    case False
    with lt show ?thesis by (simp add: word_less_nat_alt)
  qed
qed

theorem RoundToNext512_truncates_witness:
  "RoundToNext512 (2 ^ 32 + 512) = 512 \<and> RoundToNext512 (2 ^ 32 + 512) < 2 ^ 32 + 512"
proof -
  have h: "unat (2 ^ 32 + 512 :: 64 word) > 2 ^ 32 - 512" by simp
  moreover have "RoundToNext512 (2 ^ 32 + 512) = 512" by (simp add: RoundToNext512_def DirectIOSize_def)
  ultimately show ?thesis using RoundToNext512_truncates [of "2 ^ 32 + 512"] by blast
qed

end
