(* ===== verification/Filer_Job.thy ===== *)
theory Filer_Job
  imports OS_Utils
begin

text \<open>
  \<open>FilerJob\<close> (\<open>src/FilerJob.h\<close>, \<open>src/FilerJob.cpp\<close>) with its base class \<open>Queueable\<close>
  (\<open>src/Queueable.h\<close>): one I/O request, its timing and the control block handed to the kernel.
\<close>

section \<open>Data\<close>

datatype FileOp = Nop | Write | Read | Sync | Delete | NonAlignedWrite

record gIOStatus =
  st_completionId :: "64 word"
  st_errorCode :: int

text \<open>
  The fields of \<open>Queueable\<close> (wait time, service time, start of the timer) come first, then those of
  \<open>FilerJob\<close>. \<open>executor_\<close> is kept as whether it was set.
\<close>

record FilerJob =
  fj_waitTime :: int
  fj_serviceTime :: int
  fj_timer :: int
  fj_op :: FileOp
  fj_offset :: int
  fj_size :: "64 word"
  fj_userSize :: "64 word"
  fj_retcode :: int
  fj_buffer :: "64 word"
  fj_canBeFreed :: bool
  fj_executor :: bool
  fj_fd :: int
  fj_closeFileHandle :: bool
  fj_fileName :: string
  fj_completionFd :: int
  fj_completionId :: "64 word"

definition FilerJob_blank :: FilerJob where
  "FilerJob_blank = \<lparr>fj_waitTime = 0, fj_serviceTime = 0, fj_timer = 0, fj_op = Nop, fj_offset = 0,
     fj_size = 0, fj_userSize = 0, fj_retcode = - EDOM, fj_buffer = 0, fj_canBeFreed = False,
     fj_executor = False, fj_fd = FD_INVALID, fj_closeFileHandle = False, fj_fileName = [],
     fj_completionFd = FD_INVALID, fj_completionId = 0\<rparr>"

definition FilerJob_file :: "string \<Rightarrow> FileOp \<Rightarrow> FilerJob" where
  "FilerJob_file filename op = FilerJob_blank\<lparr>fj_op := op, fj_fileName := filename\<rparr>"

definition FilerJob_fd :: "int \<Rightarrow> FileOp \<Rightarrow> FilerJob res" where
  "FilerJob_fd fd op =
     rbind (rassert ''fd != FD_INVALID'' (fd \<noteq> FD_INVALID))
     (\<lambda>_. Inr (FilerJob_blank\<lparr>fj_op := op, fj_fd := fd\<rparr>))"

text \<open>\<open>operator<<\<close> for \<open>FileOp\<close>.\<close>

fun FileOp_name :: "FileOp \<Rightarrow> string" where
  "FileOp_name Nop = ''Nop''"
| "FileOp_name Write = ''Write''"
| "FileOp_name Read = ''Read''"
| "FileOp_name Sync = ''Sync''"
| "FileOp_name Delete = ''Delete''"
| "FileOp_name NonAlignedWrite = ''NonAlignedWrite''"

section \<open>Timing (Queueable)\<close>

definition setSubmitTime :: "int \<Rightarrow> FilerJob \<Rightarrow> FilerJob res" where
  "setSubmitTime now j =
     rbind (rassert ''waitTime == 0'' (fj_waitTime j = 0)) (\<lambda>_.
     rbind (rassert ''serviceTime == 0'' (fj_serviceTime j = 0)) (\<lambda>_.
     Inr (j\<lparr>fj_timer := now\<rparr>)))"

text \<open>The elapsed time is measured at \<open>now1\<close>, the timer restarts at the second reading \<open>now2\<close>.\<close>

definition setWaitTime :: "int \<Rightarrow> int \<Rightarrow> FilerJob \<Rightarrow> FilerJob res" where
  "setWaitTime now1 now2 j =
     rbind (rassert ''waitTime == 0'' (fj_waitTime j = 0)) (\<lambda>_.
     rbind (rassert ''serviceTime == 0'' (fj_serviceTime j = 0)) (\<lambda>_.
     Inr (j\<lparr>fj_waitTime := now1 - fj_timer j, fj_timer := now2\<rparr>)))"

definition setServiceTime :: "int \<Rightarrow> FilerJob \<Rightarrow> FilerJob res" where
  "setServiceTime now j =
     rbind (rassert ''waitTime != 0'' (fj_waitTime j \<noteq> 0)) (\<lambda>_.
     rbind (rassert ''serviceTime == 0'' (fj_serviceTime j = 0)) (\<lambda>_.
     Inr (j\<lparr>fj_serviceTime := now - fj_timer j\<rparr>)))"

section \<open>Operations\<close>

definition setBuffer :: "int \<Rightarrow> 64 word \<Rightarrow> 64 word \<Rightarrow> FilerJob \<Rightarrow> FilerJob" where
  "setBuffer fileOffset buffer sz j =
     j\<lparr>fj_buffer := buffer, fj_offset := fileOffset, fj_userSize := sz, fj_size := RoundToNext512 sz\<rparr>"

datatype iocb_cmd = PWRITE | PREAD

text \<open>The control block; \<open>cb_data\<close> is the address of the job.\<close>

record iocb =
  cb_cmd :: iocb_cmd
  cb_fd :: int
  cb_buf :: "64 word"
  cb_nbytes :: "64 word"
  cb_offset :: int
  cb_data :: nat

definition prepareCallblock :: "int \<Rightarrow> int \<Rightarrow> nat \<Rightarrow> FilerJob \<Rightarrow> (iocb \<times> FilerJob) res" where
  "prepareCallblock now1 now2 addr j =
     rbind (if fj_op j = Write then Inr PWRITE
            else if fj_op j = Read then Inr PREAD
            else Inl (AssertFailed ''which op''))
     (\<lambda>cmd. rbind (setWaitTime now1 now2 j)
     (\<lambda>j'. Inr (\<lparr>cb_cmd = cmd, cb_fd = fj_fd j, cb_buf = fj_buffer j, cb_nbytes = fj_size j,
                  cb_offset = fj_offset j, cb_data = addr\<rparr>, j')))"

datatype bad_param = BadFd | BadOffset | BadBuffer | BadSize

text \<open>
  \<open>isValid\<close> returns the verdict and the complaints it appends to the stream, in order. The source
  tests \<open>IsDirectIOAligned\<close> without negation.
\<close>

definition isValid :: "(int \<Rightarrow> int) \<Rightarrow> FilerJob \<Rightarrow> bool \<times> bad_param list" where
  "isValid fcntl_getfl j =
     (if fj_op j \<noteq> Read \<and> fj_op j \<noteq> Write then (True, [])
      else let msgs = (if \<not> IsFdOpen fcntl_getfl (fj_fd j) then [BadFd] else []) @
                      (if IsDirectIOAligned (word_of_int (fj_offset j)) then [BadOffset] else []) @
                      (if IsDirectIOAligned (fj_buffer j) then [BadBuffer] else []) @
                      (if IsDirectIOAligned (fj_size j) then [BadSize] else [])
           in (msgs = [], msgs))"

text \<open>\<open>reset\<close> writes the status record to the completion descriptor and stops the service timer.\<close>

definition FilerJob_reset :: "int \<Rightarrow> FilerJob \<Rightarrow> ((int \<times> gIOStatus) \<times> FilerJob) res" where
  "FilerJob_reset now j =
     rbind (setServiceTime now j)
     (\<lambda>j'. Inr ((fj_completionFd j,
                 \<lparr>st_completionId = fj_completionId j, st_errorCode = fj_retcode j\<rparr>), j'))"

section \<open>Facts\<close>

lemma setBuffer_frame [simp]:
  "fj_waitTime (setBuffer off b sz j) = fj_waitTime j" "fj_serviceTime (setBuffer off b sz j) = fj_serviceTime j"
  "fj_op (setBuffer off b sz j) = fj_op j" "fj_fd (setBuffer off b sz j) = fj_fd j"
  "fj_size (setBuffer off b sz j) = RoundToNext512 sz" "fj_userSize (setBuffer off b sz j) = sz"
  by (simp_all add: setBuffer_def)

text \<open>A job as its constructor and \<open>setBuffer\<close> leave it, before it is submitted.\<close>

definition job_fresh :: "FilerJob \<Rightarrow> bool" where
  "job_fresh j \<longleftrightarrow> fj_waitTime j = 0 \<and> fj_serviceTime j = 0"

lemma setSubmitTime_fresh: "job_fresh j \<Longrightarrow> setSubmitTime now j = Inr (j\<lparr>fj_timer := now\<rparr>)"
  by (simp add: setSubmitTime_def job_fresh_def)

lemma setWaitTime_fresh:
  "job_fresh j \<Longrightarrow>
    setWaitTime now1 now2 j = Inr (j\<lparr>fj_waitTime := now1 - fj_timer j, fj_timer := now2\<rparr>)"
  by (simp add: setWaitTime_def job_fresh_def)

text \<open>
  The life of a job passes through the timing states once: submitted, dequeued and completed at
  four successive clock readings, no assertion of \<open>Queueable\<close> fails, the recorded wait and service
  times are the elapsed times, both positive, and the reported status carries the completion id and
  return code of the job; a second \<open>reset\<close> of the same job fails its assertion.
\<close>

theorem job_timing:
  assumes "job_fresh j" "t0 < t1" "t1 \<le> t2" "t2 < t3" "fj_op j = Read \<or> fj_op j = Write"
  shows "\<exists>j1 cb j2 j3. setSubmitTime t0 j = Inr j1 \<and> prepareCallblock t1 t2 p j1 = Inr (cb, j2) \<and>
    FilerJob_reset t3 j2 = Inr ((fj_completionFd j, \<lparr>st_completionId = fj_completionId j,
      st_errorCode = fj_retcode j\<rparr>), j3) \<and> cb_data cb = p \<and>
    fj_waitTime j3 = t1 - t0 \<and> fj_serviceTime j3 = t3 - t2 \<and> fj_waitTime j3 > 0 \<and> fj_serviceTime j3 > 0 \<and>
    (\<exists>msg. FilerJob_reset t4 j3 = Inl (AssertFailed msg))"
  using assms
  by (auto simp: setSubmitTime_fresh prepareCallblock_def setWaitTime_def FilerJob_reset_def
      setServiceTime_def job_fresh_def)

theorem job_timing_witness:
  "\<exists>j1 cb j2 j3. setSubmitTime 1 (FilerJob_blank\<lparr>fj_op := Read\<rparr>) = Inr j1 \<and>
    prepareCallblock 2 3 7 j1 = Inr (cb, j2) \<and> FilerJob_reset 4 j2 =
      Inr ((FD_INVALID, \<lparr>st_completionId = 0, st_errorCode = - EDOM\<rparr>), j3) \<and> cb_data cb = 7"
proof -
  have "job_fresh (FilerJob_blank\<lparr>fj_op := Read\<rparr>)"
    by (simp add: job_fresh_def FilerJob_blank_def)
  from job_timing [OF this, of 1 2 3 4 7 5] show ?thesis
    by (fastforce simp: FilerJob_blank_def)
qed

text \<open>
  \<open>isValid\<close> has its alignment tests inverted: a read or write whose descriptor is open and whose
  offset, buffer and size are all multiples of 512, which is what direct I/O demands, is reported
  as invalid with three complaints, and one whose three parameters are all misaligned passes.
\<close>

theorem isValid_inverted:
  assumes "fj_op j = Read \<or> fj_op j = Write" "IsFdOpen fcntl (fj_fd j)"
  shows "(IsDirectIOAligned (word_of_int (fj_offset j)) \<and> IsDirectIOAligned (fj_buffer j) \<and>
            IsDirectIOAligned (fj_size j) \<longrightarrow> isValid fcntl j = (False, [BadOffset, BadBuffer, BadSize])) \<and>
         (\<not> IsDirectIOAligned (word_of_int (fj_offset j)) \<and> \<not> IsDirectIOAligned (fj_buffer j) \<and>
            \<not> IsDirectIOAligned (fj_size j) \<longrightarrow> isValid fcntl j = (True, []))"
  using assms by (auto simp: isValid_def Let_def)

theorem isValid_inverted_witness:
  "isValid (\<lambda>_. 0) (FilerJob_blank\<lparr>fj_op := Read, fj_fd := 3, fj_offset := 1024, fj_buffer := 4096,
     fj_size := 512\<rparr>) = (False, [BadOffset, BadBuffer, BadSize])"
proof -
  let ?j = "FilerJob_blank\<lparr>fj_op := Read, fj_fd := 3, fj_offset := 1024, fj_buffer := 4096, fj_size := 512\<rparr>"
  have "fj_op ?j = Read \<or> fj_op ?j = Write" "IsFdOpen (\<lambda>_. 0) (fj_fd ?j)"
    by (simp_all add: IsFdOpen_def)
  from isValid_inverted [OF this] show ?thesis
    by (simp add: IsDirectIOAligned_def DirectIOSize_def)
qed

end
