(* ===== verification/Stats.thy ===== *)
theory Stats
  imports Gobjfs_Prelude
begin

text \<open>
  The statistics framework of \<open>src/util/Stats.h\<close>: running minimum, maximum, mean and squared
  deviation (\<open>StatsCounter\<close>), a decimal logarithmic histogram (\<open>Histogram\<close>) and extreme values.
  \<open>T\<close> is \<open>int64_t\<close>, as everywhere in the executor; a C++ \<open>float\<close> is a real number and every
  \<open>float\<close> operation of the source is followed by the rounding \<open>fl\<close> of the environment.
\<close>

section \<open>StatsCounter\<close>

record StatsCounter =
  sc_min :: int
  sc_max :: int
  sc_mean :: real
  sc_meanSquared :: real
  sc_numSamples :: "32 word"

text \<open>The value of an unsigned counter as a real, before it is rounded to \<open>float\<close>.\<close>

definition wreal :: "32 word \<Rightarrow> real" where
  "wreal w = real (unat w)"

definition StatsCounter_init :: StatsCounter where
  "StatsCounter_init = \<lparr>sc_min = 2 ^ 63 - 1, sc_max = - (2 ^ 63), sc_mean = 0, sc_meanSquared = 0,
     sc_numSamples = 0\<rparr>"

definition sc_updateStats :: "sysenv \<Rightarrow> int \<Rightarrow> StatsCounter \<Rightarrow> StatsCounter res" where
  "sc_updateStats E data c =
     (let n = sc_numSamples c + 1;
          x = fl E (of_int data);
          delta = fl E (x - sc_mean c);
          mean = fl E (sc_mean c + fl E (delta / fl E (wreal n)));
          msq = fl E (sc_meanSquared c + fl E (delta * fl E (x - mean)))
      in rbind (rassert ''numSamples > 0'' (n > 0))
         (\<lambda>_. Inr \<lparr>sc_min = (if sc_min c > data then data else sc_min c),
                   sc_max = (if sc_max c < data then data else sc_max c),
                   sc_mean = mean, sc_meanSquared = msq, sc_numSamples = n\<rparr>))"

definition sc_reset :: "StatsCounter \<Rightarrow> StatsCounter" where
  "sc_reset c = StatsCounter_init"

definition sc_add :: "sysenv \<Rightarrow> StatsCounter \<Rightarrow> StatsCounter \<Rightarrow> StatsCounter res" where
  "sc_add E c other =
     rbind (rassert ''numSamples equal'' (sc_numSamples c = sc_numSamples other))
     (\<lambda>_. Inr \<lparr>sc_min = sc_min c + sc_min other, sc_max = sc_max c + sc_max other,
               sc_mean = fl E (sc_mean c + sc_mean other),
               sc_meanSquared = fl E (sc_meanSquared c + sc_meanSquared other),
               sc_numSamples = sc_numSamples c\<rparr>)"

text \<open>\<open>operator+=\<close>. With no sample on either side the source divides zero by zero.\<close>

definition sc_merge :: "sysenv \<Rightarrow> StatsCounter \<Rightarrow> StatsCounter \<Rightarrow> StatsCounter res" where
  "sc_merge E c other =
     (let n = fl E (wreal (sc_numSamples c)); m = fl E (wreal (sc_numSamples other));
          total = sc_numSamples c + sc_numSamples other; t = fl E (wreal total);
          wavg = (\<lambda>a b. fl E (fl E (fl E (a * n) + fl E (b * m)) / t))
      in if total = 0 then Inl (UndefinedBehaviour ''not a number'')
         else Inr \<lparr>sc_min = (if sc_min c < sc_min other then sc_min c else sc_min other),
                   sc_max = (if sc_max c > sc_max other then sc_max c else sc_max other),
                   sc_mean = wavg (sc_mean c) (sc_mean other),
                   sc_meanSquared = wavg (sc_meanSquared c) (sc_meanSquared other),
                   sc_numSamples = total\<rparr>)"

definition sc_variance :: "sysenv \<Rightarrow> StatsCounter \<Rightarrow> real" where
  "sc_variance E c = fl E (sc_meanSquared c / fl E (wreal (sc_numSamples c - 1)))"

definition sc_stdDeviation :: "sysenv \<Rightarrow> StatsCounter \<Rightarrow> real" where
  "sc_stdDeviation E c = fl E (sqrt (sc_variance E c))"

definition sc_coefficientOfVariation :: "sysenv \<Rightarrow> StatsCounter \<Rightarrow> real" where
  "sc_coefficientOfVariation E c = fl E (sc_stdDeviation E c / sc_mean c)"

text \<open>Assigning samples one after the other (\<open>operator=(const T \&)\<close>).\<close>

definition sc_samples :: "sysenv \<Rightarrow> int list \<Rightarrow> StatsCounter res" where
  "sc_samples E xs = rfold (sc_updateStats E) xs StatsCounter_init"

section \<open>Histogram\<close>

abbreviation MaxDigitsInType :: nat where "MaxDigitsInType \<equiv> 21"

record Histogram =
  h_buckets :: "32 word list"
  h_numSamples :: "32 word"

definition Histogram_reset :: Histogram where
  "Histogram_reset = \<lparr>h_buckets = replicate MaxDigitsInType 0, h_numSamples = 0\<rparr>"

text \<open>
  \<open>log10\<close> of zero or of a negative number is minus infinity or not a number, whose conversion to
  \<open>uint16_t\<close> is undefined.
\<close>

definition h_updateStats :: "sysenv \<Rightarrow> int \<Rightarrow> Histogram \<Rightarrow> Histogram res" where
  "h_updateStats E data h =
     (if data \<le> 0 then Inl (UndefinedBehaviour ''log10 of a non-positive sample'')
      else let buck = nat (log10_floor E data mod 2 ^ 16)
           in rbind (rassert ''buck < MaxDigitsInType'' (buck < MaxDigitsInType))
              (\<lambda>_. Inr \<lparr>h_buckets = (h_buckets h)[buck := h_buckets h ! buck + 1],
                        h_numSamples = h_numSamples h + 1\<rparr>))"

definition h_merge :: "Histogram \<Rightarrow> Histogram \<Rightarrow> Histogram" where
  "h_merge h other = \<lparr>h_buckets = map2 (+) (h_buckets h) (h_buckets other),
     h_numSamples = h_numSamples h + h_numSamples other\<rparr>"

section \<open>Extreme values\<close>

definition MaxValue_assign :: "32 word \<Rightarrow> 32 word \<Rightarrow> 32 word" where
  "MaxValue_assign val mx = (if val > mx then val else mx)"

definition MinValue_assign :: "32 word \<Rightarrow> 32 word \<Rightarrow> 32 word" where
  "MinValue_assign val mn = (if val < mn then val else mn)"

section \<open>Correctness of the running moments\<close>

text \<open>
  Reference values for a list of samples: the arithmetic mean and the sum of squared deviations.
\<close>

definition samples_mean :: "int list \<Rightarrow> real" where
  "samples_mean xs = real_of_int (sum_list xs) / real (length xs)"

definition samples_sqdev :: "int list \<Rightarrow> real" where
  "samples_sqdev xs = (\<Sum>x\<leftarrow>xs. (real_of_int x - samples_mean xs)\<^sup>2)"

text \<open>The invariant of the update, in terms of the sums of samples and of squares.\<close>

definition welford :: "int list \<Rightarrow> StatsCounter \<Rightarrow> bool" where
  "welford xs c \<longleftrightarrow> sc_numSamples c = of_nat (length xs) \<and>
     sc_mean c = samples_mean xs \<and>
     sc_meanSquared c = (\<Sum>x\<leftarrow>xs. (real_of_int x)\<^sup>2) - (real_of_int (sum_list xs))\<^sup>2 / real (length xs) \<and>
     (\<forall>x\<in>set xs. sc_min c \<le> x \<and> x \<le> sc_max c) \<and>
     (sc_min c \<in> set xs \<or> sc_min c = 2 ^ 63 - 1) \<and>
     (sc_max c \<in> set xs \<or> sc_max c = - (2 ^ 63))"

lemma sum_list_sq_shift:
  "(\<Sum>x\<leftarrow>xs. (real_of_int x - m)\<^sup>2) =
     (\<Sum>x\<leftarrow>xs. (real_of_int x)\<^sup>2) - 2 * m * real_of_int (sum_list xs) + real (length xs) * m\<^sup>2"
  by (induction xs) (simp_all add: power2_eq_square algebra_simps)

lemma samples_sqdev_eq:
  "samples_sqdev xs = (\<Sum>x\<leftarrow>xs. (real_of_int x)\<^sup>2) - (real_of_int (sum_list xs))\<^sup>2 / real (length xs)"
  unfolding samples_sqdev_def sum_list_sq_shift samples_mean_def
  by (cases "xs = []") (simp_all add: power2_eq_square)

lemma welford_init: "welford [] StatsCounter_init"
  by (simp add: welford_def StatsCounter_init_def samples_mean_def)

lemma welford_moment_step:
  fixes n S Q x :: real
  assumes "n \<ge> 0" and "n = 0 \<Longrightarrow> S = 0"
  defines "mean \<equiv> S / n + (x - S / n) / (n + 1)"
  shows "mean = (S + x) / (n + 1)"
    and "Q - S\<^sup>2 / n + (x - S / n) * (x - mean) = Q + x\<^sup>2 - (S + x)\<^sup>2 / (n + 1)"
proof -
  define a where "a = S / n"
  have S: "S = a * n" using assms(2) by (cases "n = 0") (auto simp: a_def)
  have n1: "n + 1 > 0" "n + 1 \<noteq> 0" using assms(1) by auto
  show m: "mean = (S + x) / (n + 1)"
    using n1 by (simp add: mean_def a_def [symmetric]) (simp add: S field_simps)
  have sq: "S\<^sup>2 / n = a\<^sup>2 * n" by (simp add: S power2_eq_square)
  have "x - mean = (x - a) * n / (n + 1)"
    using n1 by (simp add: m S field_simps)
  then have "Q - S\<^sup>2 / n + (x - S / n) * (x - mean) = Q - a\<^sup>2 * n + (x - a) * ((x - a) * n / (n + 1))"
    by (simp only: sq a_def [symmetric])
  also have "\<dots> = Q + x\<^sup>2 - (S + x)\<^sup>2 / (n + 1)"
    using n1 by (simp add: S power2_eq_square field_simps)
  finally show "Q - S\<^sup>2 / n + (x - S / n) * (x - mean) = Q + x\<^sup>2 - (S + x)\<^sup>2 / (n + 1)" .
qed

lemma unat_of_nat_Suc32: "Suc n < 2 ^ 32 \<Longrightarrow> unat (of_nat n + 1 :: 32 word) = Suc n"
proof -
  assume "Suc n < 2 ^ 32"
  then have "unat (of_nat (Suc n) :: 32 word) = Suc n"
    by (simp only: unat_of_nat) simp
  then show ?thesis by (simp add: add.commute)
qed

text \<open>Exact arithmetic: the idealisation in which no \<open>float\<close> operation rounds.\<close>

definition exact_fl :: "sysenv \<Rightarrow> bool" where
  "exact_fl E \<longleftrightarrow> fl E = (\<lambda>x. x)"

lemma exact_fl_simp [simp]: "exact_fl E \<Longrightarrow> fl E r = r"
  by (simp add: exact_fl_def)

lemma exact_fl_tick_env [simp]: "exact_fl tick_env"
  by (simp add: exact_fl_def tick_env_def)

lemma welford_step:
  assumes "exact_fl E" "welford xs c" "Suc (length xs) < 2 ^ 32"
  shows "\<exists>c'. sc_updateStats E x c = Inr c' \<and> welford (xs @ [x]) c'"
proof -
  let ?n = "real (length xs)" and ?S = "real_of_int (sum_list xs)"
  let ?Q = "\<Sum>x\<leftarrow>xs. (real_of_int x)\<^sup>2"
  let ?mean = "?S / ?n + (real_of_int x - ?S / ?n) / (?n + 1)"
  note w = assms(2) [unfolded welford_def samples_mean_def]
  have n: "unat (sc_numSamples c + 1) = Suc (length xs)"
    using w assms(3) by (simp add: unat_of_nat_Suc32)
  then have pos: "sc_numSamples c + 1 > 0" by (simp add: word_less_nat_alt)
  have nr: "wreal (sc_numSamples c + 1) = ?n + 1" by (simp only: wreal_def n of_nat_Suc)
  have mean: "?mean = (?S + x) / (?n + 1)"
    and msq: "?Q - ?S\<^sup>2 / ?n + (x - ?S / ?n) * (x - ?mean) = ?Q + (real_of_int x)\<^sup>2 - (?S + x)\<^sup>2 / (?n + 1)"
    by (rule welford_moment_step; simp)+
  have upd: "sc_updateStats E x c =
    Inr \<lparr>sc_min = (if sc_min c > x then x else sc_min c), sc_max = (if sc_max c < x then x else sc_max c),
      sc_mean = ?mean, sc_meanSquared = ?Q - ?S\<^sup>2 / ?n + (x - ?S / ?n) * (x - ?mean),
      sc_numSamples = sc_numSamples c + 1\<rparr>" (is "_ = Inr ?c'")
    using w pos nr assms(1) by (simp add: sc_updateStats_def Let_def add.commute)
  have "welford (xs @ [x]) ?c'"
    unfolding welford_def msq unfolding mean samples_mean_def
    using w by (auto simp: add.commute)
  with upd show ?thesis by blast
qed

lemma sc_samples_welford:
  assumes "exact_fl E" "length xs < 2 ^ 32"
  shows "\<exists>c. sc_samples E xs = Inr c \<and> welford xs c"
proof -
  have "\<exists>c. rfold (sc_updateStats E) xs StatsCounter_init = Inr c \<and> (\<exists>ys. ys @ [] = xs \<and> welford ys c)"
  proof (rule rfold_inv [where I = "\<lambda>todo c. \<exists>ys. ys @ todo = xs \<and> welford ys c"])
    show "\<exists>ys. ys @ xs = xs \<and> welford ys StatsCounter_init"
      using welford_init by auto
    fix x todo c assume "\<exists>ys. ys @ x # todo = xs \<and> welford ys c"
    then obtain ys where ys: "ys @ x # todo = xs" "welford ys c" by blast
    then have "Suc (length ys) < 2 ^ 32" using assms(2) by auto
    from welford_step [OF assms(1) ys(2) this, of x] obtain c'
      where "sc_updateStats E x c = Inr c'" "welford (ys @ [x]) c'" by blast
    moreover have "(ys @ [x]) @ todo = xs" using ys by simp
    ultimately show "\<exists>c'. sc_updateStats E x c = Inr c' \<and> (\<exists>ys. ys @ todo = xs \<and> welford ys c')"
      by blast
  qed
  then show ?thesis by (auto simp: sc_samples_def)
qed

lemma welford_Min:
  assumes "welford xs c" "xs \<noteq> []" "\<forall>x\<in>set xs. x < 2 ^ 63"
  shows "sc_min c = Min (set xs)"
proof (rule Min_eqI [symmetric])
  show "finite (set xs)" by simp
  show "sc_min c \<le> y" if "y \<in> set xs" for y
    using assms(1) that by (simp add: welford_def)
  show "sc_min c \<in> set xs"
  proof (rule ccontr)
    assume "sc_min c \<notin> set xs"
    with assms have "sc_min c = 2 ^ 63 - 1" by (simp add: welford_def)
    moreover obtain y where y: "y \<in> set xs" using assms(2) by (cases xs) auto
    ultimately have "y = sc_min c" using assms(1,3) by (force simp: welford_def)
    with y \<open>sc_min c \<notin> set xs\<close> show False by simp
  qed
qed

lemma welford_Max:
  assumes "welford xs c" "xs \<noteq> []" "\<forall>x\<in>set xs. - (2 ^ 63) \<le> x"
  shows "sc_max c = Max (set xs)"
proof (rule Max_eqI [symmetric])
  show "finite (set xs)" by simp
  show "y \<le> sc_max c" if "y \<in> set xs" for y
    using assms(1) that by (simp add: welford_def)
  show "sc_max c \<in> set xs"
  proof (rule ccontr)
    assume "sc_max c \<notin> set xs"
    with assms have "sc_max c = - (2 ^ 63)" by (simp add: welford_def)
    moreover obtain y where y: "y \<in> set xs" using assms(2) by (cases xs) auto
    ultimately have "y = sc_max c" using assms(1,3) by (force simp: welford_def)
    with y \<open>sc_max c \<notin> set xs\<close> show False by simp
  qed
qed

text \<open>
  C22. In exact arithmetic the one-pass update computes what a second pass over the samples would:
  after any non-empty list of fewer than \<open>2^32\<close> 64-bit samples, \<open>updateStats\<close> has not failed its
  assertion and the counter holds the minimum, the maximum, the mean, the sum of squared deviations
  from the mean and the number of the samples.
\<close>

theorem StatsCounter_correct:
  assumes "exact_fl E" "xs \<noteq> []" "length xs < 2 ^ 32"
    and "\<forall>x\<in>set xs. - (2 ^ 63) \<le> x \<and> x < 2 ^ 63"
  shows "\<exists>c. sc_samples E xs = Inr c \<and> sc_min c = Min (set xs) \<and> sc_max c = Max (set xs) \<and>
    sc_mean c = samples_mean xs \<and> sc_meanSquared c = samples_sqdev xs \<and>
    unat (sc_numSamples c) = length xs"
proof -
  obtain c where c: "sc_samples E xs = Inr c" and w: "welford xs c"
    using sc_samples_welford [OF assms(1,3)] by blast
  have "sc_min c = Min (set xs)" "sc_max c = Max (set xs)"
    using welford_Min [OF w assms(2)] welford_Max [OF w assms(2)] assms(4) by auto
  moreover have "unat (sc_numSamples c) = length xs"
  proof -
    have "unat (of_nat (length xs) :: 32 word) = length xs mod 2 ^ 32"
      by (simp only: unat_of_nat) simp
    with w assms(3) show ?thesis by (simp add: welford_def)
  qed
  ultimately show ?thesis using c w samples_sqdev_eq [of xs] by (auto simp: welford_def)
qed

theorem StatsCounter_correct_witness:
  "\<exists>c. sc_samples tick_env [3, 5, 10] = Inr c \<and> sc_min c = 3 \<and> sc_max c = 10 \<and> sc_mean c = 6"
proof -
  have h: "[3, 5, 10 :: int] \<noteq> []" "length [3, 5, 10 :: int] < 2 ^ 32"
    "\<forall>x\<in>set [3, 5, 10 :: int]. - (2 ^ 63) \<le> x \<and> x < 2 ^ 63" by simp_all
  have "samples_mean [3, 5, 10] = 6" by (simp add: samples_mean_def)
  then show ?thesis
    using StatsCounter_correct [OF exact_fl_tick_env h] by auto
qed

text \<open>
  \<open>operator+=\<close> combines minimum, maximum, mean and sample count of two non-empty runs correctly
  (in exact arithmetic), but averages the sums of squared deviations instead of adding them: the
  result of merging the statistics of two runs of the samples 0, 2 has half the squared deviation
  of the statistics of all four samples.
\<close>

theorem StatsCounter_merge:
  assumes "exact_fl E" "welford xs c" "welford ys d" "xs \<noteq> []" "ys \<noteq> []"
    and "length xs + length ys < 2 ^ 32"
  shows "\<exists>m. sc_merge E c d = Inr m \<and> sc_mean m = samples_mean (xs @ ys) \<and>
    unat (sc_numSamples m) = length (xs @ ys) \<and> sc_min m = min (sc_min c) (sc_min d) \<and>
    sc_max m = max (sc_max c) (sc_max d) \<and>
    sc_meanSquared m = (samples_sqdev xs * length xs + samples_sqdev ys * length ys) / length (xs @ ys)"
proof -
  have l: "unat (of_nat k :: 32 word) = k" if "k < 2 ^ 32" for k
    using that by (simp only: unat_of_nat) simp
  have n: "unat (sc_numSamples c) = length xs" "unat (sc_numSamples d) = length ys"
    "unat (sc_numSamples c + sc_numSamples d) = length xs + length ys"
    using assms(2,3,6) l by (simp_all add: welford_def flip: of_nat_add)
  have nr: "wreal (sc_numSamples c) = length xs" "wreal (sc_numSamples d) = length ys"
    "wreal (sc_numSamples c + sc_numSamples d) = real (length xs) + real (length ys)"
    by (simp_all only: wreal_def n of_nat_add)
  have nz: "sc_numSamples c + sc_numSamples d \<noteq> 0"
    using n(3) assms(4) by (metis add_is_0 length_0_conv unat_0)
  have "sc_mean c * length xs + sc_mean d * length ys = real_of_int (sum_list (xs @ ys))"
    using assms(2-5) by (simp add: welford_def samples_mean_def)
  then show ?thesis
    using assms nz n nr by (simp add: sc_merge_def Let_def samples_mean_def samples_sqdev_eq welford_def min_def max_def)
qed

theorem StatsCounter_merge_witness:
  "\<exists>c d m. welford [0, 2] c \<and> welford [0, 2] d \<and> sc_merge tick_env c d = Inr m \<and>
    sc_mean m = 1 \<and> sc_meanSquared m = 2 \<and> samples_sqdev [0, 2, 0, 2] = 4"
proof -
  obtain c where c: "welford [0, 2] c"
    using sc_samples_welford [OF exact_fl_tick_env, of "[0, 2]"] by auto
  from StatsCounter_merge [OF exact_fl_tick_env c c] obtain m where "sc_merge tick_env c c = Inr m"
    "sc_mean m = samples_mean ([0, 2] @ [0, 2])"
    "sc_meanSquared m = (samples_sqdev [0, 2] * length [0, 2 :: int] +
       samples_sqdev [0, 2] * length [0, 2 :: int]) / length [0, 2, 0, 2 :: int]"
    by auto
  with c show ?thesis
    by (intro exI [of _ c] exI [of _ m]) (simp add: samples_mean_def samples_sqdev_def)
qed

section \<open>Correctness of the histogram\<close>

definition hist_ok :: "Histogram \<Rightarrow> bool" where
  "hist_ok h \<longleftrightarrow> length (h_buckets h) = MaxDigitsInType \<and> sum_list (h_buckets h) = h_numSamples h"

lemma hist_ok_reset [simp]: "hist_ok Histogram_reset"
  by (simp add: hist_ok_def Histogram_reset_def sum_list_replicate)

lemma sum_list_bump:
  "i < length xs \<Longrightarrow> sum_list (xs[i := xs ! i + 1]) = sum_list xs + (1 :: 'a :: comm_ring_1)"
  by (induction xs arbitrary: i) (auto simp: add_ac split: nat.split)

lemma h_updateStats_ok:
  assumes "env_ok E" "hist_ok h" "data > 0"
  shows "\<exists>h'. h_updateStats E data h = Inr h' \<and> hist_ok h' \<and> h_numSamples h' = h_numSamples h + 1"
proof -
  have "0 \<le> log10_floor E data" "log10_floor E data < 20"
    using env_ok_log10 [OF assms(1,3)] by auto
  then have "nat (log10_floor E data mod 2 ^ 16) < MaxDigitsInType" by simp
  then show ?thesis
    using assms by (simp add: h_updateStats_def hist_ok_def Let_def sum_list_bump)
qed

lemma sum_list_map2_add:
  "length xs = length ys \<Longrightarrow> sum_list (map2 (+) xs ys) = sum_list xs + (sum_list ys :: 'a :: comm_monoid_add)"
  by (induction xs ys rule: list_induct2) (simp_all add: add_ac)



lemma MaxValue_assign_ge: "val \<le> MaxValue_assign val mx" "mx \<le> MaxValue_assign val mx"
  by (auto simp: MaxValue_assign_def)

end
