(* ===== verification/Sync.thy ===== *)
theory Sync
  imports Gobjfs_Prelude
begin

text \<open>
  The thin wrappers around kernel synchronisation objects: \<open>SemaphoreWrapper\<close>,
  \<open>ShutdownNotifier\<close>, \<open>TimerNotifier\<close>, the two \<open>EventFD\<close> classes. The outcome of a system call is a
  parameter, 0 for success and the errno otherwise; a retry loop consumes a list of such outcomes
  and is still running when the list is exhausted.
\<close>

section \<open>Interface: permits\<close>

text \<open>A counted resource: taking a permit waits while there is none, giving back adds permits.\<close>

locale permits =
  fixes avail :: "'s \<Rightarrow> nat"
    and acquire :: "'s \<Rightarrow> 's res"
    and release :: "nat \<Rightarrow> 's \<Rightarrow> 's"
  assumes acquire_pos: "avail s > 0 \<Longrightarrow> \<exists>s'. acquire s = Inr s' \<and> Suc (avail s') = avail s"
    and acquire_zero: "avail s = 0 \<Longrightarrow> \<exists>msg. acquire s = Inl (Blocked msg)"
    and avail_release: "avail (release n s) = avail s + n"
begin

fun acquires :: "nat \<Rightarrow> 's \<Rightarrow> 's res" where
  "acquires 0 s = Inr s"
| "acquires (Suc n) s = rbind (acquire s) (acquires n)"

lemma acquires_ok: "n \<le> avail s \<Longrightarrow> \<exists>s'. acquires n s = Inr s' \<and> avail s' + n = avail s"
proof (induction n arbitrary: s)
  case 0
  then show ?case by simp
next
  case (Suc n)
  then obtain s1 where s1: "acquire s = Inr s1" "Suc (avail s1) = avail s"
    using acquire_pos [of s] by auto
  with Suc.prems have "n \<le> avail s1" by simp
  from Suc.IH [OF this] s1 show ?case by auto
qed

lemma acquires_block: "n > avail s \<Longrightarrow> \<exists>msg. acquires n s = Inl (Blocked msg)"
proof (induction n arbitrary: s)
  case 0
  then show ?case by simp
next
  case (Suc n)
  show ?case
  proof (cases "avail s = 0")
    case True
    then show ?thesis using acquire_zero [of s] by auto
  next
    case False
    then obtain s1 where s1: "acquire s = Inr s1" "Suc (avail s1) = avail s"
      using acquire_pos [of s] by auto
    with Suc.prems have "n > avail s1" by simp
    from Suc.IH [OF this] s1 show ?thesis by auto
  qed
qed

lemma release_acquire:
  "\<exists>s'. acquires n (release n s) = Inr s' \<and> avail s' = avail s"
  using acquires_ok [of n "release n s"] by (auto simp: avail_release)

end

section \<open>Retry loops\<close>

text \<open>\<open>do r = call(); while (r < 0 \&\& again(errno));\<close> over the outcomes of the successive calls.\<close>

fun retry :: "(int \<Rightarrow> bool) \<Rightarrow> int list \<Rightarrow> int option" where
  "retry again [] = None"
| "retry again (e # es) = (if e \<noteq> 0 \<and> again e then retry again es else Some e)"

lemma retry_Some_iff: "(\<exists>r. retry again es = Some r) \<longleftrightarrow> (\<exists>e\<in>set es. e = 0 \<or> \<not> again e)"
  by (induction es) auto

lemma retry_result: "retry again es = Some r \<Longrightarrow> r \<in> set es \<and> (r = 0 \<or> \<not> again r)"
  by (induction es) (auto split: if_splits)

lemma retry_skip: "\<forall>e\<in>set es. e \<noteq> 0 \<and> again e \<Longrightarrow> retry again (es @ fs) = retry again fs"
  by (induction es) auto

section \<open>SemaphoreWrapper\<close>

definition SemaphoreWrapper_init :: "int \<Rightarrow> nat \<Rightarrow> nat \<Rightarrow> int \<times> nat" where
  "SemaphoreWrapper_init err initVal old = (if err \<noteq> 0 then (- err, old) else (0, initVal))"

definition SemaphoreWrapper_pause :: "int \<Rightarrow> nat \<Rightarrow> (int \<times> nat) res" where
  "SemaphoreWrapper_pause err v =
     (if err \<noteq> 0 then Inr (- err, v)
      else if v = 0 then Inl (Blocked ''sem_wait'') else Inr (0, v - 1))"

text \<open>\<open>wakeup\<close> posts \<open>count\<close> times; call \<open>i\<close> fails with \<open>errs i\<close>; the last error is returned.\<close>

fun wakeup_loop :: "(nat \<Rightarrow> int) \<Rightarrow> nat \<Rightarrow> nat \<Rightarrow> int \<Rightarrow> nat \<Rightarrow> int \<times> nat" where
  "wakeup_loop errs i 0 finalRet v = (finalRet, v)"
| "wakeup_loop errs i (Suc k) finalRet v =
     (if errs i \<noteq> 0 then wakeup_loop errs (Suc i) k (- errs i) v
      else wakeup_loop errs (Suc i) k finalRet (Suc v))"

definition SemaphoreWrapper_wakeup :: "(nat \<Rightarrow> int) \<Rightarrow> nat \<Rightarrow> nat \<Rightarrow> int \<times> nat" where
  "SemaphoreWrapper_wakeup errs n v = wakeup_loop errs 0 n 0 v"

definition SemaphoreWrapper_getValue :: "int \<Rightarrow> nat \<Rightarrow> int" where
  "SemaphoreWrapper_getValue err v = (if err \<noteq> 0 then - err else int v)"

text \<open>The semaphore as the executor uses it: no call is interrupted or fails.\<close>

definition sem_pause :: "nat \<Rightarrow> nat res" where
  "sem_pause v = rbind (SemaphoreWrapper_pause 0 v) (\<lambda>(_, v'). Inr v')"

definition sem_wakeup :: "nat \<Rightarrow> nat \<Rightarrow> nat" where
  "sem_wakeup n v = snd (SemaphoreWrapper_wakeup (\<lambda>_. 0) n v)"

lemma wakeup_loop_ok: "wakeup_loop (\<lambda>_. 0) i k r v = (r, v + k)"
  by (induction k arbitrary: i v) auto

lemma sem_wakeup_simp [simp]: "sem_wakeup n v = v + n"
  by (simp add: sem_wakeup_def SemaphoreWrapper_wakeup_def wakeup_loop_ok)

lemma sem_pause_simps [simp]:
  "sem_pause 0 = Inl (Blocked ''sem_wait'')"
  "sem_pause (Suc v) = Inr v"
  "v > 0 \<Longrightarrow> sem_pause v = Inr (v - 1)"
  by (simp_all add: sem_pause_def SemaphoreWrapper_pause_def)

lemma sem_pause_eq_Inr: "sem_pause v = Inr v' \<longleftrightarrow> v = Suc v'"
  by (cases v) auto

interpretation sem: permits "\<lambda>v. v" sem_pause sem_wakeup
proof unfold_locales
  show "\<exists>s'. sem_pause s = Inr s' \<and> Suc s' = s" if "s > 0" for s
    using that by (intro exI [of _ "s - 1"]) simp
qed auto

section \<open>ShutdownNotifier, TimerNotifier, EventFD\<close>

abbreviation again_or_intr :: "int \<Rightarrow> bool" where
  "again_or_intr e \<equiv> e = EINTR \<or> e = EAGAIN"

record notifier_fd =
  nf_fd :: int

text \<open>\<open>ShutdownNotifier::init\<close>: results of \<open>eventfd\<close> (a descriptor, or minus errno) and \<open>epoll_ctl\<close>.\<close>

definition ShutdownNotifier_init :: "int \<Rightarrow> int \<Rightarrow> notifier_fd \<Rightarrow> int \<times> notifier_fd" where
  "ShutdownNotifier_init evfd ctl_err n =
     (if evfd < 0 then (evfd, n\<lparr>nf_fd := -1\<rparr>)
      else if ctl_err \<noteq> 0 then (- ctl_err, n\<lparr>nf_fd := evfd\<rparr>)
      else (0, n\<lparr>nf_fd := evfd\<rparr>))"

definition ShutdownNotifier_recv :: "int list \<Rightarrow> int option" where
  "ShutdownNotifier_recv outcomes =
     (case retry again_or_intr outcomes of None \<Rightarrow> None
      | Some e \<Rightarrow> Some (if e \<noteq> 0 then - e else 0))"

definition ShutdownNotifier_send :: "int list \<Rightarrow> int option" where
  "ShutdownNotifier_send outcomes =
     (case retry again_or_intr outcomes of None \<Rightarrow> None
      | Some e \<Rightarrow> Some (if e \<noteq> 0 then - e else 0))"

text \<open>\<open>destroy\<close> closes the descriptor once: it is forgotten only when \<open>close\<close> succeeded.\<close>

definition notifier_destroy :: "int \<Rightarrow> notifier_fd \<Rightarrow> int \<times> int list \<times> notifier_fd" where
  "notifier_destroy close_ret n =
     (if nf_fd n \<noteq> -1 then
        (close_ret, [nf_fd n], if close_ret < 0 then n else n\<lparr>nf_fd := -1\<rparr>)
      else (0, [], n))"

definition TimerNotifier_init :: "int \<Rightarrow> int \<Rightarrow> int \<Rightarrow> notifier_fd \<Rightarrow> int \<times> notifier_fd" where
  "TimerNotifier_init timerfd settime_err ctl_err n =
     (if timerfd < 0 then (timerfd, n\<lparr>nf_fd := -1\<rparr>)
      else if settime_err \<noteq> 0 then (- settime_err, n\<lparr>nf_fd := timerfd\<rparr>)
      else if ctl_err \<noteq> 0 then (- ctl_err, n\<lparr>nf_fd := timerfd\<rparr>)
      else (0, n\<lparr>nf_fd := timerfd\<rparr>))"

text \<open>
  \<open>TimerNotifier::recv\<close> returns the expiration count truncated to \<open>int32_t\<close>, or 0 when the read did
  not return eight bytes.
\<close>

definition TimerNotifier_recv :: "int \<Rightarrow> 64 word \<Rightarrow> int" where
  "TimerNotifier_recv readSize n = (if readSize \<noteq> 8 then 0 else sint (ucast n :: 32 word))"

definition TimerNotifier_destroy :: "int \<Rightarrow> notifier_fd \<Rightarrow> int \<times> int list \<times> notifier_fd" where
  "TimerNotifier_destroy close_ret n =
     (if nf_fd n \<noteq> -1 then
        (close_ret, [nf_fd n], if close_ret < 0 then n else n\<lparr>nf_fd := -1\<rparr>)
      else (0, [], n))"

text \<open>
  The constructors of the two \<open>EventFD\<close> classes throw when there is no descriptor; the destructors list
  the descriptors closed.
\<close>

definition os_EventFD_new :: "int \<Rightarrow> notifier_fd option" where
  "os_EventFD_new evfd = (if evfd < 0 then None else Some \<lparr>nf_fd = evfd\<rparr>)"

definition os_EventFD_destroy :: "notifier_fd \<Rightarrow> int list" where
  "os_EventFD_destroy n = (if nf_fd n \<noteq> -1 then [nf_fd n] else [])"

definition xio_EventFD_new :: "int \<Rightarrow> notifier_fd option" where
  "xio_EventFD_new evfd = (if evfd < 0 then None else Some \<lparr>nf_fd = evfd\<rparr>)"

definition xio_EventFD_destroy :: "notifier_fd \<Rightarrow> int list" where
  "xio_EventFD_destroy n = (if nf_fd n \<noteq> -1 then [nf_fd n] else [])"

text \<open>What a constructor opened its destructor closes, once; \<open>destroy\<close> and then the destructor of a notifier too.\<close>

lemma EventFD_closes:
  "os_EventFD_new evfd = Some n \<Longrightarrow> os_EventFD_destroy n = [evfd]"
  "xio_EventFD_new evfd = Some n \<Longrightarrow> xio_EventFD_destroy n = [evfd]"
  by (auto simp: os_EventFD_new_def os_EventFD_destroy_def xio_EventFD_new_def xio_EventFD_destroy_def split: if_splits)

lemma TimerNotifier_closes_once:
  assumes "TimerNotifier_init timerfd settime_err ctl_err n0 = (ret, n)" "0 \<le> timerfd" "0 \<le> close_ret"
    and "TimerNotifier_destroy close_ret n = (r1, closed1, n1)" "TimerNotifier_destroy close_ret' n1 = (r2, closed2, n2)"
  shows "closed1 @ closed2 = [timerfd]"
  using assms by (auto simp: TimerNotifier_init_def TimerNotifier_destroy_def split: if_splits)

text \<open>\<open>os::EventFD\<close> on the value last read: \<open>readfd\<close> and \<open>writefd\<close>.\<close>

definition os_EventFD_readfd :: "int list \<Rightarrow> nat \<Rightarrow> nat \<Rightarrow> (int \<times> nat) option" where
  "os_EventFD_readfd outcomes readValue lastValue =
     (case retry (\<lambda>e. e = EINTR) outcomes of None \<Rightarrow> None
      | Some e \<Rightarrow> Some (if e = 0 then (0, readValue)
                        else if e \<noteq> EAGAIN then (- e, lastValue) else (-1, lastValue)))"

definition os_EventFD_writefd :: "int list \<Rightarrow> int option" where
  "os_EventFD_writefd outcomes =
     (case retry again_or_intr outcomes of None \<Rightarrow> None
      | Some e \<Rightarrow> Some (if e \<noteq> 0 then -1 else 0))"

text \<open>\<open>xio::EventFD\<close> aborts the process on any other error; \<open>readfd\<close> returns the counter as \<open>int\<close>.\<close>

definition xio_EventFD_readfd :: "int list \<Rightarrow> 64 word \<Rightarrow> int res option" where
  "xio_EventFD_readfd outcomes counter =
     (case retry (\<lambda>e. e = EINTR) outcomes of None \<Rightarrow> None
      | Some e \<Rightarrow> Some (if e = 0 then Inr (sint (ucast counter :: 32 word))
                        else if e \<noteq> EAGAIN then Inl (Aborted ''readfd'') else Inr (-1)))"

definition xio_EventFD_writefd :: "int list \<Rightarrow> int res option" where
  "xio_EventFD_writefd outcomes =
     (case retry again_or_intr outcomes of None \<Rightarrow> None
      | Some e \<Rightarrow> Some (if e \<noteq> 0 then Inl (Aborted ''writefd'') else Inr 0))"

text \<open>
  C32. \<open>ShutdownNotifier::send\<close> and \<open>recv\<close> are total on any finite burst of interruptions: after any
  number of EINTR or EAGAIN outcomes the next outcome decides the result, 0 on success and minus
  the errno otherwise; they return nothing else.
\<close>

theorem ShutdownNotifier_retries:
  assumes "\<forall>e\<in>set burst. again_or_intr e" "\<not> again_or_intr e" "0 \<le> e"
  shows "ShutdownNotifier_send (burst @ e # rest) = Some (- e) \<and>
    ShutdownNotifier_recv (burst @ e # rest) = Some (- e)"
proof -
  have "retry again_or_intr (burst @ e # rest) = Some e"
    using assms by (subst retry_skip) auto
  then show ?thesis by (simp add: ShutdownNotifier_send_def ShutdownNotifier_recv_def)
qed

theorem ShutdownNotifier_retries_witness:
  "ShutdownNotifier_send [EINTR, EAGAIN, EBADF] = Some (- EBADF)"
  using ShutdownNotifier_retries [of "[EINTR, EAGAIN]" EBADF "[]"] by simp

end
