(* ===== verification/IO_Executor.thy ===== *)
theory IO_Executor
  imports Filer_Job Stats Sync
begin

text \<open>
  The executor of asynchronous I/O (\<open>src/IOExecutor.h\<close>, \<open>src/IOExecutor.cpp\<close>): its configuration,
  I/O context, statistics and queues, and the operations of its threads, in the order of the
  source. Jobs live in a heap, a partial map from addresses; an access to a deleted job is the
  fault \<open>UseAfterFree\<close>. The answers of the kernel (\<open>io_submit\<close>, \<open>unlink\<close>, \<open>pwrite\<close>, I/O events) are
  arguments.
\<close>

section \<open>FilerCtx\<close>

record FilerCtx =
  cx_epollFD :: int
  cx_eventFD :: int
  cx_ioQueueDepth :: int
  cx_numAvailable :: int

definition FilerCtx_blank :: FilerCtx where
  "FilerCtx_blank = \<lparr>cx_epollFD = FD_INVALID, cx_eventFD = FD_INVALID, cx_ioQueueDepth = 0, cx_numAvailable = 0\<rparr>"

text \<open>The arguments \<open>qret\<close>, \<open>evfd\<close>, \<open>ctl\<close> are the results of \<open>io_queue_init\<close>, \<open>eventfd\<close>, \<open>epoll_ctl\<close>.\<close>

definition FilerCtx_init :: "int \<Rightarrow> int \<Rightarrow> int \<Rightarrow> int \<Rightarrow> int \<Rightarrow> FilerCtx \<Rightarrow> int \<times> FilerCtx" where
  "FilerCtx_init qret evfd ctl queueDepth epollFD c =
     (let c1 = c\<lparr>cx_ioQueueDepth := queueDepth, cx_epollFD := epollFD\<rparr>
      in if qret \<noteq> 0 then (qret, c1)
         else let c2 = c1\<lparr>cx_numAvailable := queueDepth\<rparr>
              in if evfd = -1 then (-1, c2) else (ctl, c2\<lparr>cx_eventFD := evfd\<rparr>))"

definition FilerCtx_isEmpty :: "FilerCtx \<Rightarrow> bool" where
  "FilerCtx_isEmpty c \<longleftrightarrow> cx_numAvailable c = 0"

definition incrementNumAvailable :: "int \<Rightarrow> FilerCtx \<Rightarrow> FilerCtx res" where
  "incrementNumAvailable n c =
     rbind (rassert ''numAvailable <= ioQueueDepth'' (cx_numAvailable c + n \<le> cx_ioQueueDepth c))
     (\<lambda>_. Inr (c\<lparr>cx_numAvailable := cx_numAvailable c + n\<rparr>))"

definition decrementNumAvailable :: "int \<Rightarrow> FilerCtx \<Rightarrow> FilerCtx res" where
  "decrementNumAvailable n c =
     rbind (rassert ''numAvailable >= 0'' (cx_numAvailable c - n \<ge> 0))
     (\<lambda>_. Inr (c\<lparr>cx_numAvailable := cx_numAvailable c - n\<rparr>))"

text \<open>The destructor closes the eventfd; it asserts that the context was given an epoll descriptor.\<close>

definition FilerCtx_destroy :: "FilerCtx \<Rightarrow> int list res" where
  "FilerCtx_destroy c = rbind (rassert ''epollFD >= 0'' (cx_epollFD c \<ge> 0)) (\<lambda>_. Inr [cx_eventFD c])"

section \<open>Config\<close>

record Config =
  cf_noSubmitterThread :: bool
  cf_cpuCores :: "int list"
  cf_queueDepth :: "32 word"
  cf_minSubmitSize :: "32 word"
  cf_maxRequestQueueSize :: "32 word"
  cf_maxFdQueueSize :: "32 word"

definition setDerivedParam :: "Config \<Rightarrow> Config" where
  "setDerivedParam c = c\<lparr>cf_maxRequestQueueSize := cf_queueDepth c div 5, cf_maxFdQueueSize := cf_queueDepth c\<rparr>"

definition Config_depth :: "32 word \<Rightarrow> Config" where
  "Config_depth queueDepth = setDerivedParam \<lparr>cf_noSubmitterThread = True, cf_cpuCores = [],
     cf_queueDepth = queueDepth, cf_minSubmitSize = 16, cf_maxRequestQueueSize = 0, cf_maxFdQueueSize = 0\<rparr>"

definition Config_default :: Config where
  "Config_default = Config_depth 200"

text \<open>
  The two parameters a configuration file can set (\<open>addOptions\<close>): the parser stores them in the
  fields, nothing recomputes the derived parameters.
\<close>

definition Config_options :: "32 word option \<Rightarrow> int list option \<Rightarrow> Config \<Rightarrow> Config" where
  "Config_options depth cores c =
     (let c1 = (case depth of None \<Rightarrow> c | Some d \<Rightarrow> c\<lparr>cf_queueDepth := d\<rparr>)
      in case cores of None \<Rightarrow> c1 | Some l \<Rightarrow> c1\<lparr>cf_cpuCores := l\<rparr>)"

section \<open>Statistics\<close>

record OpStats =
  op_waitTime :: StatsCounter
  op_serviceTime :: StatsCounter
  op_waitHist :: Histogram
  op_serviceHist :: Histogram
  op_numOps :: "32 word"
  op_numBytes :: "32 word"

definition OpStats_init :: OpStats where
  "OpStats_init = \<lparr>op_waitTime = StatsCounter_init, op_serviceTime = StatsCounter_init,
     op_waitHist = Histogram_reset, op_serviceHist = Histogram_reset, op_numOps = 0, op_numBytes = 0\<rparr>"

record Statistics =
  ss_numQueued :: "64 word"
  ss_numSubmitted :: "64 word"
  ss_numCompleted :: "64 word"
  ss_write :: OpStats
  ss_nonAlignedWrite :: OpStats
  ss_read :: OpStats
  ss_delete :: OpStats
  ss_maxRequestQueueSize :: "32 word"
  ss_maxFdQueueSize :: "32 word"
  ss_numProcessedInLoop :: StatsCounter
  ss_idleLoop :: "32 word"
  ss_numCompletionEvents :: "32 word"
  ss_requestQueueLow1 :: "32 word"
  ss_requestQueueLow2 :: "32 word"
  ss_requestQueueFull :: "32 word"

definition Statistics_init :: Statistics where
  "Statistics_init = \<lparr>ss_numQueued = 0, ss_numSubmitted = 0, ss_numCompleted = 0,
     ss_write = OpStats_init, ss_nonAlignedWrite = OpStats_init, ss_read = OpStats_init, ss_delete = OpStats_init,
     ss_maxRequestQueueSize = 0, ss_maxFdQueueSize = 0, ss_numProcessedInLoop = StatsCounter_init,
     ss_idleLoop = 0, ss_numCompletionEvents = 0, ss_requestQueueLow1 = 0, ss_requestQueueLow2 = 0,
     ss_requestQueueFull = 0\<rparr>"

text \<open>One branch of \<open>incrementOps\<close>: \<open>bytes\<close> is what the branch adds to \<open>numBytes_\<close>.\<close>

definition OpStats_record :: "sysenv \<Rightarrow> FilerJob \<Rightarrow> 64 word \<Rightarrow> OpStats \<Rightarrow> OpStats res" where
  "OpStats_record E job bytes o1 =
     rbind (sc_updateStats E (fj_waitTime job) (op_waitTime o1)) (\<lambda>wt.
     rbind (sc_updateStats E (fj_serviceTime job) (op_serviceTime o1)) (\<lambda>st.
     rbind (h_updateStats E (fj_waitTime job) (op_waitHist o1)) (\<lambda>wh.
     rbind (h_updateStats E (fj_serviceTime job) (op_serviceHist o1)) (\<lambda>sh.
     Inr \<lparr>op_waitTime = wt, op_serviceTime = st, op_waitHist = wh, op_serviceHist = sh,
          op_numOps = op_numOps o1 + 1, op_numBytes = ucast (ucast (op_numBytes o1) + bytes)\<rparr>))))"

definition incrementOps :: "sysenv \<Rightarrow> FilerJob \<Rightarrow> Statistics \<Rightarrow> Statistics res" where
  "incrementOps E job ss =
     rbind
      (case fj_op job of
         Write \<Rightarrow> rbind (rassert ''job->size'' (fj_size job \<noteq> 0)) (\<lambda>_.
           rbind (OpStats_record E job (fj_size job) (ss_write ss)) (\<lambda>o1. Inr (ss\<lparr>ss_write := o1\<rparr>)))
       | NonAlignedWrite \<Rightarrow> rbind (rassert ''job->size'' (fj_size job \<noteq> 0)) (\<lambda>_.
           rbind (OpStats_record E job (fj_size job) (ss_nonAlignedWrite ss))
             (\<lambda>o1. Inr (ss\<lparr>ss_nonAlignedWrite := o1\<rparr>)))
       | Read \<Rightarrow> rbind (rassert ''job->size'' (fj_size job \<noteq> 0)) (\<lambda>_.
           rbind (OpStats_record E job (fj_size job) (ss_read ss)) (\<lambda>o1. Inr (ss\<lparr>ss_read := o1\<rparr>)))
       | Delete \<Rightarrow> rbind (OpStats_record E job 0 (ss_delete ss)) (\<lambda>o1. Inr (ss\<lparr>ss_delete := o1\<rparr>))
       | _ \<Rightarrow> Inr ss)
      (\<lambda>ss1. Inr (ss1\<lparr>ss_numCompleted := ss_numCompleted ss1 + 1\<rparr>))"

section \<open>The executor\<close>

datatype ExecState = NOT_STARTED | RUNNING | NO_MORE_INTAKE | FINAL_SHUTDOWN | TERMINATED

text \<open>
  After the members of the class come the parts of the outside world the code acts on: the index
  of the next clock reading, the requests in flight in the kernel, the status records written to
  completion descriptors, and the descriptors closed. The condition variables are the lists of
  threads (by the job they submit) that wait and that have been woken.
\<close>

record iox =
  ix_config :: Config
  ix_state :: ExecState
  ix_stats :: Statistics
  ix_minSubmitSize :: "32 word"
  ix_requestQueue :: "nat list"
  ix_requestQueueSize :: int
  ix_fdQueue :: "nat list"
  ix_fdQueueSize :: int
  ix_fdQueueCond :: nat
  ix_ctxCond :: nat
  ix_ctx :: FilerCtx
  ix_jobs :: "nat \<rightharpoonup> FilerJob"
  ix_requestWaiters :: "nat list"
  ix_requestWoken :: "nat list"
  ix_fdWaiters :: "nat list"
  ix_fdWoken :: "nat list"
  ix_tick :: nat
  ix_inflight :: "nat list"
  ix_notified :: "(int \<times> gIOStatus) list"
  ix_closed :: "int list"

text \<open>
  The constructor, on the results of \<open>epoll_create1\<close>, \<open>io_queue_init\<close>, \<open>eventfd\<close>, \<open>epoll_ctl\<close> and on
  whether the threads could be started. It ignores the result of \<open>ctx_.init\<close>.
\<close>

definition IOExecutor_new :: "int \<Rightarrow> int \<Rightarrow> int \<Rightarrow> int \<Rightarrow> bool \<Rightarrow> Config \<Rightarrow> iox res" where
  "IOExecutor_new epollFD qret evfd ctl threads_ok config =
     rbind (rassert ''epollFD >= 0'' (epollFD \<ge> 0)) (\<lambda>_.
     Inr \<lparr>ix_config = config,
          ix_state = (if threads_ok then RUNNING else NOT_STARTED),
          ix_stats = Statistics_init, ix_minSubmitSize = 1,
          ix_requestQueue = [], ix_requestQueueSize = 0, ix_fdQueue = [], ix_fdQueueSize = 0,
          ix_fdQueueCond = snd (SemaphoreWrapper_init 0 0 0),
          ix_ctxCond = snd (SemaphoreWrapper_init 0 (unat (cf_queueDepth config)) 0),
          ix_ctx = snd (FilerCtx_init qret evfd ctl (sint (cf_queueDepth config)) epollFD FilerCtx_blank),
          ix_jobs = Map.empty, ix_requestWaiters = [], ix_requestWoken = [], ix_fdWaiters = [], ix_fdWoken = [],
          ix_tick = 0, ix_inflight = [], ix_notified = [], ix_closed = []\<rparr>)"

text \<open>Pointer access, and the updates of components that may fault.\<close>

definition get_job :: "nat \<Rightarrow> iox \<Rightarrow> FilerJob res" where
  "get_job p s = (case ix_jobs s p of None \<Rightarrow> Inl (UseAfterFree p) | Some j \<Rightarrow> Inr j)"

definition put_job :: "nat \<Rightarrow> FilerJob \<Rightarrow> iox \<Rightarrow> iox" where
  "put_job p j s = s\<lparr>ix_jobs := (ix_jobs s)(p \<mapsto> j)\<rparr>"

definition on_ctx :: "(FilerCtx \<Rightarrow> FilerCtx res) \<Rightarrow> iox \<Rightarrow> iox res" where
  "on_ctx f s = rbind (f (ix_ctx s)) (\<lambda>c. Inr (s\<lparr>ix_ctx := c\<rparr>))"

definition pause_ctxCond :: "iox \<Rightarrow> iox res" where
  "pause_ctxCond s = rbind (sem_pause (ix_ctxCond s)) (\<lambda>v. Inr (s\<lparr>ix_ctxCond := v\<rparr>))"

definition wakeup_ctxCond :: "nat \<Rightarrow> iox \<Rightarrow> iox" where
  "wakeup_ctxCond n s = s\<lparr>ix_ctxCond := sem_wakeup n (ix_ctxCond s)\<rparr>"

text \<open>\<open>ConditionWrapper\<close>: \<open>wakeup\<close> is \<open>notify_all\<close>.\<close>

definition wakeup_requestQueueHasSpace :: "iox \<Rightarrow> iox" where
  "wakeup_requestQueueHasSpace s =
     s\<lparr>ix_requestWoken := ix_requestWoken s @ ix_requestWaiters s, ix_requestWaiters := []\<rparr>"

definition wakeup_fdQueueHasSpace :: "iox \<Rightarrow> iox" where
  "wakeup_fdQueueHasSpace s = s\<lparr>ix_fdWoken := ix_fdWoken s @ ix_fdWaiters s, ix_fdWaiters := []\<rparr>"

section \<open>doPostProcessingOfJob\<close>

definition doPostProcessingOfJob :: "sysenv \<Rightarrow> nat \<Rightarrow> iox \<Rightarrow> iox res" where
  "doPostProcessingOfJob E p s =
     rbind (get_job p s) (\<lambda>job.
     rbind (FilerJob_reset (clock E (ix_tick s)) job) (\<lambda>(note, job1).
     rbind (incrementOps E job1 (ix_stats s)) (\<lambda>ss.
     Inr (s\<lparr>ix_stats := ss, ix_tick := Suc (ix_tick s),
            ix_notified := ix_notified s @ [note],
            ix_closed := (if fj_closeFileHandle job1 then ix_closed s @ [fj_fd job1] else ix_closed s),
            ix_jobs := (if fj_canBeFreed job1 then (ix_jobs s)(p := None) else (ix_jobs s)(p \<mapsto> job1))\<rparr>))))"

text \<open>Setting the return code and finishing a job, as every caller does.\<close>

definition finish_job :: "sysenv \<Rightarrow> int \<Rightarrow> nat \<Rightarrow> iox \<Rightarrow> iox res" where
  "finish_job E ret p s =
     rbind (get_job p s) (\<lambda>job. doPostProcessingOfJob E p (put_job p (job\<lparr>fj_retcode := ret\<rparr>) s))"

section \<open>ProcessRequestQueue\<close>

text \<open>
  The first loop moves jobs from the queue to the control blocks while a context is available. Its
  first argument is the queue, the second the control blocks filled so far.
\<close>

fun drain :: "sysenv \<Rightarrow> nat list \<Rightarrow> iocb list \<Rightarrow> iox \<Rightarrow> (iocb list \<times> iox) res" where
  "drain E [] cbs s = Inr (cbs, s)"
| "drain E (p # q) cbs s =
     (if FilerCtx_isEmpty (ix_ctx s) then Inr (cbs, s)
      else
        rbind (if int (length cbs) < cx_ioQueueDepth (ix_ctx s) then Inr ()
               else Inl (UndefinedBehaviour ''cbVec index'')) (\<lambda>_.
        rbind (get_job p s) (\<lambda>job.
        rbind (prepareCallblock (clock E (ix_tick s)) (clock E (Suc (ix_tick s))) p job) (\<lambda>(cb, job1).
        rbind (on_ctx (decrementNumAvailable 1)
                 ((put_job p job1 s)\<lparr>ix_requestQueue := q, ix_tick := Suc (Suc (ix_tick s))\<rparr>)) (\<lambda>s1.
        rbind (pause_ctxCond s1) (\<lambda>s2.
        rbind (rassert ''num >= 0'' (ix_requestQueueSize s2 \<ge> 0)) (\<lambda>_.
        drain E q (cbs @ [cb]) (s2\<lparr>ix_requestQueueSize := ix_requestQueueSize s2 - 1\<rparr>))))))))"

text \<open>
  The retry loop. \<open>io_submit n cbs\<close> is the kernel's answer to the control blocks not yet submitted
  when \<open>n\<close> further tries are left; the blocks it takes are in flight.
\<close>

fun try_submit ::
  "sysenv \<Rightarrow> (nat \<Rightarrow> iocb list \<Rightarrow> int) \<Rightarrow> nat \<Rightarrow> iocb list \<Rightarrow> iox \<Rightarrow> (iocb list \<times> iox) res" where
  "try_submit E io_submit 0 cbs s = Inr (cbs, s)"
| "try_submit E io_submit (Suc numTries) cbs s =
     rbind (rassert ''numRemaining > 0'' (cbs \<noteq> [])) (\<lambda>_.
     let ret = io_submit numTries cbs in
     if ret < 0 then
       (if ret = - EINTR \<or> ret = - EAGAIN then try_submit E io_submit numTries cbs s
        else
          rbind (rfold (\<lambda>cb. finish_job E ret (cb_data cb)) cbs s) (\<lambda>s1.
          rbind (on_ctx (incrementNumAvailable (int (length cbs))) s1) (\<lambda>s2.
          Inr (cbs, wakeup_ctxCond (length cbs) s2))))
     else
       let s1 = s\<lparr>ix_stats := (ix_stats s)\<lparr>ss_numSubmitted := ss_numSubmitted (ix_stats s) + word_of_int ret\<rparr>,
                  ix_inflight := ix_inflight s @ map cb_data (take (nat ret) cbs)\<rparr>
       in if ret < int (length cbs) then
            rbind (on_ctx (incrementNumAvailable ret) s1) (\<lambda>s2.
            try_submit E io_submit numTries (drop (nat ret) cbs) (wakeup_ctxCond (nat ret) s2))
          else
            rbind (rassert ''numRemaining == 0'' (ret = int (length cbs))) (\<lambda>_. Inr ([], s1)))"

definition ProcessRequestQueue :: "sysenv \<Rightarrow> (nat \<Rightarrow> iocb list \<Rightarrow> int) \<Rightarrow> iox \<Rightarrow> (int \<times> iox) res" where
  "ProcessRequestQueue E io_submit s =
     rbind (pause_ctxCond s) (\<lambda>s0.
     rbind (drain E (ix_requestQueue s0) [] (wakeup_ctxCond 1 s0)) (\<lambda>(cbs, s1).
     if cbs = [] then Inr (0, s1)
     else
       rbind (try_submit E io_submit 5 cbs s1) (\<lambda>(rest, s2).
       rbind (if rest = [] then Inr s2
              else
                rbind (rfold (\<lambda>cb. finish_job E (- EINVAL) (cb_data cb)) rest s2) (\<lambda>s3.
                rbind (on_ctx (incrementNumAvailable (int (length rest))) s3) (\<lambda>s4.
                Inr (wakeup_ctxCond (length rest) s4)))) (\<lambda>s5.
       Inr (int (length cbs) - int (length rest),
            if ix_requestQueueSize s5 < sint (cf_maxRequestQueueSize (ix_config s5))
            then wakeup_requestQueueHasSpace s5 else s5)))))"

section \<open>ProcessFdQueue\<close>

text \<open>
  What the loop does with one job. \<open>unlink_err\<close> is 0 or the errno
  of \<open>unlink\<close>; \<open>pw\<close> is what \<open>pwrite\<close> returned with the value of errno after it.
\<close>

definition fd_job_run :: "sysenv \<Rightarrow> int \<Rightarrow> int \<times> int \<Rightarrow> nat \<Rightarrow> iox \<Rightarrow> iox res" where
  "fd_job_run E unlink_err pw p s =
     rbind (get_job p s) (\<lambda>job.
     let now = (clock E (ix_tick s), clock E (Suc (ix_tick s)));
         counted = s\<lparr>ix_tick := Suc (Suc (ix_tick s)),
                     ix_stats := (ix_stats s)\<lparr>ss_numSubmitted := ss_numSubmitted (ix_stats s) + 1\<rparr>\<rparr>
     in if fj_op job = Delete then
          rbind (setWaitTime (fst now) (snd now) job) (\<lambda>job1.
          finish_job E (if unlink_err = 0 then 0 else - unlink_err) p (put_job p job1 counted))
        else if fj_op job = NonAlignedWrite then
          rbind (setWaitTime (fst now) (snd now) job) (\<lambda>job1.
          finish_job E (if (word_of_int (fst pw) :: 64 word) \<noteq> fj_userSize job1 then - snd pw else 0) p
            (put_job p job1 counted))
        else finish_job E (- EINVAL) p s)"

text \<open>
  The body of the loop, from the wait on \<open>fdQueueCond_\<close>; the value says whether it goes back to the
  loop test.
\<close>

definition ProcessFdQueue_body :: "sysenv \<Rightarrow> int \<Rightarrow> int \<times> int \<Rightarrow> iox \<Rightarrow> (bool \<times> iox) res" where
  "ProcessFdQueue_body E unlink_err pw s =
     rbind (sem_pause (ix_fdQueueCond s)) (\<lambda>v.
     case list_pop (ix_fdQueue s) of
       None \<Rightarrow> Inr (False, s\<lparr>ix_fdQueueCond := v\<rparr>)
     | Some (p, q) \<Rightarrow>
         rbind (fd_job_run E unlink_err pw p (s\<lparr>ix_fdQueueCond := v, ix_fdQueue := q\<rparr>)) (\<lambda>s1.
         let s2 = s1\<lparr>ix_fdQueueSize := ix_fdQueueSize s1 - 1\<rparr> in
         Inr (True, if ix_fdQueueSize s2 \<ge> sint (cf_maxRequestQueueSize (ix_config s2))
                    then wakeup_fdQueueHasSpace s2 else s2)))"

definition ProcessFdQueue_test :: "iox \<Rightarrow> bool" where
  "ProcessFdQueue_test s \<longleftrightarrow> ix_state s \<noteq> NO_MORE_INTAKE"

text \<open>The loop, on the answers of the kernel to the successive iterations.\<close>

fun ProcessFdQueue :: "sysenv \<Rightarrow> (int \<times> int \<times> int) list \<Rightarrow> iox \<Rightarrow> iox res" where
  "ProcessFdQueue E [] s = (if ProcessFdQueue_test s then Inl (Blocked ''fdQueueCond'') else Inr s)"
| "ProcessFdQueue E ((unlink_err, pw) # answers) s =
     (if ProcessFdQueue_test s
      then rbind (ProcessFdQueue_body E unlink_err pw s)
             (\<lambda>(gotJob, s1). if gotJob then ProcessFdQueue E answers s1 else Inr s1)
      else Inr s)"

section \<open>submitTask\<close>

text \<open>
  \<open>submitTask\<close> is split where another thread can run: it may have to wait for space in a queue, and
  it takes \<open>submitterCond_.mutex_\<close> before it processes the request queue itself.
\<close>

datatype submit_phase = Returned int | WaitFdSpace | WaitRequestSpace | NeedProcess

definition stamp_job :: "sysenv \<Rightarrow> nat \<Rightarrow> iox \<Rightarrow> iox res" where
  "stamp_job E p s =
     rbind (get_job p s) (\<lambda>job.
     rbind (setSubmitTime (clock E (ix_tick s)) job) (\<lambda>job1.
     Inr ((put_job p (job1\<lparr>fj_executor := True\<rparr>) s)\<lparr>ix_tick := Suc (ix_tick s),
            ix_stats := (ix_stats s)\<lparr>ss_numQueued := ss_numQueued (ix_stats s) + 1\<rparr>\<rparr>)))"

definition submit_fd :: "sysenv \<Rightarrow> nat \<Rightarrow> iox \<Rightarrow> (submit_phase \<times> iox) res" where
  "submit_fd E p s =
     rbind (stamp_job E p s) (\<lambda>s1.
     let sz = ix_fdQueueSize s1 + 1 in
     Inr (Returned 0,
          s1\<lparr>ix_fdQueueSize := sz,
             ix_stats := (ix_stats s1)\<lparr>ss_maxFdQueueSize :=
               MaxValue_assign (word_of_int sz) (ss_maxFdQueueSize (ix_stats s1))\<rparr>,
             ix_fdQueue := list_push p (ix_fdQueue s1),
             ix_fdQueueCond := sem_wakeup 1 (ix_fdQueueCond s1)\<rparr>))"

definition submit_request :: "sysenv \<Rightarrow> nat \<Rightarrow> iox \<Rightarrow> (submit_phase \<times> iox) res" where
  "submit_request E p s =
     (let sz = ix_requestQueueSize s + 1;
          s0 = s\<lparr>ix_requestQueueSize := sz,
                 ix_stats := (ix_stats s)\<lparr>ss_maxRequestQueueSize :=
                   MaxValue_assign (word_of_int sz) (ss_maxRequestQueueSize (ix_stats s))\<rparr>\<rparr>
      in rbind (stamp_job E p s0) (\<lambda>s1.
         let s2 = s1\<lparr>ix_requestQueue := list_push p (ix_requestQueue s1)\<rparr> in
         Inr (if cf_noSubmitterThread (ix_config s2) \<and> ix_requestQueueSize s2 \<ge> sint (ix_minSubmitSize s2)
              then NeedProcess else Returned 0, s2)))"

definition count_full :: "iox \<Rightarrow> iox" where
  "count_full s = s\<lparr>ix_stats := (ix_stats s)\<lparr>ss_requestQueueFull := ss_requestQueueFull (ix_stats s) + 1\<rparr>\<rparr>"

definition submitTask_begin :: "sysenv \<Rightarrow> bool \<Rightarrow> nat \<Rightarrow> iox \<Rightarrow> (submit_phase \<times> iox) res" where
  "submitTask_begin E blocking0 p s0 =
     (if ix_state s0 \<noteq> RUNNING then Inr (Returned (- EAGAIN), s0)
      else
        rbind (get_job p s0) (\<lambda>job0.
        let convert = (\<not> IsDirectIOAligned (fj_userSize job0) \<and> fj_op job0 = Write);
            job = (if convert then job0\<lparr>fj_op := NonAlignedWrite\<rparr> else job0);
            blocking = (blocking0 \<or> convert);
            s = put_job p job s0;
            maxq = sint (cf_maxRequestQueueSize (ix_config s))
        in if fj_op job = Delete \<or> fj_op job = Sync \<or> fj_op job = NonAlignedWrite then
             (if ix_fdQueueSize s > maxq then
                (if \<not> blocking then
                   Inr (Returned (- EAGAIN), put_job p (job\<lparr>fj_retcode := - EAGAIN\<rparr>) s)
                 else Inr (WaitFdSpace, count_full s))
              else submit_fd E p s)
           else if fj_op job = Write \<or> fj_op job = Read then
             (if ix_requestQueueSize s > maxq then
                (if \<not> blocking then
                   Inr (Returned (- EAGAIN), put_job p (job\<lparr>fj_retcode := - EAGAIN\<rparr>) s)
                 else Inr (WaitRequestSpace, count_full s))
              else submit_request E p s)
           else Inr (Returned (- EAGAIN), s)))"

text \<open>The part under the mutex: the queue size is tested again before the queue is processed.\<close>

definition submitTask_process :: "sysenv \<Rightarrow> (nat \<Rightarrow> iocb list \<Rightarrow> int) \<Rightarrow> iox \<Rightarrow> iox res" where
  "submitTask_process E io_submit s =
     (if ix_requestQueueSize s \<ge> sint (ix_minSubmitSize s)
      then rbind (ProcessRequestQueue E io_submit s) (\<lambda>(_, s1). Inr s1) else Inr s)"

text \<open>The call as a whole, when no other thread runs: waiting for space never ends.\<close>

definition submitTask ::
  "sysenv \<Rightarrow> (nat \<Rightarrow> iocb list \<Rightarrow> int) \<Rightarrow> bool \<Rightarrow> nat \<Rightarrow> iox \<Rightarrow> (int \<times> iox) res" where
  "submitTask E io_submit blocking p s =
     rbind (submitTask_begin E blocking p s) (\<lambda>(phase, s1).
     case phase of
       Returned r \<Rightarrow> Inr (r, s1)
     | WaitFdSpace \<Rightarrow> Inl (Blocked ''fdQueueHasSpace'')
     | WaitRequestSpace \<Rightarrow> Inl (Blocked ''requestQueueHasSpace'')
     | NeedProcess \<Rightarrow> rbind (submitTask_process E io_submit s1) (\<lambda>s2. Inr (0, s2)))"

section \<open>ProcessCallbacks and ProcessCompletions\<close>

text \<open>An I/O event: the job pointer and \<open>res\<close>, an unsigned long that holds a size or minus an errno.\<close>

type_synonym io_event = "nat \<times> 64 word"

definition callback_retcode :: "FilerJob \<Rightarrow> 64 word \<Rightarrow> int" where
  "callback_retcode job res =
     (if sint res < 0 then sint (ucast res :: 32 word)
      else if res \<noteq> fj_userSize job \<and> res \<noteq> fj_size job then - EIO else 0)"

definition ProcessCallback :: "sysenv \<Rightarrow> io_event \<Rightarrow> iox \<Rightarrow> iox res" where
  "ProcessCallback E ev s =
     rbind (get_job (fst ev) s) (\<lambda>job.
     rbind (finish_job E (callback_retcode job (snd ev)) (fst ev) s) (\<lambda>s1.
     rbind (on_ctx (incrementNumAvailable 1) s1) (\<lambda>s2. Inr (wakeup_ctxCond 1 s2))))"

definition ProcessCallbacks :: "sysenv \<Rightarrow> io_event list \<Rightarrow> iox \<Rightarrow> iox res" where
  "ProcessCallbacks E events s = rfold (ProcessCallback E) events s"

text \<open>
  The inner loop gathers \<open>numEvents\<close> events from successive \<open>io_getevents\<close> calls; an empty chunk is a
  call that returned none, and \<open>None\<close> means that the thread is still in the loop.
\<close>

fun getevents :: "nat \<Rightarrow> io_event list \<Rightarrow> io_event list list \<Rightarrow> io_event list option" where
  "getevents numEvents got [] = (if length got < numEvents then None else Some got)"
| "getevents numEvents got (c # cs) =
     (if length got < numEvents then getevents numEvents (got @ take (numEvents - length got) c) cs
      else Some got)"

datatype epoll_item = EvAbnormal | EvShutdown | EvTimer | EvUnknown
  | EvCtx nat "io_event list list"

definition completion_event ::
  "sysenv \<Rightarrow> (nat \<Rightarrow> iocb list \<Rightarrow> int) \<Rightarrow> epoll_item \<Rightarrow> iox \<Rightarrow> iox res" where
  "completion_event E io_submit ev s =
     (case ev of
        EvAbnormal \<Rightarrow> Inr s
      | EvUnknown \<Rightarrow> Inr s
      | EvShutdown \<Rightarrow>
          if ix_state s = FINAL_SHUTDOWN
          then rbind (ProcessRequestQueue E io_submit s) (\<lambda>(_, s1). Inr s1) else Inr s
      | EvTimer \<Rightarrow>
          if cf_noSubmitterThread (ix_config s)
          then (if ix_state s = FINAL_SHUTDOWN
                then rbind (ProcessRequestQueue E io_submit s) (\<lambda>(_, s1). Inr s1) else Inr s)
          else Inl (Aborted ''how did we receive this event?'')
      | EvCtx numEvents chunks \<Rightarrow>
          rbind (rassert ''numEvents'' (0 < numEvents \<and> int numEvents \<le> cx_ioQueueDepth (ix_ctx s))) (\<lambda>_.
          case getevents numEvents [] chunks of
            None \<Rightarrow> Inl (Blocked ''io_getevents'')
          | Some evs \<Rightarrow>
              ProcessCallbacks E evs (s\<lparr>ix_inflight := fold remove1 (map fst evs) (ix_inflight s)\<rparr>)))"

text \<open>\<open>ProcessCompletions\<close>: the test that ends the loop, and one round on what \<open>epoll_wait\<close> returned.\<close>

definition ProcessCompletions_done :: "iox \<Rightarrow> bool" where
  "ProcessCompletions_done s \<longleftrightarrow>
     ix_state s = FINAL_SHUTDOWN \<and> ss_numQueued (ix_stats s) = ss_numCompleted (ix_stats s)"

definition ProcessCompletions_round ::
  "sysenv \<Rightarrow> (nat \<Rightarrow> iocb list \<Rightarrow> int) \<Rightarrow> epoll_item list \<Rightarrow> iox \<Rightarrow> iox res" where
  "ProcessCompletions_round E io_submit evs s =
     (if evs = [] then Inl (AssertFailed ''numEpollEvents > 0'')
      else rfold (completion_event E io_submit) evs
             (s\<lparr>ix_stats := (ix_stats s)\<lparr>ss_numCompletionEvents :=
                 ss_numCompletionEvents (ix_stats s) + of_nat (length evs)\<rparr>\<rparr>))"

section \<open>The submitter thread\<close>

definition halve_minSubmitSize :: "iox \<Rightarrow> iox" where
  "halve_minSubmitSize s =
     (if ix_minSubmitSize s > 1 then s\<lparr>ix_minSubmitSize := ix_minSubmitSize s div 2\<rparr> else s)"

text \<open>One pass of the loop of \<open>execute\<close> up to the wait; the value is \<open>numProcessedInLoop\<close>.\<close>

definition execute_iter :: "sysenv \<Rightarrow> (nat \<Rightarrow> iocb list \<Rightarrow> int) \<Rightarrow> iox \<Rightarrow> (int \<times> iox) res" where
  "execute_iter E io_submit s =
     rbind (if ix_requestQueueSize s \<ge> sint (ix_minSubmitSize s)
            then rbind (ProcessRequestQueue E io_submit s)
                   (\<lambda>(n, s1). Inr (n, s1\<lparr>ix_minSubmitSize := cf_minSubmitSize (ix_config s1)\<rparr>))
            else Inr (0, halve_minSubmitSize s)) (\<lambda>(n, s1).
     rbind (sc_updateStats E n (ss_numProcessedInLoop (ix_stats s1))) (\<lambda>c.
     let s2 = s1\<lparr>ix_stats := (ix_stats s1)\<lparr>ss_numProcessedInLoop := c\<rparr>\<rparr> in
     Inr (n, if n = 0 then s2\<lparr>ix_stats := (ix_stats s2)\<lparr>ss_idleLoop := ss_idleLoop (ix_stats s2) + 1\<rparr>\<rparr> else s2)))"

definition execute_waits :: "iox \<Rightarrow> bool" where
  "execute_waits s \<longleftrightarrow> ix_requestQueueSize s < sint (ix_minSubmitSize s) \<and> ix_fdQueueSize s = 0 \<and>
     ix_state s = RUNNING"

text \<open>One pass of the waiting loop: the sleeping time in microseconds is threaded with the state.\<close>

definition execute_wait :: "int \<times> iox \<Rightarrow> int \<times> iox" where
  "execute_wait = (\<lambda>(sleepTime, s).
     let s1 = halve_minSubmitSize s;
         ss = ix_stats s1
     in (if sleepTime < 1000 then sleepTime * 10 else sleepTime,
         s1\<lparr>ix_stats := (if sleepTime = 1 then ss\<lparr>ss_requestQueueLow1 := ss_requestQueueLow1 ss + 1\<rparr>
                         else ss\<lparr>ss_requestQueueLow2 := ss_requestQueueLow2 ss + 1\<rparr>)\<rparr>))"

section \<open>stop\<close>

text \<open>The three parts of \<open>stop\<close>, separated by the joins of the other threads.\<close>

definition stop_intake :: "iox \<Rightarrow> iox" where
  "stop_intake s =
     (let s1 = s\<lparr>ix_state := NO_MORE_INTAKE\<rparr>;
          s2 = (if \<not> cf_noSubmitterThread (ix_config s1) then wakeup_ctxCond 1 s1 else s1)
      in s2\<lparr>ix_fdQueueCond := sem_wakeup 1 (ix_fdQueueCond s2)\<rparr>)"

definition stop_final :: "iox \<Rightarrow> iox" where
  "stop_final s = s\<lparr>ix_state := FINAL_SHUTDOWN\<rparr>"

definition stop_done :: "iox \<Rightarrow> iox res" where
  "stop_done s =
     (if ProcessCompletions_done s
      then Inr (s\<lparr>ix_state := TERMINATED, ix_closed := ix_closed s @ [cx_epollFD (ix_ctx s)]\<rparr>)
      else Inl (Blocked ''completionThread_.join''))"

end
