(* ===== verification/IO_Executor_Inv.thy ===== *)
theory IO_Executor_Inv
  imports IO_Executor
begin

text \<open>
  The invariant of the executor and its preservation by every operation of its threads: no
  assertion fails, no deleted job is touched, and the counters agree with the queues.
\<close>

section \<open>Statistics do not overflow below \<open>2 ^ 32\<close> jobs\<close>

definition opstats_ok :: "nat \<Rightarrow> OpStats \<Rightarrow> bool" where
  "opstats_ok n o1 \<longleftrightarrow> unat (sc_numSamples (op_waitTime o1)) \<le> n \<and>
     unat (sc_numSamples (op_serviceTime o1)) \<le> n \<and> hist_ok (op_waitHist o1) \<and> hist_ok (op_serviceHist o1)"

definition stats_ok :: "nat \<Rightarrow> Statistics \<Rightarrow> bool" where
  "stats_ok n ss \<longleftrightarrow> opstats_ok n (ss_write ss) \<and> opstats_ok n (ss_nonAlignedWrite ss) \<and>
     opstats_ok n (ss_read ss) \<and> opstats_ok n (ss_delete ss)"

lemma opstats_ok_init [simp]: "opstats_ok n OpStats_init"
  by (simp add: opstats_ok_def OpStats_init_def StatsCounter_init_def)

lemma stats_ok_init [simp]: "stats_ok n Statistics_init"
  by (simp add: stats_ok_def Statistics_init_def)

lemma opstats_ok_mono: "opstats_ok m o1 \<Longrightarrow> m \<le> n \<Longrightarrow> opstats_ok n o1"
  by (auto simp: opstats_ok_def)

lemma unat_inc32: "unat w \<le> n \<Longrightarrow> Suc n < 2 ^ 32 \<Longrightarrow> unat (w + 1 :: 32 word) = Suc (unat w)"
  by (simp add: unat_word_ariths)

lemma sc_updateStats_ok:
  assumes "unat (sc_numSamples c) \<le> n" "Suc n < 2 ^ 32"
  shows "\<exists>c'. sc_updateStats E x c = Inr c' \<and> unat (sc_numSamples c') \<le> Suc n"
proof -
  have u: "unat (sc_numSamples c + 1) = Suc (unat (sc_numSamples c))"
    using assms by (rule unat_inc32)
  then have "sc_numSamples c + 1 > 0"
    by (simp add: word_less_nat_alt)
  with u assms(1) show ?thesis
    by (simp add: sc_updateStats_def Let_def)
qed

lemma OpStats_record_ok:
  assumes "env_ok E" "opstats_ok n o1" "Suc n < 2 ^ 32" "fj_waitTime j > 0" "fj_serviceTime j > 0"
  shows "\<exists>o2. OpStats_record E j b o1 = Inr o2 \<and> opstats_ok (Suc n) o2"
proof -
  obtain wt where wt: "sc_updateStats E (fj_waitTime j) (op_waitTime o1) = Inr wt"
      "unat (sc_numSamples wt) \<le> Suc n"
    using sc_updateStats_ok assms(2,3) unfolding opstats_ok_def by blast
  obtain st where st: "sc_updateStats E (fj_serviceTime j) (op_serviceTime o1) = Inr st"
      "unat (sc_numSamples st) \<le> Suc n"
    using sc_updateStats_ok assms(2,3) unfolding opstats_ok_def by blast
  obtain wh where wh: "h_updateStats E (fj_waitTime j) (op_waitHist o1) = Inr wh" "hist_ok wh"
    using h_updateStats_ok assms(1,2,4) unfolding opstats_ok_def by blast
  obtain sh where sh: "h_updateStats E (fj_serviceTime j) (op_serviceHist o1) = Inr sh" "hist_ok sh"
    using h_updateStats_ok assms(1,2,5) unfolding opstats_ok_def by blast
  from wt st wh sh show ?thesis
    by (simp add: OpStats_record_def opstats_ok_def)
qed

text \<open>The operations that carry data have a nonzero rounded size.\<close>

definition rw_op :: "FilerJob \<Rightarrow> bool" where
  "rw_op j \<longleftrightarrow> (fj_op j = Read \<or> fj_op j = Write) \<and> fj_size j \<noteq> 0"

definition fd_op :: "FilerJob \<Rightarrow> bool" where
  "fd_op j \<longleftrightarrow> fj_op j = Delete \<or> (fj_op j = NonAlignedWrite \<and> fj_size j \<noteq> 0)"

lemma incrementOps_ok:
  assumes "env_ok E" "stats_ok n ss" "Suc n < 2 ^ 32" "fj_waitTime j > 0" "fj_serviceTime j > 0"
    and "rw_op j \<or> fd_op j"
  shows "\<exists>ss'. incrementOps E j ss = Inr ss' \<and> stats_ok (Suc n) ss' \<and>
    ss_numCompleted ss' = ss_numCompleted ss + 1 \<and> ss_numQueued ss' = ss_numQueued ss"
proof -
  have rec: "\<exists>o2. OpStats_record E j b o1 = Inr o2 \<and> opstats_ok (Suc n) o2" if "opstats_ok n o1" for b o1
    using OpStats_record_ok [OF assms(1) that assms(3-5)] .
  have mono: "opstats_ok (Suc n) o1" if "opstats_ok n o1" for o1
    using that by (rule opstats_ok_mono) simp
  consider (w) "fj_op j = Write" "fj_size j \<noteq> 0" | (r) "fj_op j = Read" "fj_size j \<noteq> 0"
    | (n) "fj_op j = NonAlignedWrite" "fj_size j \<noteq> 0" | (d) "fj_op j = Delete"
    using assms(6) unfolding rw_op_def fd_op_def by blast
  then show ?thesis
  proof cases
    case w
    from rec [of "ss_write ss" "fj_size j"] assms(2) show ?thesis
      using w mono by (auto simp: incrementOps_def stats_ok_def)
  next
    case r
    from rec [of "ss_read ss" "fj_size j"] assms(2) show ?thesis
      using r mono by (auto simp: incrementOps_def stats_ok_def)
  next
    case n
    from rec [of "ss_nonAlignedWrite ss" "fj_size j"] assms(2) show ?thesis
      using n mono by (auto simp: incrementOps_def stats_ok_def)
  next
    case d
    from rec [of "ss_delete ss" 0] assms(2) show ?thesis
      using d mono by (auto simp: incrementOps_def stats_ok_def)
  qed
qed

section \<open>The invariant\<close>

definition queued_job :: "sysenv \<Rightarrow> nat \<Rightarrow> FilerJob \<Rightarrow> bool" where
  "queued_job E t j \<longleftrightarrow> job_fresh j \<and> fj_timer j < clock E t"

definition waited_job :: "sysenv \<Rightarrow> nat \<Rightarrow> FilerJob \<Rightarrow> bool" where
  "waited_job E t j \<longleftrightarrow> fj_waitTime j > 0 \<and> fj_serviceTime j = 0 \<and> fj_timer j < clock E t"

text \<open>What a job and a notification say about which request they belong to.\<close>

definition jtag :: "FilerJob \<Rightarrow> int \<times> 64 word" where
  "jtag j = (fj_completionFd j, fj_completionId j)"

definition ntag :: "int \<times> gIOStatus \<Rightarrow> int \<times> 64 word" where
  "ntag n = (fst n, st_completionId (snd n))"

text \<open>
  The jobs the executor holds: queued, in flight, and those a thread holds in local variables: the
  control blocks or events \<open>H\<close>.
\<close>

definition owned :: "nat list \<Rightarrow> iox \<Rightarrow> nat list" where
  "owned H s = ix_requestQueue s @ ix_fdQueue s @ ix_inflight s @ H"

definition all_jobs :: "(FilerJob \<Rightarrow> bool) \<Rightarrow> (nat \<rightharpoonup> FilerJob) \<Rightarrow> nat list \<Rightarrow> bool" where
  "all_jobs P m L \<longleftrightarrow> (\<forall>p\<in>set L. \<exists>j. m p = Some j \<and> P j)"

definition tags :: "(nat \<rightharpoonup> FilerJob) \<Rightarrow> nat list \<Rightarrow> (int \<times> 64 word) list" where
  "tags m L = map (\<lambda>p. jtag (the (m p))) L"

definition heap_ok :: "sysenv \<Rightarrow> nat list \<Rightarrow> iox \<Rightarrow> bool" where
  "heap_ok E H s \<longleftrightarrow> distinct (owned H s) \<and>
     all_jobs (\<lambda>j. queued_job E (ix_tick s) j \<and> rw_op j) (ix_jobs s) (ix_requestQueue s) \<and>
     all_jobs (\<lambda>j. queued_job E (ix_tick s) j \<and> fd_op j) (ix_jobs s) (ix_fdQueue s) \<and>
     all_jobs (\<lambda>j. waited_job E (ix_tick s) j \<and> rw_op j) (ix_jobs s) (ix_inflight s @ H)"

text \<open>
  The permits of \<open>ctxCond_\<close> are the free I/O contexts, plus the one \<open>stop\<close> adds to release a
  submitter thread; \<open>k\<close> contexts belong to finished jobs and are about to be given back.
\<close>

definition ctx_slack :: "iox \<Rightarrow> int" where
  "ctx_slack s = (if ix_state s = RUNNING \<or> cf_noSubmitterThread (ix_config s) then 0 else 1)"

definition ctx_ok :: "nat list \<Rightarrow> nat \<Rightarrow> iox \<Rightarrow> bool" where
  "ctx_ok H k s \<longleftrightarrow> cx_numAvailable (ix_ctx s) \<ge> 0 \<and>
     int (ix_ctxCond s) = cx_numAvailable (ix_ctx s) + ctx_slack s \<and>
     cx_numAvailable (ix_ctx s) + int (length (ix_inflight s)) + int (length H) + int k = cx_ioQueueDepth (ix_ctx s)"

definition sizes_ok :: "iox \<Rightarrow> bool" where
  "sizes_ok s \<longleftrightarrow> ix_requestQueueSize s = int (length (ix_requestQueue s)) \<and>
     ix_fdQueueSize s = int (length (ix_fdQueue s)) \<and> length (ix_fdQueue s) \<le> ix_fdQueueCond s \<and>
     (ix_state s = RUNNING \<longrightarrow> ix_fdQueueCond s = length (ix_fdQueue s))"

text \<open>\<open>acc\<close> lists the requests accepted so far; every one is still owned or has been notified.\<close>

definition count_ok :: "(int \<times> 64 word) list \<Rightarrow> nat list \<Rightarrow> iox \<Rightarrow> bool" where
  "count_ok acc H s \<longleftrightarrow> length acc < 2 ^ 32 \<and>
     ss_numQueued (ix_stats s) = of_nat (length acc) \<and>
     ss_numCompleted (ix_stats s) = of_nat (length (ix_notified s)) \<and>
     stats_ok (length (ix_notified s)) (ix_stats s) \<and>
     mset acc = mset (map ntag (ix_notified s)) + mset (tags (ix_jobs s) (owned H s))"

definition xinv :: "sysenv \<Rightarrow> (int \<times> 64 word) list \<Rightarrow> nat list \<Rightarrow> nat \<Rightarrow> iox \<Rightarrow> bool" where
  "xinv E acc H k s \<longleftrightarrow> heap_ok E H s \<and> ctx_ok H k s \<and> sizes_ok s \<and> count_ok acc H s"

lemmas xinv_defs = xinv_def heap_ok_def ctx_ok_def sizes_ok_def count_ok_def

text \<open>Jobs outside a list can change without affecting it.\<close>

lemma all_jobs_simps [simp]:
  "all_jobs P m []"
  "all_jobs P m (p # L) \<longleftrightarrow> (\<exists>j. m p = Some j \<and> P j) \<and> all_jobs P m L"
  "all_jobs P m (L @ L') \<longleftrightarrow> all_jobs P m L \<and> all_jobs P m L'"
  "p \<notin> set L \<Longrightarrow> all_jobs P (m(p := x)) L \<longleftrightarrow> all_jobs P m L"
  by (auto simp: all_jobs_def)

lemma all_jobs_mono: "all_jobs P m L \<Longrightarrow> (\<And>j. P j \<Longrightarrow> Q j) \<Longrightarrow> all_jobs Q m L"
  by (force simp: all_jobs_def)

lemma all_jobs_put:
  "all_jobs P m L \<Longrightarrow> P j \<Longrightarrow> all_jobs P (m(p \<mapsto> j)) L"
  by (auto simp: all_jobs_def)

lemma tags_simps [simp]:
  "tags m [] = []"
  "tags m (p # L) = jtag (the (m p)) # tags m L"
  "tags m (L @ L') = tags m L @ tags m L'"
  "p \<notin> set L \<Longrightarrow> tags (m(p := x)) L = tags m L"
  "length (tags m L) = length L"
  by (auto simp: tags_def)

lemma tags_same: "jtag j = jtag (the (m p)) \<Longrightarrow> tags (m(p \<mapsto> j)) L = tags m L"
  by (auto simp: tags_def)

lemma count_ok_owned: "count_ok acc H s \<Longrightarrow> length acc = length (ix_notified s) + length (owned H s)"
proof -
  assume "count_ok acc H s"
  then have "size (mset acc) = size (mset (map ntag (ix_notified s)) + mset (tags (ix_jobs s) (owned H s)))"
    unfolding count_ok_def by simp
  then show ?thesis by simp
qed

lemma queued_job_mono: "env_ok E \<Longrightarrow> queued_job E t j \<Longrightarrow> t \<le> t' \<Longrightarrow> queued_job E t' j"
  using env_ok_clock [of E t t'] by (cases "t = t'") (auto simp: queued_job_def)

lemma waited_job_mono: "env_ok E \<Longrightarrow> waited_job E t j \<Longrightarrow> t \<le> t' \<Longrightarrow> waited_job E t' j"
  using env_ok_clock [of E t t'] by (cases "t = t'") (auto simp: waited_job_def)

section \<open>Finishing a job\<close>

text \<open>What \<open>finish_job\<close> does to the state: the fields not named here are unchanged.\<close>

definition job_finished :: "int \<Rightarrow> nat \<Rightarrow> FilerJob \<Rightarrow> iox \<Rightarrow> iox \<Rightarrow> bool" where
  "job_finished ret p j s s' \<longleftrightarrow>
     (\<exists>ss x.
       s' = s\<lparr>ix_stats := ss, ix_tick := Suc (ix_tick s),
              ix_notified := ix_notified s @ [(fj_completionFd j, \<lparr>st_completionId = fj_completionId j, st_errorCode = ret\<rparr>)],
              ix_closed := ix_closed s @ (if fj_closeFileHandle j then [fj_fd j] else []),
              ix_jobs := (ix_jobs s)(p := x)\<rparr> \<and>
       (x = None \<longleftrightarrow> fj_canBeFreed j) \<and> ss_numQueued ss = ss_numQueued (ix_stats s) \<and>
       ss_numCompleted ss = ss_numCompleted (ix_stats s) + 1)"

lemma finish_job_ok:
  assumes "env_ok E" "ix_jobs s p = Some j" "waited_job E (ix_tick s) j" "rw_op j \<or> fd_op j"
    and "stats_ok n (ix_stats s)" "Suc n < 2 ^ 32"
  shows "\<exists>s'. finish_job E ret p s = Inr s' \<and> job_finished ret p j s s' \<and> stats_ok (Suc n) (ix_stats s')"
proof -
  let ?j1 = "j\<lparr>fj_retcode := ret, fj_serviceTime := clock E (ix_tick s) - fj_timer j\<rparr>"
  have j1: "fj_waitTime ?j1 > 0" "fj_serviceTime ?j1 > 0" "rw_op ?j1 \<or> fd_op ?j1"
    using assms(3,4) by (auto simp: waited_job_def rw_op_def fd_op_def)
  obtain ss where ss: "incrementOps E ?j1 (ix_stats s) = Inr ss" "stats_ok (Suc n) ss"
      "ss_numCompleted ss = ss_numCompleted (ix_stats s) + 1" "ss_numQueued ss = ss_numQueued (ix_stats s)"
    using incrementOps_ok [OF assms(1,5,6) j1] by blast
  have r: "FilerJob_reset (clock E (ix_tick s)) (j\<lparr>fj_retcode := ret\<rparr>) =
      Inr ((fj_completionFd j, \<lparr>st_completionId = fj_completionId j, st_errorCode = ret\<rparr>), ?j1)"
    using assms(3) by (simp add: FilerJob_reset_def setServiceTime_def waited_job_def)
  let ?x = "if fj_canBeFreed j then None else Some ?j1"
  have "finish_job E ret p s = Inr (s\<lparr>ix_stats := ss, ix_tick := Suc (ix_tick s),
      ix_notified := ix_notified s @ [(fj_completionFd j, \<lparr>st_completionId = fj_completionId j, st_errorCode = ret\<rparr>)],
      ix_closed := ix_closed s @ (if fj_closeFileHandle j then [fj_fd j] else []),
      ix_jobs := (ix_jobs s)(p := ?x)\<rparr>)" (is "_ = Inr ?s'")
    using r ss(1) assms(2)
    by (simp add: finish_job_def doPostProcessingOfJob_def get_job_def put_job_def)
  moreover have "job_finished ret p j s ?s'"
    unfolding job_finished_def using ss(3,4) by (intro exI [of _ ss] exI [of _ ?x]) simp
  ultimately show ?thesis using ss(2) by (intro exI [of _ ?s']) simp
qed

text \<open>In terms of the invariant: a held job becomes a context to give back.\<close>

lemma heap_ok_finish:
  assumes "env_ok E" "heap_ok E H s" "p \<notin> set (owned H s)" "job_finished ret p j s s'"
  shows "heap_ok E H s'"
proof -
  from assms(4) obtain ss x where s': "s' = s\<lparr>ix_stats := ss, ix_tick := Suc (ix_tick s),
       ix_notified := ix_notified s @ [(fj_completionFd j, \<lparr>st_completionId = fj_completionId j, st_errorCode = ret\<rparr>)],
       ix_closed := ix_closed s @ (if fj_closeFileHandle j then [fj_fd j] else []),
       ix_jobs := (ix_jobs s)(p := x)\<rparr>"
    unfolding job_finished_def by blast
  show ?thesis
    using assms(2,3) queued_job_mono [OF assms(1), of "ix_tick s" _ "Suc (ix_tick s)"]
      waited_job_mono [OF assms(1), of "ix_tick s" _ "Suc (ix_tick s)"]
    unfolding heap_ok_def owned_def s' by (auto elim!: all_jobs_mono)
qed

lemma heap_ok_drop: "heap_ok E (p # H) s \<Longrightarrow> heap_ok E H s \<and> p \<notin> set (owned H s)"
  by (auto simp: heap_ok_def owned_def)

lemma count_ok_finish:
  assumes "count_ok acc L s" "mset (tags (ix_jobs s) (owned L s)) =
      add_mset (jtag j) (mset (tags (ix_jobs s') (owned L' s')))"
    and "job_finished ret p j s s'" "stats_ok (Suc (length (ix_notified s))) (ix_stats s')"
  shows "count_ok acc L' s'"
  using assms unfolding job_finished_def count_ok_def
  by (auto simp: jtag_def ntag_def)

lemma finish_held:
  assumes "env_ok E" "xinv E acc (p # H) k s"
  shows "\<exists>s'. finish_job E ret p s = Inr s' \<and> xinv E acc H (Suc k) s' \<and>
    (\<exists>j. ix_jobs s p = Some j \<and> job_finished ret p j s s')"
proof -
  from assms(2) obtain j where j: "ix_jobs s p = Some j" "waited_job E (ix_tick s) j" "rw_op j"
    by (auto simp: xinv_def heap_ok_def)
  have c: "count_ok acc (p # H) s" using assms(2) by (simp add: xinv_def)
  have len: "Suc (length (ix_notified s)) < 2 ^ 32"
    using count_ok_owned [OF c] c by (simp add: count_ok_def owned_def)
  obtain s' where s': "finish_job E ret p s = Inr s'" "job_finished ret p j s s'"
      "stats_ok (Suc (length (ix_notified s))) (ix_stats s')"
    using finish_job_ok [OF assms(1) j(1,2) _ _ len] j(3) c unfolding count_ok_def by blast
  have h: "heap_ok E H s'"
    using heap_ok_finish [OF assms(1) _ _ s'(2)] heap_ok_drop assms(2) unfolding xinv_def by blast
  have d: "distinct (owned (p # H) s)" using assms(2) by (simp add: xinv_def heap_ok_def)
  have "mset (tags (ix_jobs s) (owned (p # H) s)) =
      add_mset (jtag j) (mset (tags (ix_jobs s') (owned H s')))"
    using s'(2) d j(1) by (auto simp: job_finished_def owned_def)
  then have "count_ok acc H s'"
    using count_ok_finish [OF c _ s'(2,3)] by blast
  moreover have "ctx_ok H (Suc k) s'" "sizes_ok s'"
    using assms(2) s'(2) by (auto simp: xinv_def ctx_ok_def sizes_ok_def ctx_slack_def job_finished_def)
  ultimately show ?thesis using s' h j(1) by (auto simp: xinv_def)
qed

text \<open>Finishing a list of held jobs notifies each of them, in order.\<close>

definition same_queues :: "iox \<Rightarrow> iox \<Rightarrow> bool" where
  "same_queues s s' \<longleftrightarrow> ix_requestQueue s' = ix_requestQueue s \<and> ix_fdQueue s' = ix_fdQueue s \<and>
     ix_inflight s' = ix_inflight s \<and> ix_state s' = ix_state s \<and> ix_config s' = ix_config s \<and>
     cx_ioQueueDepth (ix_ctx s') = cx_ioQueueDepth (ix_ctx s) \<and> ix_fdQueueCond s' = ix_fdQueueCond s"

definition notifies :: "nat list \<Rightarrow> int list \<Rightarrow> iox \<Rightarrow> iox \<Rightarrow> bool" where
  "notifies ps rets s s' \<longleftrightarrow> (\<exists>ns. ix_notified s' = ix_notified s @ ns \<and>
     map ntag ns = tags (ix_jobs s) ps \<and> map (\<lambda>n. st_errorCode (snd n)) ns = rets)"

lemma same_queues_refl [simp]: "same_queues s s"
  by (simp add: same_queues_def)

lemma same_queues_trans: "same_queues s s1 \<Longrightarrow> same_queues s1 s2 \<Longrightarrow> same_queues s s2"
  by (simp add: same_queues_def)

lemma job_finished_same_queues: "job_finished ret p j s s' \<Longrightarrow> same_queues s s'"
  by (auto simp: job_finished_def same_queues_def)

lemma notifies_Nil [simp]: "notifies [] [] s s' \<longleftrightarrow> ix_notified s' = ix_notified s"
  by (auto simp: notifies_def)

lemma notifies_Cons:
  assumes "job_finished r p j s s1" "ix_jobs s p = Some j" "notifies ps rs s1 s2" "p \<notin> set ps"
  shows "notifies (p # ps) (r # rs) s s2"
proof -
  from assms(1) have jobs: "tags (ix_jobs s1) ps = tags (ix_jobs s) ps"
    using assms(4) by (auto simp: job_finished_def)
  from assms(3) obtain ns where ns: "ix_notified s2 = ix_notified s1 @ ns"
      "map ntag ns = tags (ix_jobs s) ps" "map (\<lambda>n. st_errorCode (snd n)) ns = rs"
    unfolding notifies_def jobs by blast
  let ?n = "(fj_completionFd j, \<lparr>st_completionId = fj_completionId j, st_errorCode = r\<rparr>)"
  have "ix_notified s1 = ix_notified s @ [?n]"
    using assms(1) by (auto simp: job_finished_def)
  then show ?thesis unfolding notifies_def using ns assms(2)
    by (intro exI [of _ "?n # ns"]) (simp add: ntag_def jtag_def)
qed

lemma finish_all:
  assumes "env_ok E" "xinv E acc (map f xs @ H) k s"
  shows "\<exists>s'. rfold (\<lambda>x. finish_job E (ret x) (f x)) xs s = Inr s' \<and> xinv E acc H (k + length xs) s' \<and>
    same_queues s s' \<and> notifies (map f xs) (map ret xs) s s'"
  using assms(2)
proof (induction xs arbitrary: k s)
  case Nil
  then show ?case by simp
next
  case (Cons x xs)
  then obtain s1 j where s1: "finish_job E (ret x) (f x) s = Inr s1" "xinv E acc (map f xs @ H) (Suc k) s1"
      "ix_jobs s (f x) = Some j" "job_finished (ret x) (f x) j s s1"
    using finish_held [OF assms(1), of acc "f x" "map f xs @ H" k s "ret x"] by auto
  from Cons.IH [OF s1(2)] obtain s2 where s2: "rfold (\<lambda>x. finish_job E (ret x) (f x)) xs s1 = Inr s2"
      "xinv E acc H (Suc k + length xs) s2" "same_queues s1 s2" "notifies (map f xs) (map ret xs) s1 s2"
    by blast
  have "f x \<notin> set (map f xs)"
    using Cons.prems by (auto simp: xinv_def heap_ok_def owned_def)
  from notifies_Cons [OF s1(4,3) s2(4) this] s1(1) s2(1,2)
    same_queues_trans [OF job_finished_same_queues [OF s1(4)] s2(3)] show ?case by simp
qed

text \<open>Giving contexts back.\<close>

lemma credit_ok:
  assumes "xinv E acc H (k + n) s"
  shows "\<exists>s'. on_ctx (incrementNumAvailable (int n)) s = Inr s' \<and> xinv E acc H k (wakeup_ctxCond n s') \<and>
    same_queues s (wakeup_ctxCond n s') \<and> ix_notified (wakeup_ctxCond n s') = ix_notified s \<and>
    ix_jobs (wakeup_ctxCond n s') = ix_jobs s"
  using assms
  by (auto simp: same_queues_def xinv_defs owned_def on_ctx_def incrementNumAvailable_def wakeup_ctxCond_def ctx_slack_def)

end
