(* ===== verification/IO_Executor_Queue.thy ===== *)
theory IO_Executor_Queue
  imports IO_Executor_Inv
begin

text \<open>
  The operations of the executor preserve its invariant: the request queue, the completion
  callbacks, the fd queue and the submission of jobs.
\<close>

section \<open>ProcessRequestQueue\<close>

lemma ctx_slack_nonneg: "ctx_slack s \<ge> 0"
  by (simp add: ctx_slack_def)

text \<open>One turn of the first loop of \<open>ProcessRequestQueue\<close>.\<close>

lemma prepareCallblock_queued:
  assumes "env_ok E" "queued_job E t j" "rw_op j"
  shows "\<exists>cb j'. prepareCallblock (clock E t) (clock E (Suc t)) p j = Inr (cb, j') \<and> cb_data cb = p \<and>
    waited_job E (Suc (Suc t)) j' \<and> rw_op j' \<and> jtag j' = jtag j \<and> fj_canBeFreed j' = fj_canBeFreed j"
  using assms env_ok_clock [OF assms(1), of "Suc t" "Suc (Suc t)"]
  by (auto simp: prepareCallblock_def setWaitTime_def queued_job_def job_fresh_def rw_op_def waited_job_def jtag_def)

definition drain_frame :: "iox \<Rightarrow> iox \<Rightarrow> bool" where
  "drain_frame s s' \<longleftrightarrow> ix_fdQueue s' = ix_fdQueue s \<and> ix_notified s' = ix_notified s \<and>
     ix_inflight s' = ix_inflight s \<and> ix_state s' = ix_state s \<and> ix_config s' = ix_config s \<and>
     cx_ioQueueDepth (ix_ctx s') = cx_ioQueueDepth (ix_ctx s) \<and> ix_fdQueueCond s' = ix_fdQueueCond s \<and>
     (\<forall>L. tags (ix_jobs s') L = tags (ix_jobs s) L) \<and>
     (\<forall>p. map_option fj_canBeFreed (ix_jobs s' p) = map_option fj_canBeFreed (ix_jobs s p))"

lemma drain_step:
  assumes "env_ok E" "xinv E acc (map cb_data cbs) 0 s" "ix_requestQueue s = p # q"
    and "\<not> FilerCtx_isEmpty (ix_ctx s)"
  shows "\<exists>cb s'. drain E (p # q) cbs s = drain E q (cbs @ [cb]) s' \<and>
    xinv E acc (map cb_data (cbs @ [cb])) 0 s' \<and> ix_requestQueue s' = q \<and> cb_data cb = p \<and>
    drain_frame s s'"
proof -
  have x: "heap_ok E (map cb_data cbs) s" "ctx_ok (map cb_data cbs) 0 s" "sizes_ok s"
      "count_ok acc (map cb_data cbs) s"
    using assms(2) by (auto simp: xinv_def)
  obtain j where j: "ix_jobs s p = Some j" "queued_job E (ix_tick s) j" "rw_op j"
    using x(1) assms(3) by (auto simp: heap_ok_def)
  obtain cb j' where cb: "prepareCallblock (clock E (ix_tick s)) (clock E (Suc (ix_tick s))) p j = Inr (cb, j')"
      "cb_data cb = p" "waited_job E (Suc (Suc (ix_tick s))) j'" "rw_op j'" "jtag j' = jtag j"
      "fj_canBeFreed j' = fj_canBeFreed j"
    using prepareCallblock_queued [OF assms(1) j(2,3)] by blast
  have av: "cx_numAvailable (ix_ctx s) \<ge> 1" "ix_ctxCond s > 0"
      "int (length cbs) < cx_ioQueueDepth (ix_ctx s)" "ix_requestQueueSize s \<ge> 0"
    using x(2,3) assms(4) ctx_slack_nonneg [of s] by (auto simp: FilerCtx_isEmpty_def ctx_ok_def sizes_ok_def)
  let ?s' = "s\<lparr>ix_jobs := (ix_jobs s)(p \<mapsto> j'), ix_requestQueue := q, ix_tick := Suc (Suc (ix_tick s)),
      ix_ctx := (ix_ctx s)\<lparr>cx_numAvailable := cx_numAvailable (ix_ctx s) - 1\<rparr>,
      ix_ctxCond := ix_ctxCond s - 1, ix_requestQueueSize := ix_requestQueueSize s - 1\<rparr>"
  have e: "drain E (p # q) cbs s = drain E q (cbs @ [cb]) ?s'"
    using assms(4) j(1) cb(1) av
    by (simp add: get_job_def put_job_def on_ctx_def decrementNumAvailable_def pause_ctxCond_def)
  have d: "distinct (p # q @ ix_fdQueue s @ ix_inflight s @ map cb_data cbs)"
    using x(1) assms(3) by (simp add: heap_ok_def owned_def)
  have "heap_ok E (map cb_data (cbs @ [cb])) ?s'"
    using x(1) d cb assms(3)
      queued_job_mono [OF assms(1), of "ix_tick s" _ "Suc (Suc (ix_tick s))"]
      waited_job_mono [OF assms(1), of "ix_tick s" _ "Suc (Suc (ix_tick s))"]
    unfolding heap_ok_def owned_def by (auto elim!: all_jobs_mono)
  moreover have "ctx_ok (map cb_data (cbs @ [cb])) 0 ?s'" "sizes_ok ?s'"
    using x(2,3) av assms(3) by (auto simp: ctx_ok_def sizes_ok_def ctx_slack_def)
  moreover have "count_ok acc (map cb_data (cbs @ [cb])) ?s'"
    using x(4) d cb j(1) assms(3) by (auto simp: count_ok_def owned_def)
  moreover have "drain_frame s ?s'"
    using tags_same [of j' "ix_jobs s" p] cb(5,6) j(1) by (simp add: drain_frame_def)
  ultimately show ?thesis using e cb(2) by (intro exI [of _ cb] exI [of _ ?s']) (simp add: xinv_def)
qed

text \<open>
  The loop ends with the queue empty or with no context left, having moved a prefix of the queue, in
  order, into the control blocks.
\<close>

lemma drain_ok:
  assumes "env_ok E" "xinv E acc (map cb_data cbs) 0 s" "ix_requestQueue s = q"
  shows "\<exists>cbs' s'. drain E q cbs s = Inr (cbs @ cbs', s') \<and> xinv E acc (map cb_data (cbs @ cbs')) 0 s' \<and>
    map cb_data cbs' @ ix_requestQueue s' = q \<and>
    (ix_requestQueue s' = [] \<or> FilerCtx_isEmpty (ix_ctx s')) \<and> drain_frame s s'"
  using assms(2,3)
proof (induction q arbitrary: cbs s)
  case Nil
  then show ?case by (simp add: drain_frame_def)
next
  case (Cons p q)
  show ?case
  proof (cases "FilerCtx_isEmpty (ix_ctx s)")
    case True
    with Cons.prems show ?thesis by (simp add: drain_frame_def)
  next
    case False
    obtain cb s1 where s1: "drain E (p # q) cbs s = drain E q (cbs @ [cb]) s1"
        "xinv E acc (map cb_data (cbs @ [cb])) 0 s1" "ix_requestQueue s1 = q" "cb_data cb = p"
        "drain_frame s s1"
      using drain_step [OF assms(1) Cons.prems False] by auto
    from Cons.IH [OF s1(2,3)] obtain cbs' s' where
      "drain E q (cbs @ [cb]) s1 = Inr ((cbs @ [cb]) @ cbs', s')"
      "xinv E acc (map cb_data ((cbs @ [cb]) @ cbs')) 0 s'" "map cb_data cbs' @ ix_requestQueue s' = q"
      "ix_requestQueue s' = [] \<or> FilerCtx_isEmpty (ix_ctx s')" "drain_frame s1 s'"
      by blast
    with s1 show ?thesis
      by (intro exI [of _ "cb # cbs'"] exI [of _ s']) (simp add: drain_frame_def)
  qed
qed

text \<open>
  The kernel behaviour under which the retry loop is right: a call takes every control block or
  fails with a transient error.
\<close>

definition takes_all :: "(nat \<Rightarrow> iocb list \<Rightarrow> int) \<Rightarrow> bool" where
  "takes_all io_submit \<longleftrightarrow>
     (\<forall>n cbs. io_submit n cbs = int (length cbs) \<or> io_submit n cbs = - EINTR \<or> io_submit n cbs = - EAGAIN)"

lemma inflight_ok:
  assumes "xinv E acc H 0 s"
  shows "xinv E acc [] 0 (s\<lparr>ix_stats := (ix_stats s)\<lparr>ss_numSubmitted := n\<rparr>, ix_inflight := ix_inflight s @ H\<rparr>)"
  using assms by (auto simp: xinv_defs owned_def stats_ok_def ctx_slack_def)

lemma try_submit_ok:
  assumes "takes_all io_submit" "xinv E acc (map cb_data cbs) 0 s" "cbs \<noteq> []"
  shows "\<exists>rest s'. try_submit E io_submit n cbs s = Inr (rest, s') \<and> xinv E acc (map cb_data rest) 0 s' \<and>
    same_queues s (s'\<lparr>ix_inflight := ix_inflight s\<rparr>) \<and> ix_notified s' = ix_notified s \<and> ix_jobs s' = ix_jobs s \<and>
    (rest = [] \<and> ix_inflight s' = ix_inflight s @ map cb_data cbs \<or> rest = cbs \<and> ix_inflight s' = ix_inflight s)"
  using assms(2,3)
proof (induction n)
  case 0
  then show ?case by (simp add: same_queues_def)
next
  case (Suc n)
  consider (all) "io_submit n cbs = int (length cbs)"
    | (again) "io_submit n cbs = - EINTR \<or> io_submit n cbs = - EAGAIN"
    using assms(1) unfolding takes_all_def by blast
  then show ?case
  proof cases
    case all
    with Suc.prems show ?thesis
      using inflight_ok [OF Suc.prems(1)] by (simp add: Let_def same_queues_def)
  next
    case again
    then have "try_submit E io_submit (Suc n) cbs s = try_submit E io_submit n cbs s"
      using Suc.prems by (auto simp: Let_def)
    then show ?thesis using Suc.IH [OF Suc.prems] by simp
  qed
qed


text \<open>
  The whole operation: it takes a prefix \<open>moved\<close> of the request queue, in order, and either all of it
  is in flight, or after five transient failures every job of it is reported as \<open>EINVAL\<close>.
\<close>

definition prq_result :: "nat list \<Rightarrow> int \<Rightarrow> iox \<Rightarrow> iox \<Rightarrow> bool" where
  "prq_result moved n s s' \<longleftrightarrow>
     ix_requestQueue s = moved @ ix_requestQueue s' \<and> ix_fdQueue s' = ix_fdQueue s \<and>
     ix_state s' = ix_state s \<and> ix_config s' = ix_config s \<and>
     (n = int (length moved) \<and> ix_inflight s' = ix_inflight s @ moved \<and> ix_notified s' = ix_notified s \<and>
        (ix_requestQueue s' = [] \<or> FilerCtx_isEmpty (ix_ctx s')) \<or>
      n = 0 \<and> moved \<noteq> [] \<and> ix_inflight s' = ix_inflight s \<and> notifies moved (map (\<lambda>_. - EINVAL) moved) s s')"

lemma wakeup_space_ok:
  "xinv E acc H k s \<Longrightarrow> xinv E acc H k (wakeup_requestQueueHasSpace s)"
  "xinv E acc H k s \<Longrightarrow> xinv E acc H k (wakeup_fdQueueHasSpace s)"
  by (auto simp: wakeup_requestQueueHasSpace_def wakeup_fdQueueHasSpace_def xinv_defs owned_def ctx_slack_def)

lemma prq_tail:
  assumes "env_ok E" "xinv E acc (map cb_data rest) 0 s"
  shows "\<exists>s'. (if rest = [] then Inr s
              else
                rbind (rfold (\<lambda>cb. finish_job E (- EINVAL) (cb_data cb)) rest s) (\<lambda>s3.
                rbind (on_ctx (incrementNumAvailable (int (length rest))) s3) (\<lambda>s4.
                Inr (wakeup_ctxCond (length rest) s4)))) = Inr s' \<and> xinv E acc [] 0 s' \<and>
    same_queues s s' \<and> notifies (map cb_data rest) (map (\<lambda>_. - EINVAL) rest) s s' \<and> (rest = [] \<longrightarrow> s' = s)"
proof (cases "rest = []")
  case True
  with assms show ?thesis by simp
next
  case False
  obtain s3 where s3: "rfold (\<lambda>cb. finish_job E (- EINVAL) (cb_data cb)) rest s = Inr s3"
      "xinv E acc [] (0 + length rest) s3" "same_queues s s3"
      "notifies (map cb_data rest) (map (\<lambda>_. - EINVAL) rest) s s3"
    using finish_all [OF assms(1), of acc cb_data rest "[]" 0 s "\<lambda>_. - EINVAL"] assms(2) by auto
  obtain s4 where s4: "on_ctx (incrementNumAvailable (int (length rest))) s3 = Inr s4"
      "xinv E acc [] 0 (wakeup_ctxCond (length rest) s4)" "same_queues s3 (wakeup_ctxCond (length rest) s4)"
      "ix_notified (wakeup_ctxCond (length rest) s4) = ix_notified s3"
    using credit_ok [OF s3(2)] by blast
  from s3 s4 False show ?thesis
    by (auto simp: notifies_def intro: same_queues_trans)
qed

lemma ProcessRequestQueue_ok:
  assumes "env_ok E" "takes_all io_submit" "xinv E acc [] 0 s" "ix_ctxCond s > 0"
  shows "\<exists>n s' moved. ProcessRequestQueue E io_submit s = Inr (n, s') \<and> xinv E acc [] 0 s' \<and> prq_result moved n s s'"
proof -
  have p: "pause_ctxCond s = Inr (s\<lparr>ix_ctxCond := ix_ctxCond s - 1\<rparr>)"
      "wakeup_ctxCond 1 (s\<lparr>ix_ctxCond := ix_ctxCond s - 1\<rparr>) = s"
    using assms(4) by (simp_all add: pause_ctxCond_def wakeup_ctxCond_def)
  obtain cbs s1 where s1: "drain E (ix_requestQueue s) [] s = Inr (cbs, s1)" "xinv E acc (map cb_data cbs) 0 s1"
      "map cb_data cbs @ ix_requestQueue s1 = ix_requestQueue s" "drain_frame s s1"
      "ix_requestQueue s1 = [] \<or> FilerCtx_isEmpty (ix_ctx s1)"
    using drain_ok [OF assms(1), of acc "[]" s] assms(3) by auto
  show ?thesis
  proof (cases "cbs = []")
    case True
    with p s1 show ?thesis
      by (intro exI [of _ 0] exI [of _ s1] exI [of _ "[]"])
        (simp add: ProcessRequestQueue_def prq_result_def drain_frame_def)
  next
    case False
    obtain rest s2 where s2: "try_submit E io_submit 5 cbs s1 = Inr (rest, s2)" "xinv E acc (map cb_data rest) 0 s2"
        "same_queues s1 (s2\<lparr>ix_inflight := ix_inflight s1\<rparr>)" "ix_notified s2 = ix_notified s1" "ix_jobs s2 = ix_jobs s1"
        "rest = [] \<and> ix_inflight s2 = ix_inflight s1 @ map cb_data cbs \<or> rest = cbs \<and> ix_inflight s2 = ix_inflight s1"
      using try_submit_ok [OF assms(2) s1(2) False] by blast
    have empty: "FilerCtx_isEmpty (ix_ctx s2) \<longleftrightarrow> FilerCtx_isEmpty (ix_ctx s1)" if "rest = []"
      using that s1(2) s2(2,3,6) False unfolding FilerCtx_isEmpty_def
      by (auto simp: xinv_def ctx_ok_def same_queues_def)
    obtain s5 where s5: "(if rest = [] then Inr s2
              else
                rbind (rfold (\<lambda>cb. finish_job E (- EINVAL) (cb_data cb)) rest s2) (\<lambda>s3.
                rbind (on_ctx (incrementNumAvailable (int (length rest))) s3) (\<lambda>s4.
                Inr (wakeup_ctxCond (length rest) s4)))) = Inr s5" "xinv E acc [] 0 s5" "same_queues s2 s5"
        "notifies (map cb_data rest) (map (\<lambda>_. - EINVAL) rest) s2 s5" "rest = [] \<longrightarrow> s5 = s2"
      using prq_tail [OF assms(1) s2(2)] by blast
    let ?s6 = "if ix_requestQueueSize s5 < sint (cf_maxRequestQueueSize (ix_config s5))
        then wakeup_requestQueueHasSpace s5 else s5"
    have "ProcessRequestQueue E io_submit s = Inr (int (length cbs) - int (length rest), ?s6)"
      unfolding ProcessRequestQueue_def p(1) rbind_simps
      using p(2) s1(1) s2(1) s5(1) False by simp
    moreover have "xinv E acc [] 0 ?s6" using s5(2) wakeup_space_ok(1) by simp
    moreover have "prq_result (map cb_data cbs) (int (length cbs) - int (length rest)) s s5"
      using s1(3,4,5) s2(3-6) s5(3-5) empty
      by (auto simp: prq_result_def drain_frame_def same_queues_def notifies_def comp_def)
    then have "prq_result (map cb_data cbs) (int (length cbs) - int (length rest)) s ?s6"
      by (auto simp: prq_result_def wakeup_requestQueueHasSpace_def notifies_def)
    ultimately show ?thesis by blast
  qed
qed

section \<open>Completion callbacks\<close>

lemma mset_fold_remove1:
  "distinct ps \<Longrightarrow> set ps \<subseteq> set xs \<Longrightarrow> mset (fold remove1 ps xs) + mset ps = mset xs"
proof (induction ps arbitrary: xs)
  case (Cons p ps)
  then have "set ps \<subseteq> set (remove1 p xs)"
    by (metis in_set_remove1 insert_subset list.simps(15) distinct.simps(2) subset_iff)
  with Cons.IH [of "remove1 p xs"] Cons.prems show ?case by simp
qed simp

lemma mset_remove1_held:
  assumes "distinct ps" "set ps \<subseteq> set xs"
  shows "set xs = set (fold remove1 ps xs) \<union> set ps"
    and "length xs = length (fold remove1 ps xs) + length ps"
  using mset_fold_remove1 [OF assms]
  by (metis set_mset_mset set_mset_union, metis size_mset size_union)

text \<open>The events \<open>io_getevents\<close> returns move jobs from the kernel to the completion thread.\<close>

lemma events_held:
  assumes "xinv E acc [] 0 s" "distinct ps" "set ps \<subseteq> set (ix_inflight s)"
  shows "xinv E acc ps 0 (s\<lparr>ix_inflight := fold remove1 ps (ix_inflight s)\<rparr>)"
proof -
  let ?r = "fold remove1 ps (ix_inflight s)"
  have m: "mset ?r + mset ps = mset (ix_inflight s)" using assms(2,3) by (rule mset_fold_remove1)
  then have "mset (ix_requestQueue s @ ix_fdQueue s @ ?r @ ps) = mset (owned [] s)"
    by (simp add: owned_def)
  then have "distinct (ix_requestQueue s @ ix_fdQueue s @ ?r @ ps)"
    using assms(1) mset_eq_imp_distinct_iff unfolding xinv_def heap_ok_def by blast
  moreover have "all_jobs P m (?r @ ps) \<longleftrightarrow> all_jobs P m (ix_inflight s)" for P m
    using mset_remove1_held(1) [OF assms(2,3)] unfolding all_jobs_def by auto
  moreover have "mset (tags (ix_jobs s) ?r) + mset (tags (ix_jobs s) ps) = mset (tags (ix_jobs s) (ix_inflight s))"
    unfolding tags_def mset_map m [symmetric] by simp
  ultimately show ?thesis
    using assms(1) mset_remove1_held(2) [OF assms(2,3)]
    by (auto simp: xinv_defs owned_def ctx_slack_def simp del: all_jobs_simps(3))
qed

lemma ProcessCallback_ok:
  assumes "env_ok E" "xinv E acc (p # H) 0 s"
  shows "\<exists>j s' s1. ix_jobs s p = Some j \<and> ProcessCallback E (p, res) s = Inr s' \<and> xinv E acc H 0 s' \<and>
    same_queues s s' \<and> job_finished (callback_retcode j res) p j s s1 \<and> ix_notified s' = ix_notified s1 \<and>
    ix_jobs s' = ix_jobs s1"
proof -
  from assms(2) obtain j where j: "ix_jobs s p = Some j"
    by (auto simp: xinv_def heap_ok_def)
  obtain s1 where s1: "finish_job E (callback_retcode j res) p s = Inr s1" "xinv E acc H (0 + 1) s1"
      "job_finished (callback_retcode j res) p j s s1"
    using finish_held [OF assms, of "callback_retcode j res"] j by auto
  obtain s2 where s2: "on_ctx (incrementNumAvailable (int 1)) s1 = Inr s2" "xinv E acc H 0 (wakeup_ctxCond 1 s2)"
      "same_queues s1 (wakeup_ctxCond 1 s2)" "ix_notified (wakeup_ctxCond 1 s2) = ix_notified s1"
      "ix_jobs (wakeup_ctxCond 1 s2) = ix_jobs s1"
    using credit_ok [OF s1(2)] by blast
  have "ProcessCallback E (p, res) s = Inr (wakeup_ctxCond 1 s2)"
    using j s1(1) s2(1) by (simp add: ProcessCallback_def get_job_def)
  with j s1 s2 same_queues_trans [OF job_finished_same_queues [OF s1(3)] s2(3)] show ?thesis by blast
qed

lemma ProcessCallbacks_ok:
  assumes "env_ok E" "xinv E acc (map fst evs @ H) 0 s"
  shows "\<exists>s'. ProcessCallbacks E evs s = Inr s' \<and> xinv E acc H 0 s' \<and> same_queues s s' \<and>
    notifies (map fst evs) (map (\<lambda>ev. callback_retcode (the (ix_jobs s (fst ev))) (snd ev)) evs) s s'"
  using assms(2)
proof (induction evs arbitrary: s)
  case Nil
  then show ?case by (simp add: ProcessCallbacks_def)
next
  case (Cons ev evs)
  obtain p res where ev: "ev = (p, res)" by fastforce
  obtain j s1 s2 where s1: "ix_jobs s p = Some j" "ProcessCallback E ev s = Inr s2"
      "xinv E acc (map fst evs @ H) 0 s2" "same_queues s s2" "job_finished (callback_retcode j res) p j s s1"
      "ix_notified s2 = ix_notified s1" "ix_jobs s2 = ix_jobs s1"
    using ProcessCallback_ok [OF assms(1), of acc p "map fst evs @ H" s res] Cons.prems ev by auto
  have np: "p \<notin> set (map fst evs)"
    using Cons.prems ev by (auto simp: xinv_def heap_ok_def owned_def)
  have jobs: "ix_jobs s2 q = ix_jobs s q" if "q \<noteq> p" for q
    using s1(5,7) that by (auto simp: job_finished_def)
  have rets: "map (\<lambda>ev. callback_retcode (the (ix_jobs s2 (fst ev))) (snd ev)) evs =
      map (\<lambda>ev. callback_retcode (the (ix_jobs s (fst ev))) (snd ev)) evs"
    using np jobs by (intro map_cong) force+
  from Cons.IH [OF s1(3)] obtain s' where s': "ProcessCallbacks E evs s2 = Inr s'" "xinv E acc H 0 s'"
      "same_queues s2 s'"
      "notifies (map fst evs) (map (\<lambda>ev. callback_retcode (the (ix_jobs s (fst ev))) (snd ev)) evs) s2 s'"
    unfolding rets by blast
  have "notifies (map fst evs) (map (\<lambda>ev. callback_retcode (the (ix_jobs s (fst ev))) (snd ev)) evs) s1 s'"
    using s'(4) s1(6,7) by (simp add: notifies_def)
  from notifies_Cons [OF s1(5,1) this np] s'(1-3) s1(1,2,4) ev show ?case
    by (auto simp: ProcessCallbacks_def intro: same_queues_trans)
qed

text \<open>An \<open>EvCtx\<close> event of the completion thread, on events for requests in flight.\<close>

lemma EvCtx_ok:
  assumes "env_ok E" "xinv E acc [] 0 s" "getevents n [] chunks = Some evs" "length evs = n" "n > 0"
    and "distinct (map fst evs)" "set (map fst evs) \<subseteq> set (ix_inflight s)"
  shows "\<exists>s'. completion_event E io_submit (EvCtx n chunks) s = Inr s' \<and> xinv E acc [] 0 s' \<and>
    ix_inflight s' = fold remove1 (map fst evs) (ix_inflight s) \<and> ix_state s' = ix_state s \<and>
    ix_requestQueue s' = ix_requestQueue s \<and> ix_fdQueue s' = ix_fdQueue s \<and> ix_config s' = ix_config s \<and>
    cx_ioQueueDepth (ix_ctx s') = cx_ioQueueDepth (ix_ctx s) \<and>
    notifies (map fst evs) (map (\<lambda>ev. callback_retcode (the (ix_jobs s (fst ev))) (snd ev)) evs) s s'"
proof -
  let ?s1 = "s\<lparr>ix_inflight := fold remove1 (map fst evs) (ix_inflight s)\<rparr>"
  have h: "xinv E acc (map fst evs) 0 ?s1" using events_held [OF assms(2,6,7)] .
  have "n \<le> length (ix_inflight s)"
    using mset_remove1_held(2) [OF assms(6,7)] assms(4) by simp
  then have "int n \<le> cx_ioQueueDepth (ix_ctx s)"
    using assms(2) by (simp add: xinv_def ctx_ok_def)
  moreover obtain s' where "ProcessCallbacks E evs ?s1 = Inr s'" "xinv E acc [] 0 s'" "same_queues ?s1 s'"
      "notifies (map fst evs) (map (\<lambda>ev. callback_retcode (the (ix_jobs ?s1 (fst ev))) (snd ev)) evs) ?s1 s'"
    using ProcessCallbacks_ok [OF assms(1), of acc evs "[]" ?s1] h by auto
  ultimately show ?thesis using assms(3,5)
    by (simp add: completion_event_def same_queues_def notifies_def)
qed

section \<open>The fd queue\<close>

definition fd_retcode :: "int \<Rightarrow> int \<times> int \<Rightarrow> FilerJob \<Rightarrow> int" where
  "fd_retcode unlink_err pw j =
     (if fj_op j = Delete then - unlink_err
      else if (word_of_int (fst pw) :: 64 word) \<noteq> fj_userSize j then - snd pw else 0)"

lemma fd_job_run_ok:
  assumes "env_ok E" "ix_jobs s p = Some j" "queued_job E (ix_tick s) j" "fd_op j" "heap_ok E [] s"
    and "p \<notin> set (owned [] s)" "stats_ok n (ix_stats s)" "Suc n < 2 ^ 32"
  shows "\<exists>s1 s' j'. fd_job_run E unlink_err pw p s = Inr s' \<and> heap_ok E [] s' \<and> jtag j' = jtag j \<and>
    job_finished (fd_retcode unlink_err pw j) p j' s1 s' \<and> stats_ok (Suc n) (ix_stats s') \<and>
    s1 = put_job p j' (s\<lparr>ix_tick := Suc (Suc (ix_tick s)),
           ix_stats := (ix_stats s)\<lparr>ss_numSubmitted := ss_numSubmitted (ix_stats s) + 1\<rparr>\<rparr>)"
proof -
  let ?j1 = "j\<lparr>fj_waitTime := clock E (ix_tick s) - fj_timer j, fj_timer := clock E (Suc (ix_tick s))\<rparr>"
  let ?s1 = "put_job p ?j1 (s\<lparr>ix_tick := Suc (Suc (ix_tick s)),
      ix_stats := (ix_stats s)\<lparr>ss_numSubmitted := ss_numSubmitted (ix_stats s) + 1\<rparr>\<rparr>)"
  have w: "setWaitTime (clock E (ix_tick s)) (clock E (Suc (ix_tick s))) j = Inr ?j1"
    using assms(3) setWaitTime_fresh by (simp add: queued_job_def)
  have j1: "ix_jobs ?s1 p = Some ?j1" "waited_job E (ix_tick ?s1) ?j1" "rw_op ?j1 \<or> fd_op ?j1"
    using assms(3,4) env_ok_clock [OF assms(1), of "Suc (ix_tick s)" "Suc (Suc (ix_tick s))"]
    by (auto simp: put_job_def queued_job_def waited_job_def job_fresh_def fd_op_def)
  have "stats_ok n (ix_stats ?s1)" using assms(7) by (simp add: put_job_def stats_ok_def)
  from finish_job_ok [OF assms(1) j1 this assms(8)] obtain s' where
    s': "finish_job E (fd_retcode unlink_err pw j) p ?s1 = Inr s'"
      "job_finished (fd_retcode unlink_err pw j) p ?j1 ?s1 s'" "stats_ok (Suc n) (ix_stats s')" by blast
  have "heap_ok E [] ?s1"
    using assms(5,6) queued_job_mono [OF assms(1), of "ix_tick s" _ "Suc (Suc (ix_tick s))"]
      waited_job_mono [OF assms(1), of "ix_tick s" _ "Suc (Suc (ix_tick s))"]
    unfolding heap_ok_def owned_def put_job_def by (auto elim!: all_jobs_mono)
  moreover have "p \<notin> set (owned [] ?s1)" using assms(6) by (simp add: owned_def put_job_def)
  ultimately have "heap_ok E [] s'" using heap_ok_finish [OF assms(1) _ _ s'(2)] by blast
  moreover have "fd_job_run E unlink_err pw p s = Inr s'"
    using assms(2,4) w s'(1) by (auto simp: fd_job_run_def get_job_def Let_def fd_op_def fd_retcode_def)
  ultimately show ?thesis using s'(2,3)
    by (intro exI [of _ ?s1] exI [of _ s'] exI [of _ ?j1]) (simp add: jtag_def)
qed

lemma ProcessFdQueue_body_ok:
  assumes "env_ok E" "xinv E acc [] 0 s" "ix_fdQueue s = p # q"
  shows "\<exists>s' j. ProcessFdQueue_body E unlink_err pw s = Inr (True, s') \<and> xinv E acc [] 0 s' \<and>
    ix_fdQueue s' = q \<and> ix_requestQueue s' = ix_requestQueue s \<and> ix_inflight s' = ix_inflight s \<and>
    ix_state s' = ix_state s \<and> ix_config s' = ix_config s \<and>
    ix_jobs s p = Some j \<and> notifies [p] [fd_retcode unlink_err pw j] s s'"
proof -
  have x: "heap_ok E [] s" "ctx_ok [] 0 s" "sizes_ok s" "count_ok acc [] s"
    using assms(2) by (auto simp: xinv_def)
  obtain j where j: "ix_jobs s p = Some j" "queued_job E (ix_tick s) j" "fd_op j"
    using x(1) assms(3) by (auto simp: heap_ok_def)
  have c: "ix_fdQueueCond s > 0" using x(3) assms(3) by (simp add: sizes_ok_def)
  let ?s0 = "s\<lparr>ix_fdQueueCond := ix_fdQueueCond s - 1, ix_fdQueue := q\<rparr>"
  have h0: "heap_ok E [] ?s0" "p \<notin> set (owned [] ?s0)"
    using x(1) assms(3) by (auto simp: heap_ok_def owned_def)
  have len: "Suc (length (ix_notified s)) < 2 ^ 32"
    using count_ok_owned [OF x(4)] x(4) assms(3) by (simp add: count_ok_def owned_def)
  have j0: "ix_jobs ?s0 p = Some j" "queued_job E (ix_tick ?s0) j" using j by simp_all
  have st0: "stats_ok (length (ix_notified s)) (ix_stats ?s0)" using x(4) by (simp add: count_ok_def)
  obtain s1 s2 j' where s2: "fd_job_run E unlink_err pw p ?s0 = Inr s2" "heap_ok E [] s2" "jtag j' = jtag j"
      "job_finished (fd_retcode unlink_err pw j) p j' s1 s2" "stats_ok (Suc (length (ix_notified s))) (ix_stats s2)"
      "s1 = put_job p j' (?s0\<lparr>ix_tick := Suc (Suc (ix_tick ?s0)),
           ix_stats := (ix_stats ?s0)\<lparr>ss_numSubmitted := ss_numSubmitted (ix_stats ?s0) + 1\<rparr>\<rparr>)"
    using fd_job_run_ok [OF assms(1) j0 j(3) h0 st0 len, of unlink_err pw] by blast
  let ?s3 = "s2\<lparr>ix_fdQueueSize := ix_fdQueueSize s2 - 1\<rparr>"
  have tg: "fj_completionFd j' = fj_completionFd j" "fj_completionId j' = fj_completionId j"
    using s2(3) by (simp_all add: jtag_def)
  have d: "distinct (ix_requestQueue s @ p # q @ ix_inflight s)"
    using x(1) assms(3) by (simp add: heap_ok_def owned_def)
  have "heap_ok E [] ?s3" using s2(2) by (simp add: heap_ok_def owned_def)
  moreover have "ctx_ok [] 0 ?s3" "sizes_ok ?s3"
    using x(2,3) s2(4,6) assms(3) c by (auto simp: ctx_ok_def sizes_ok_def ctx_slack_def job_finished_def put_job_def)
  moreover have "count_ok acc [] ?s3"
    using x(4) s2(4,5,6) assms(3) d j(1) tg
    by (auto simp: count_ok_def owned_def job_finished_def put_job_def jtag_def ntag_def)
  ultimately have inv: "xinv E acc [] 0 ?s3" by (simp add: xinv_def)
  have n: "notifies [p] [fd_retcode unlink_err pw j] s ?s3"
    using s2(4,6) tg j(1) by (auto simp: notifies_def job_finished_def put_job_def ntag_def jtag_def)
  have f: "ix_fdQueue ?s3 = q" "ix_requestQueue ?s3 = ix_requestQueue s" "ix_inflight ?s3 = ix_inflight s"
      "ix_state ?s3 = ix_state s" "ix_config ?s3 = ix_config s"
    using s2(4,6) by (auto simp: job_finished_def put_job_def)
  let ?s4 = "if ix_fdQueueSize ?s3 \<ge> sint (cf_maxRequestQueueSize (ix_config ?s3)) then wakeup_fdQueueHasSpace ?s3 else ?s3"
  have "ProcessFdQueue_body E unlink_err pw s = Inr (True, ?s4)"
    using assms(3) c s2(1) by (simp add: ProcessFdQueue_body_def Let_def)
  then show ?thesis
    using inv wakeup_space_ok(2) [OF inv] n f j(1)
    by (intro exI [of _ ?s4] exI [of _ j]) (auto simp: wakeup_fdQueueHasSpace_def notifies_def)
qed

end
