(* ===== verification/IO_Executor_Frame.thy ===== *)
theory IO_Executor_Frame
  imports IO_Executor_Queue "HOL-Library.Sublist"
begin

text \<open>Frame conditions: which jobs and which waiting threads an operation of the executor touches.\<close>

section \<open>What an operation leaves alone\<close>

text \<open>
  An operation touches the jobs of a set only; waiting threads are at most moved from waiting to
  woken, the submission threshold and the queue depth are kept, and notifications are only added.
\<close>

definition touches :: "nat set \<Rightarrow> iox \<Rightarrow> iox \<Rightarrow> bool" where
  "touches P s s' \<longleftrightarrow> (\<forall>p. p \<notin> P \<longrightarrow> ix_jobs s' p = ix_jobs s p) \<and>
     ix_fdWoken s' @ ix_fdWaiters s' = ix_fdWoken s @ ix_fdWaiters s \<and>
     ix_requestWoken s' @ ix_requestWaiters s' = ix_requestWoken s @ ix_requestWaiters s \<and>
     ix_minSubmitSize s' = ix_minSubmitSize s \<and> cx_ioQueueDepth (ix_ctx s') = cx_ioQueueDepth (ix_ctx s) \<and>
     prefix (ix_notified s) (ix_notified s')"

lemma touches_refl [simp]: "touches P s s"
  by (simp add: touches_def)

lemma touches_trans: "touches P s s1 \<Longrightarrow> touches P s1 s2 \<Longrightarrow> touches P s s2"
  unfolding touches_def using prefix_order.trans by simp blast

lemma touches_mono: "touches P s s' \<Longrightarrow> P \<subseteq> Q \<Longrightarrow> touches Q s s'"
  by (auto simp: touches_def)

lemma touches_put_job: "p \<in> P \<Longrightarrow> touches P s (put_job p j s)"
  by (auto simp: touches_def put_job_def)

lemma touches_wakeups [simp]:
  "touches P s (wakeup_requestQueueHasSpace s)" "touches P s (wakeup_fdQueueHasSpace s)" "touches P s (wakeup_ctxCond n s)"
  by (auto simp: touches_def wakeup_requestQueueHasSpace_def wakeup_fdQueueHasSpace_def wakeup_ctxCond_def)

lemma touches_on_ctx: "on_ctx (incrementNumAvailable n) s = Inr s' \<Longrightarrow> touches P s s'"
  by (auto simp: on_ctx_def incrementNumAvailable_def rbind_eq_Inr touches_def)

lemma touches_on_ctx_dec: "on_ctx (decrementNumAvailable n) s = Inr s' \<Longrightarrow> touches P s s'"
  by (auto simp: on_ctx_def decrementNumAvailable_def rbind_eq_Inr touches_def)

lemma touches_pause_ctxCond: "pause_ctxCond s = Inr s' \<Longrightarrow> touches P s s'"
  by (auto simp: pause_ctxCond_def rbind_eq_Inr touches_def)

lemma touches_post:
  assumes "doPostProcessingOfJob E p s = Inr s'" "p \<in> P"
  shows "touches P s s'"
proof -
  obtain job nt job1 ss where "s' = s\<lparr>ix_stats := ss, ix_tick := Suc (ix_tick s),
            ix_notified := ix_notified s @ [nt],
            ix_closed := (if fj_closeFileHandle job1 then ix_closed s @ [fj_fd job1] else ix_closed s),
            ix_jobs := (if fj_canBeFreed job1 then (ix_jobs s)(p := None) else (ix_jobs s)(p \<mapsto> job1))\<rparr>"
    using assms(1) unfolding doPostProcessingOfJob_def rbind_eq_Inr case_prod_unfold by blast
  with assms(2) show ?thesis by (simp add: touches_def)
qed

lemma touches_finish_job:
  assumes "finish_job E r p s = Inr s'" "p \<in> P"
  shows "touches P s s'"
proof -
  obtain j where "doPostProcessingOfJob E p (put_job p j s) = Inr s'"
    using assms(1) unfolding finish_job_def rbind_eq_Inr by blast
  from touches_trans [OF touches_put_job [OF assms(2)] touches_post [OF this assms(2)]] show ?thesis .
qed

lemma touches_rfold:
  assumes "\<And>x s s'. x \<in> set xs \<Longrightarrow> f x s = Inr s' \<Longrightarrow> touches P s s'"
  shows "rfold f xs s = Inr s' \<Longrightarrow> touches P s s'"
  using assms
proof (induction xs arbitrary: s)
  case (Cons x xs)
  from Cons.prems(1) obtain s1 where "f x s = Inr s1" "rfold f xs s1 = Inr s'"
    by (auto simp: rbind_eq_Inr)
  note s1 = this
  have "touches P s1 s'" by (rule Cons.IH [OF s1(2)]) (rule Cons.prems(2), auto)
  moreover have "touches P s s1" by (rule Cons.prems(2) [OF _ s1(1)]) simp
  ultimately show ?case using touches_trans [of P s s1 s'] by simp
qed simp

lemma touches_drain:
  "drain E q cbs s = Inr (cbs', s') \<Longrightarrow> set q \<union> cb_data ` set cbs \<subseteq> P \<Longrightarrow>
    touches P s s' \<and> cb_data ` set cbs' \<subseteq> P"
proof (induction q arbitrary: cbs s)
  case (Cons p q)
  show ?case
  proof (cases "FilerCtx_isEmpty (ix_ctx s)")
    case True
    with Cons.prems show ?thesis by auto
  next
    case False
    with Cons.prems(1) obtain job cb job1 s1 s2 where
      st: "prepareCallblock (clock E (ix_tick s)) (clock E (Suc (ix_tick s))) p job = Inr (cb, job1)"
        "on_ctx (decrementNumAvailable 1)
          ((put_job p job1 s)\<lparr>ix_requestQueue := q, ix_tick := Suc (Suc (ix_tick s))\<rparr>) = Inr s1"
        "pause_ctxCond s1 = Inr s2"
        "drain E q (cbs @ [cb]) (s2\<lparr>ix_requestQueueSize := ix_requestQueueSize s2 - 1\<rparr>) = Inr (cbs', s')"
      by (auto simp: rbind_eq_Inr split: if_splits)
    have "cb_data cb = p"
      using st(1) by (auto simp: prepareCallblock_def rbind_eq_Inr split: if_splits)
    then have "touches P (s2\<lparr>ix_requestQueueSize := ix_requestQueueSize s2 - 1\<rparr>) s' \<and> cb_data ` set cbs' \<subseteq> P"
      using Cons.IH [OF st(4)] Cons.prems(2) by auto
    moreover have "touches P s (s2\<lparr>ix_requestQueueSize := ix_requestQueueSize s2 - 1\<rparr>)"
      using touches_on_ctx_dec [OF st(2), of P] touches_pause_ctxCond [OF st(3), of P] Cons.prems(2)
      by (auto simp: touches_def put_job_def)
    ultimately show ?thesis using touches_trans by blast
  qed
qed auto

lemma touches_finish_list:
  "rfold (\<lambda>cb. finish_job E r (cb_data cb)) cbs s = Inr s' \<Longrightarrow> cb_data ` set cbs \<subseteq> P \<Longrightarrow> touches P s s'"
  by (erule touches_rfold [rotated]) (auto intro: touches_finish_job)

lemma touches_try_submit:
  "try_submit E io_submit n cbs s = Inr (rest, s') \<Longrightarrow> cb_data ` set cbs \<subseteq> P \<Longrightarrow>
    touches P s s' \<and> cb_data ` set rest \<subseteq> P"
proof (induction n arbitrary: cbs s)
  case (Suc n)
  let ?r = "io_submit n cbs"
  let ?s1 = "s\<lparr>ix_stats := (ix_stats s)\<lparr>ss_numSubmitted := ss_numSubmitted (ix_stats s) + word_of_int ?r\<rparr>,
                  ix_inflight := ix_inflight s @ map cb_data (take (nat ?r) cbs)\<rparr>"
  have t1: "touches P s ?s1" by (simp add: touches_def)
  consider (again) "?r = - EINTR \<or> ?r = - EAGAIN"
    | (hard) "?r < 0" "?r \<noteq> - EINTR" "?r \<noteq> - EAGAIN" | (part) "0 \<le> ?r" "?r < int (length cbs)"
    | (all) "?r \<ge> int (length cbs)" by fastforce
  then show ?case
  proof cases
    case again
    then have "try_submit E io_submit n cbs s = Inr (rest, s')"
      using Suc.prems(1) by (auto simp: Let_def rbind_eq_Inr)
    then show ?thesis using Suc.IH Suc.prems(2) by blast
  next
    case hard
    then obtain s1 s2 where s: "rfold (\<lambda>cb. finish_job E ?r (cb_data cb)) cbs s = Inr s1"
        "on_ctx (incrementNumAvailable (int (length cbs))) s1 = Inr s2" "s' = wakeup_ctxCond (length cbs) s2" "rest = cbs"
      using Suc.prems(1) by (auto simp: Let_def rbind_eq_Inr)
    have "touches P s s'"
      unfolding s(3) by (rule touches_trans [OF touches_trans [OF touches_finish_list [OF s(1) Suc.prems(2)]
          touches_on_ctx [OF s(2)]] touches_wakeups(3)])
    then show ?thesis using s(4) Suc.prems(2) by simp
  next
    case part
    then obtain s2 where s2: "on_ctx (incrementNumAvailable ?r) ?s1 = Inr s2"
        "try_submit E io_submit n (drop (nat ?r) cbs) (wakeup_ctxCond (nat ?r) s2) = Inr (rest, s')"
      using Suc.prems(1) by (auto simp: Let_def rbind_eq_Inr)
    have "cb_data ` set (drop (nat ?r) cbs) \<subseteq> P"
      using Suc.prems(2) set_drop_subset by fastforce
    note ih = Suc.IH [OF s2(2) this]
    have "touches P s (wakeup_ctxCond (nat ?r) s2)"
      by (rule touches_trans [OF touches_trans [OF t1 touches_on_ctx [OF s2(1)]] touches_wakeups(3)])
    with ih show ?thesis using touches_trans [of P s _ s'] by simp
  next
    case all
    then show ?thesis using Suc.prems t1
      by (cases "cbs = []") (auto simp: Let_def rbind_eq_Inr)
  qed
qed auto

lemma touches_prq_tail:
  assumes "(if rest = [] then Inr s2
            else
              rbind (rfold (\<lambda>cb. finish_job E (- EINVAL) (cb_data cb)) rest s2) (\<lambda>s3.
              rbind (on_ctx (incrementNumAvailable (int (length rest))) s3) (\<lambda>s4.
              Inr (wakeup_ctxCond (length rest) s4)))) = Inr s5" "cb_data ` set rest \<subseteq> P"
  shows "touches P s2 s5"
proof (cases "rest = []")
  case True
  with assms(1) show ?thesis by simp
next
  case False
  with assms(1) obtain s3 s4 where s: "rfold (\<lambda>cb. finish_job E (- EINVAL) (cb_data cb)) rest s2 = Inr s3"
      "on_ctx (incrementNumAvailable (int (length rest))) s3 = Inr s4" "s5 = wakeup_ctxCond (length rest) s4"
    by (auto simp: rbind_eq_Inr)
  show ?thesis
    unfolding s(3) by (rule touches_trans [OF touches_trans [OF touches_finish_list [OF s(1) assms(2)]
        touches_on_ctx [OF s(2)]] touches_wakeups(3)])
qed

lemma touches_ProcessRequestQueue:
  assumes "ProcessRequestQueue E io_submit s = Inr (n, s')"
  shows "touches (set (ix_requestQueue s)) s s'"
proof -
  let ?P = "set (ix_requestQueue s)"
  from assms obtain s0 cbs s1 where s0: "pause_ctxCond s = Inr s0"
      "drain E (ix_requestQueue s0) [] (wakeup_ctxCond 1 s0) = Inr (cbs, s1)"
    unfolding ProcessRequestQueue_def by (auto simp: rbind_eq_Inr)
  have "ix_requestQueue s0 = ix_requestQueue s"
    using s0(1) by (auto simp: pause_ctxCond_def rbind_eq_Inr)
  with touches_drain [OF s0(2), of ?P] have d: "touches ?P (wakeup_ctxCond 1 s0) s1" "cb_data ` set cbs \<subseteq> ?P"
    by auto
  have a: "touches ?P s s1"
    by (rule touches_trans [OF touches_trans [OF touches_pause_ctxCond [OF s0(1)] touches_wakeups(3)] d(1)])
  show ?thesis
  proof (cases "cbs = []")
    case True
    with assms s0 a show ?thesis by (simp add: ProcessRequestQueue_def)
  next
    case False
    with assms s0 obtain rest s2 s5 where t: "try_submit E io_submit 5 cbs s1 = Inr (rest, s2)"
      and tl: "(if rest = [] then Inr s2
            else
              rbind (rfold (\<lambda>cb. finish_job E (- EINVAL) (cb_data cb)) rest s2) (\<lambda>s3.
              rbind (on_ctx (incrementNumAvailable (int (length rest))) s3) (\<lambda>s4.
              Inr (wakeup_ctxCond (length rest) s4)))) = Inr s5"
      and w: "(if ix_requestQueueSize s5 < sint (cf_maxRequestQueueSize (ix_config s5))
        then wakeup_requestQueueHasSpace s5 else s5) = s'"
      unfolding ProcessRequestQueue_def by (simp add: rbind_eq_Inr del: One_nat_def) blast
    from touches_try_submit [OF t d(2)] have s2: "touches ?P s1 s2" "cb_data ` set rest \<subseteq> ?P" by auto
    have "touches ?P s s5"
      using touches_trans [OF touches_trans [OF a s2(1)] touches_prq_tail [OF tl s2(2)]] .
    then show ?thesis unfolding w [symmetric] using touches_trans [OF _ touches_wakeups(1)] by simp
  qed
qed

lemma touches_ProcessCallbacks:
  assumes "ProcessCallbacks E evs s = Inr s'"
  shows "touches (fst ` set evs) s s'"
proof -
  have "touches (fst ` set evs) s1 s2" if "ProcessCallback E ev s1 = Inr s2" "ev \<in> set evs" for ev s1 s2
  proof -
    from that(1) obtain r s3 s4 where "finish_job E r (fst ev) s1 = Inr s3"
        "on_ctx (incrementNumAvailable 1) s3 = Inr s4" "s2 = wakeup_ctxCond 1 s4"
      by (auto simp: ProcessCallback_def rbind_eq_Inr)
    note s = this
    have "fst ev \<in> fst ` set evs" using that(2) by simp
    from touches_trans [OF touches_trans [OF touches_finish_job [OF s(1) this] touches_on_ctx [OF s(2)]]
        touches_wakeups(3)] show ?thesis unfolding s(3) .
  qed
  then show ?thesis
    using touches_rfold [of evs "ProcessCallback E" "fst ` set evs" s s'] assms
    unfolding ProcessCallbacks_def by blast
qed

lemma touches_fd_job_run:
  assumes "fd_job_run E ue pw p s = Inr s'" "p \<in> P"
  shows "touches P s s'"
proof -
  obtain job where job: "get_job p s = Inr job"
    using assms(1) by (auto simp: fd_job_run_def rbind_eq_Inr)
  have "\<exists>r s2. finish_job E r p s2 = Inr s' \<and> touches P s s2"
  proof (cases "fj_op job = Delete \<or> fj_op job = NonAlignedWrite")
    case True
    let ?c = "s\<lparr>ix_tick := Suc (Suc (ix_tick s)),
        ix_stats := (ix_stats s)\<lparr>ss_numSubmitted := ss_numSubmitted (ix_stats s) + 1\<rparr>\<rparr>"
    from True assms(1) job obtain r j where "finish_job E r p (put_job p j ?c) = Inr s'"
      by (auto simp: fd_job_run_def rbind_eq_Inr Let_def)
    moreover have "touches P s (put_job p j ?c)" using assms(2) by (auto simp: touches_def put_job_def)
    ultimately show ?thesis by blast
  next
    case False
    with assms(1) job have "finish_job E (- EINVAL) p s = Inr s'" by (simp add: fd_job_run_def Let_def)
    then show ?thesis using touches_refl by blast
  qed
  then obtain r s2 where s2: "finish_job E r p s2 = Inr s'" "touches P s s2" by blast
  from touches_trans [OF s2(2) touches_finish_job [OF s2(1) assms(2)]] show ?thesis .
qed

lemma touches_ProcessFdQueue_body:
  assumes "ProcessFdQueue_body E ue pw s = Inr (b, s')"
  shows "touches (set (ix_fdQueue s)) s s'"
proof (cases "ix_fdQueue s = []")
  case True
  with assms show ?thesis
    by (auto simp: ProcessFdQueue_body_def rbind_eq_Inr touches_def split: if_splits)
next
  case False
  then obtain p q where q: "ix_fdQueue s = p # q" by (cases "ix_fdQueue s") auto
  let ?P = "set (ix_fdQueue s)"
  from False q assms obtain v s1 where v: "fd_job_run E ue pw p (s\<lparr>ix_fdQueueCond := v, ix_fdQueue := q\<rparr>) = Inr s1"
      "s' = wakeup_fdQueueHasSpace (s1\<lparr>ix_fdQueueSize := ix_fdQueueSize s1 - 1\<rparr>) \<or>
       s' = s1\<lparr>ix_fdQueueSize := ix_fdQueueSize s1 - 1\<rparr>"
    by (auto simp: ProcessFdQueue_body_def rbind_eq_Inr Let_def split: if_splits)
  have "touches ?P s s1"
    using touches_fd_job_run [OF v(1), of ?P] q by (simp add: touches_def)
  then have "touches ?P s (s1\<lparr>ix_fdQueueSize := ix_fdQueueSize s1 - 1\<rparr>)"
    by (simp add: touches_def)
  then show ?thesis using v(2) touches_trans [OF _ touches_wakeups(2)] by auto
qed

end
