(* ===== verification/IO_Executor_Submit.thy ===== *)
theory IO_Executor_Submit
  imports IO_Executor_Frame
begin

text \<open>\<open>submitTask\<close> keeps the invariant of the executor, on each of its outcomes.\<close>

section \<open>Submission\<close>

lemma xinv_put_other:
  "xinv E acc H k s \<Longrightarrow> p \<notin> set (owned H s) \<Longrightarrow> xinv E acc H k (put_job p j s)"
  by (auto simp: xinv_defs owned_def put_job_def ctx_slack_def)

lemma xinv_count_full: "xinv E acc H k s \<Longrightarrow> xinv E acc H k (count_full s)"
  by (auto simp: xinv_defs owned_def count_full_def ctx_slack_def stats_ok_def)

lemma heap_ok_tick:
  assumes "env_ok E" "heap_ok E H s" "ix_tick s \<le> t"
  shows "heap_ok E H (s\<lparr>ix_tick := t\<rparr>)"
  using assms queued_job_mono [OF assms(1), of "ix_tick s" _ t] waited_job_mono [OF assms(1), of "ix_tick s" _ t]
  unfolding heap_ok_def owned_def by (auto elim!: all_jobs_mono)

text \<open>
  A job that is handed over for the first time joins its queue; it is counted and the queue size
  and the semaphore follow.
\<close>

lemma submit_request_ok:
  assumes "env_ok E" "xinv E acc [] 0 s" "ix_jobs s p = Some j" "job_fresh j" "rw_op j"
    and "p \<notin> set (owned [] s)" "Suc (length acc) < 2 ^ 32"
  shows "\<exists>ph s'. submit_request E p s = Inr (ph, s') \<and> xinv E (acc @ [jtag j]) [] 0 s' \<and>
    ix_requestQueue s' = ix_requestQueue s @ [p] \<and> ix_fdQueue s' = ix_fdQueue s \<and> ix_inflight s' = ix_inflight s \<and>
    (ph = Returned 0 \<or> ph = NeedProcess) \<and>
    (\<exists>j'. s' = s\<lparr>ix_requestQueueSize := ix_requestQueueSize s', ix_stats := ix_stats s', ix_tick := Suc (ix_tick s),
        ix_requestQueue := ix_requestQueue s', ix_jobs := (ix_jobs s)(p \<mapsto> j')\<rparr>)"
proof -
  have x: "heap_ok E [] s" "ctx_ok [] 0 s" "sizes_ok s" "count_ok acc [] s"
    using assms(2) by (auto simp: xinv_def)
  let ?j = "j\<lparr>fj_timer := clock E (ix_tick s), fj_executor := True\<rparr>"
  let ?ss = "(ix_stats s)\<lparr>ss_maxRequestQueueSize :=
      MaxValue_assign (word_of_int (ix_requestQueueSize s + 1)) (ss_maxRequestQueueSize (ix_stats s)),
      ss_numQueued := ss_numQueued (ix_stats s) + 1\<rparr>"
  let ?s' = "s\<lparr>ix_requestQueueSize := ix_requestQueueSize s + 1, ix_stats := ?ss, ix_tick := Suc (ix_tick s),
      ix_requestQueue := ix_requestQueue s @ [p], ix_jobs := (ix_jobs s)(p \<mapsto> ?j)\<rparr>"
  have e: "\<exists>ph. submit_request E p s = Inr (ph, ?s') \<and> (ph = Returned 0 \<or> ph = NeedProcess)"
    using assms(3,4) by (simp add: submit_request_def stamp_job_def get_job_def put_job_def setSubmitTime_fresh Let_def
        list_push_simps)
  have q: "queued_job E (Suc (ix_tick s)) ?j" "rw_op ?j" "jtag ?j = jtag j"
    using assms(4,5) env_ok_clock [OF assms(1), of "ix_tick s" "Suc (ix_tick s)"]
    by (auto simp: queued_job_def job_fresh_def rw_op_def jtag_def)
  have "heap_ok E [] (s\<lparr>ix_tick := Suc (ix_tick s)\<rparr>)" by (rule heap_ok_tick [OF assms(1) x(1)]) simp
  then have "heap_ok E [] ?s'"
    using q assms(6) by (simp add: heap_ok_def owned_def)
  moreover have "ctx_ok [] 0 ?s'" "sizes_ok ?s'"
    using x(2,3) by (auto simp: ctx_ok_def sizes_ok_def ctx_slack_def)
  moreover have "count_ok (acc @ [jtag j]) [] ?s'"
    using x(4) assms(6,7) q(3) by (simp add: count_ok_def owned_def stats_ok_def)
  ultimately have "xinv E (acc @ [jtag j]) [] 0 ?s'" by (simp add: xinv_def)
  with e show ?thesis by fastforce
qed

lemma submit_fd_ok:
  assumes "env_ok E" "xinv E acc [] 0 s" "ix_jobs s p = Some j" "job_fresh j" "fd_op j"
    and "p \<notin> set (owned [] s)" "Suc (length acc) < 2 ^ 32"
  shows "\<exists>s'. submit_fd E p s = Inr (Returned 0, s') \<and> xinv E (acc @ [jtag j]) [] 0 s' \<and>
    ix_requestQueue s' = ix_requestQueue s \<and> ix_fdQueue s' = ix_fdQueue s @ [p] \<and> ix_inflight s' = ix_inflight s \<and>
    (\<exists>j'. s' = s\<lparr>ix_fdQueueSize := ix_fdQueueSize s', ix_stats := ix_stats s', ix_tick := Suc (ix_tick s),
        ix_fdQueueCond := ix_fdQueueCond s', ix_fdQueue := ix_fdQueue s', ix_jobs := (ix_jobs s)(p \<mapsto> j')\<rparr>)"
proof -
  have x: "heap_ok E [] s" "ctx_ok [] 0 s" "sizes_ok s" "count_ok acc [] s"
    using assms(2) by (auto simp: xinv_def)
  let ?j = "j\<lparr>fj_timer := clock E (ix_tick s), fj_executor := True\<rparr>"
  let ?ss = "(ix_stats s)\<lparr>ss_numQueued := ss_numQueued (ix_stats s) + 1, ss_maxFdQueueSize :=
      MaxValue_assign (word_of_int (ix_fdQueueSize s + 1)) (ss_maxFdQueueSize (ix_stats s))\<rparr>"
  let ?s' = "s\<lparr>ix_fdQueueSize := ix_fdQueueSize s + 1, ix_stats := ?ss, ix_tick := Suc (ix_tick s),
      ix_fdQueueCond := Suc (ix_fdQueueCond s),
      ix_fdQueue := ix_fdQueue s @ [p], ix_jobs := (ix_jobs s)(p \<mapsto> ?j)\<rparr>"
  have e: "submit_fd E p s = Inr (Returned 0, ?s')"
    using assms(3,4) by (simp add: submit_fd_def stamp_job_def get_job_def put_job_def setSubmitTime_fresh Let_def
        list_push_simps)
  have q: "queued_job E (Suc (ix_tick s)) ?j" "fd_op ?j" "jtag ?j = jtag j"
    using assms(4,5) env_ok_clock [OF assms(1), of "ix_tick s" "Suc (ix_tick s)"]
    by (auto simp: queued_job_def job_fresh_def fd_op_def jtag_def)
  have "heap_ok E [] (s\<lparr>ix_tick := Suc (ix_tick s)\<rparr>)" by (rule heap_ok_tick [OF assms(1) x(1)]) simp
  then have "heap_ok E [] ?s'"
    using q assms(6) by (simp add: heap_ok_def owned_def)
  moreover have "ctx_ok [] 0 ?s'" "sizes_ok ?s'"
    using x(2,3) by (auto simp: ctx_ok_def sizes_ok_def ctx_slack_def)
  moreover have "count_ok (acc @ [jtag j]) [] ?s'"
    using x(4) assms(6,7) q(3) by (simp add: count_ok_def owned_def stats_ok_def)
  ultimately have "xinv E (acc @ [jtag j]) [] 0 ?s'" by (simp add: xinv_def)
  with e show ?thesis by fastforce
qed


text \<open>
  What \<open>submitTask_begin\<close> does with a job that is not yet owned: it rejects it, tells the thread to
  wait for space, or accepts it into the queue of its kind.
\<close>

definition new_job :: "FilerJob \<Rightarrow> bool" where
  "new_job j \<longleftrightarrow> job_fresh j \<and> (rw_op j \<or> fd_op j)"

definition begin_outcome ::
  "sysenv \<Rightarrow> (int \<times> 64 word) list \<Rightarrow> nat \<Rightarrow> FilerJob \<Rightarrow> iox \<Rightarrow> submit_phase \<Rightarrow> iox \<Rightarrow> bool" where
  "begin_outcome E acc p j s ph s' \<longleftrightarrow> (\<exists>j'. ix_jobs s' p = Some j' \<and> jtag j' = jtag j \<and>
     (case ph of
        Returned r \<Rightarrow> if r = 0 then xinv E (acc @ [jtag j]) [] 0 s' \<and> mset (owned [] s') = add_mset p (mset (owned [] s))
                      else r = - EAGAIN \<and> xinv E acc [] 0 s' \<and> owned [] s' = owned [] s \<and> new_job j'
      | NeedProcess \<Rightarrow> xinv E (acc @ [jtag j]) [] 0 s' \<and> mset (owned [] s') = add_mset p (mset (owned [] s))
      | WaitFdSpace \<Rightarrow> xinv E acc [] 0 s' \<and> owned [] s' = owned [] s \<and> job_fresh j' \<and> fd_op j'
      | WaitRequestSpace \<Rightarrow> xinv E acc [] 0 s' \<and> owned [] s' = owned [] s \<and> job_fresh j' \<and> rw_op j'))"

lemma submit_request_outcome:
  assumes "env_ok E" "xinv E acc [] 0 s" "ix_jobs s p = Some j" "job_fresh j" "rw_op j"
    and "p \<notin> set (owned [] s)" "Suc (length acc) < 2 ^ 32"
  shows "\<exists>ph s'. submit_request E p s = Inr (ph, s') \<and> begin_outcome E acc p j s ph s' \<and> touches {p} s s' \<and>
    ix_state s' = ix_state s \<and> ix_config s' = ix_config s"
proof -
  obtain ph s' j' where s': "submit_request E p s = Inr (ph, s')" "xinv E (acc @ [jtag j]) [] 0 s'"
      "ix_requestQueue s' = ix_requestQueue s @ [p]" "ix_fdQueue s' = ix_fdQueue s" "ix_inflight s' = ix_inflight s"
      "ph = Returned 0 \<or> ph = NeedProcess"
      "s' = s\<lparr>ix_requestQueueSize := ix_requestQueueSize s', ix_stats := ix_stats s', ix_tick := Suc (ix_tick s),
        ix_requestQueue := ix_requestQueue s', ix_jobs := (ix_jobs s)(p \<mapsto> j')\<rparr>"
    using submit_request_ok [OF assms] by blast
  have f: "ix_jobs s' = (ix_jobs s)(p \<mapsto> j')" "touches {p} s s'" "ix_state s' = ix_state s" "ix_config s' = ix_config s"
    by (subst s'(7), simp add: touches_def)+
  have "count_ok (acc @ [jtag j]) [] s'" "count_ok acc [] s" using s'(2) assms(2) by (auto simp: xinv_def)
  moreover have "ix_notified s' = ix_notified s" by (subst s'(7)) simp
  ultimately have "jtag j' = jtag j"
    using s'(3,4,5) f(1) assms(6) by (auto simp: count_ok_def owned_def)
  then have "begin_outcome E acc p j s ph s'"
    unfolding begin_outcome_def using s'(2-6) f(1) by (intro exI [of _ j']) (auto simp: owned_def)
  with s'(1) f show ?thesis by blast
qed

lemma submit_fd_outcome:
  assumes "env_ok E" "xinv E acc [] 0 s" "ix_jobs s p = Some j" "job_fresh j" "fd_op j"
    and "p \<notin> set (owned [] s)" "Suc (length acc) < 2 ^ 32"
  shows "\<exists>s'. submit_fd E p s = Inr (Returned 0, s') \<and> begin_outcome E acc p j s (Returned 0) s' \<and> touches {p} s s' \<and>
    ix_state s' = ix_state s \<and> ix_config s' = ix_config s"
proof -
  obtain s' j' where s': "submit_fd E p s = Inr (Returned 0, s')" "xinv E (acc @ [jtag j]) [] 0 s'"
      "ix_requestQueue s' = ix_requestQueue s" "ix_fdQueue s' = ix_fdQueue s @ [p]" "ix_inflight s' = ix_inflight s"
      "s' = s\<lparr>ix_fdQueueSize := ix_fdQueueSize s', ix_stats := ix_stats s', ix_tick := Suc (ix_tick s),
        ix_fdQueueCond := ix_fdQueueCond s', ix_fdQueue := ix_fdQueue s', ix_jobs := (ix_jobs s)(p \<mapsto> j')\<rparr>"
    using submit_fd_ok [OF assms] by blast
  have f: "ix_jobs s' = (ix_jobs s)(p \<mapsto> j')" "touches {p} s s'" "ix_state s' = ix_state s" "ix_config s' = ix_config s"
    by (subst s'(6), simp add: touches_def)+
  have "count_ok (acc @ [jtag j]) [] s'" "count_ok acc [] s" using s'(2) assms(2) by (auto simp: xinv_def)
  moreover have "ix_notified s' = ix_notified s" by (subst s'(6)) simp
  ultimately have "jtag j' = jtag j"
    using s'(3,4,5) f(1) assms(6) by (auto simp: count_ok_def owned_def)
  then have "begin_outcome E acc p j s (Returned 0) s'"
    unfolding begin_outcome_def using s'(2-5) f(1) by (intro exI [of _ j']) (auto simp: owned_def)
  with s'(1) f show ?thesis by blast
qed

lemma begin_outcome_put:
  assumes "jtag j' = jtag j" "begin_outcome E acc p j' (put_job p j' s) ph s'" "touches {p} (put_job p j' s) s'"
  shows "begin_outcome E acc p j s ph s' \<and> touches {p} s s'"
proof -
  have o: "owned [] (put_job p j' s) = owned [] s" by (simp add: owned_def put_job_def)
  have "begin_outcome E acc p j s ph s'"
    using assms(2) unfolding begin_outcome_def o assms(1) .
  then show ?thesis using touches_trans [OF touches_put_job [of p "{p}" s j'] assms(3)] by simp
qed

lemma submitTask_begin_ok:
  assumes "env_ok E" "xinv E acc [] 0 s" "ix_jobs s p = Some j" "new_job j"
    and "p \<notin> set (owned [] s)" "Suc (length acc) < 2 ^ 32"
  shows "\<exists>ph s'. submitTask_begin E b p s = Inr (ph, s') \<and> begin_outcome E acc p j s ph s' \<and> touches {p} s s' \<and>
    ix_state s' = ix_state s \<and> ix_config s' = ix_config s"
proof (cases "ix_state s = RUNNING")
  case False
  with assms show ?thesis by (simp add: submitTask_begin_def begin_outcome_def)
next
  case True
  let ?conv = "\<not> IsDirectIOAligned (fj_userSize j) \<and> fj_op j = Write"
  let ?j = "if ?conv then j\<lparr>fj_op := NonAlignedWrite\<rparr> else j"
  let ?s = "put_job p ?j s"
  let ?max = "sint (cf_maxRequestQueueSize (ix_config ?s))"
  have jj: "job_fresh ?j" "jtag ?j = jtag j" "rw_op ?j \<or> fd_op ?j" "ix_jobs ?s p = Some ?j"
    using assms(4) by (auto simp: new_job_def job_fresh_def jtag_def rw_op_def fd_op_def put_job_def)
  have x: "xinv E acc [] 0 ?s" "p \<notin> set (owned [] ?s)"
    using xinv_put_other [OF assms(2,5)] assms(5) by (auto simp: owned_def put_job_def)
  have st: "ix_state ?s = ix_state s" "ix_config ?s = ix_config s" by (simp_all add: put_job_def)
  have g: "get_job p s = Inr j" using assms(3) by (simp add: get_job_def)
  have rej: "begin_outcome E acc p ?j ?s (Returned (- EAGAIN)) (put_job p (?j\<lparr>fj_retcode := - EAGAIN\<rparr>) ?s)"
    using xinv_put_other [OF x] jj(1,3)
    by (auto simp: begin_outcome_def owned_def put_job_def jtag_def new_job_def job_fresh_def rw_op_def fd_op_def)
  have rej_t: "touches {p} ?s (put_job p (?j\<lparr>fj_retcode := - EAGAIN\<rparr>) ?s)"
    by (rule touches_put_job) simp
  have full_t: "touches {p} ?s (count_full ?s)" by (simp add: touches_def count_full_def)
  have "\<exists>ph s'. submitTask_begin E b p s = Inr (ph, s') \<and> begin_outcome E acc p ?j ?s ph s' \<and> touches {p} ?s s' \<and>
      ix_state s' = ix_state s \<and> ix_config s' = ix_config s"
  proof (cases "fd_op ?j")
    case fd: True
    then have op: "fj_op ?j = Delete \<or> fj_op ?j = Sync \<or> fj_op ?j = NonAlignedWrite" by (auto simp: fd_op_def)
    have w: "begin_outcome E acc p ?j ?s WaitFdSpace (count_full ?s)"
      using xinv_count_full [OF x(1)] jj(1,4) fd by (auto simp: begin_outcome_def owned_def count_full_def)
    have e: "submitTask_begin E b p s = (if ix_fdQueueSize ?s > ?max then
        (if \<not> (b \<or> ?conv) then Inr (Returned (- EAGAIN), put_job p (?j\<lparr>fj_retcode := - EAGAIN\<rparr>) ?s)
         else Inr (WaitFdSpace, count_full ?s)) else submit_fd E p ?s)"
      using True g op by (simp only: submitTask_begin_def Let_def rbind_simps if_True if_False not_True_eq_False not_not simp_thms)
    from submit_fd_outcome [OF assms(1) x(1) jj(4,1) fd x(2) assms(6)] show ?thesis
      unfolding e using rej rej_t w full_t st by (auto simp: put_job_def count_full_def)
  next
    case False
    then have rw: "rw_op ?j" using jj(3) by blast
    then have op: "\<not> (fj_op ?j = Delete \<or> fj_op ?j = Sync \<or> fj_op ?j = NonAlignedWrite)"
      "fj_op ?j = Write \<or> fj_op ?j = Read" by (auto simp: rw_op_def)
    have w: "begin_outcome E acc p ?j ?s WaitRequestSpace (count_full ?s)"
      using xinv_count_full [OF x(1)] jj(1,4) rw by (auto simp: begin_outcome_def owned_def count_full_def)
    have e: "submitTask_begin E b p s = (if ix_requestQueueSize ?s > ?max then
        (if \<not> (b \<or> ?conv) then Inr (Returned (- EAGAIN), put_job p (?j\<lparr>fj_retcode := - EAGAIN\<rparr>) ?s)
         else Inr (WaitRequestSpace, count_full ?s)) else submit_request E p ?s)"
      using True g op by (simp only: submitTask_begin_def Let_def rbind_simps if_True if_False not_True_eq_False not_not simp_thms)
    from submit_request_outcome [OF assms(1) x(1) jj(4,1) rw x(2) assms(6)] show ?thesis
      unfolding e using rej rej_t w full_t st by (auto simp: put_job_def count_full_def)
  qed
  then show ?thesis using begin_outcome_put [OF jj(2)] by blast
qed

end
