(* ===== verification/IO_Executor_System.thy ===== *)
theory IO_Executor_System
  imports IO_Executor_Submit
begin

text \<open>
  The executor with its threads as a transition system: callers, submitting threads, the completion
  thread, the fd thread and \<open>stop\<close> interleave; the invariant holds in every reachable state.
\<close>

section \<open>The system of threads\<close>

text \<open>
  Besides the executor: jobs allocated by callers and not yet submitted, threads that have decided
  to wait for space (but do not wait yet), the number of threads about to take the mutex and process
  the request queue, whether the fd thread is still in its loop, and the requests accepted so far.
\<close>

record xsys =
  xs_x :: iox
  xs_new :: "nat list"
  xs_toFd :: "nat list"
  xs_toRequest :: "nat list"
  xs_procs :: nat
  xs_fdAlive :: bool
  xs_acc :: "(int \<times> 64 word) list"

text \<open>
  The atomic actions: a caller allocates a job, or deletes one that was refused; a thread starts \<open>submitTask\<close>, starts to wait on a
  condition variable, is woken (possibly spuriously) and goes on, processes the request queue under
  the mutex; the completion thread handles events; the fd thread runs the body of its loop; \<open>stop\<close>
  changes the state.
\<close>

datatype action =
    ANew nat FilerJob
  | ADelete nat
  | ABegin bool nat
  | APauseFd nat
  | APauseRequest nat
  | AResumeFd nat
  | AResumeRequest nat
  | AProcess "nat \<Rightarrow> iocb list \<Rightarrow> int"
  | AEvents nat "io_event list list"
  | AFd int "int \<times> int"
  | AStopIntake
  | AStopFinal
  | AShutdownEvent "nat \<Rightarrow> iocb list \<Rightarrow> int"

definition after_submit :: "nat \<Rightarrow> int \<times> 64 word \<Rightarrow> submit_phase \<Rightarrow> iox \<Rightarrow> xsys \<Rightarrow> xsys" where
  "after_submit p tag ph x st =
     (case ph of
        Returned r \<Rightarrow> if r = 0 then st\<lparr>xs_x := x, xs_acc := xs_acc st @ [tag]\<rparr>
                      else st\<lparr>xs_x := x, xs_new := p # xs_new st\<rparr>
      | WaitFdSpace \<Rightarrow> st\<lparr>xs_x := x, xs_toFd := p # xs_toFd st\<rparr>
      | WaitRequestSpace \<Rightarrow> st\<lparr>xs_x := x, xs_toRequest := p # xs_toRequest st\<rparr>
      | NeedProcess \<Rightarrow> st\<lparr>xs_x := x, xs_acc := xs_acc st @ [tag], xs_procs := Suc (xs_procs st)\<rparr>)"

definition tag_of :: "nat \<Rightarrow> iox \<Rightarrow> int \<times> 64 word" where
  "tag_of p x = jtag (the (ix_jobs x p))"

text \<open>The effect of an action: \<open>None\<close> when it is not enabled, a fault when the code faults.\<close>

fun exec_action :: "sysenv \<Rightarrow> action \<Rightarrow> xsys \<Rightarrow> xsys res option" where
  "exec_action E (ANew p j) st =
     (if ix_jobs (xs_x st) p = None
      then Some (Inr (st\<lparr>xs_x := put_job p j (xs_x st), xs_new := p # xs_new st\<rparr>)) else None)"
| "exec_action E (ADelete p) st =
     (if p \<in> set (xs_new st)
      then Some (Inr (st\<lparr>xs_x := (xs_x st)\<lparr>ix_jobs := (ix_jobs (xs_x st))(p := None)\<rparr>, xs_new := remove1 p (xs_new st)\<rparr>))
      else None)"
| "exec_action E (ABegin b p) st =
     (if p \<in> set (xs_new st)
      then Some (rbind (submitTask_begin E b p (xs_x st)) (\<lambda>(ph, x).
             Inr (after_submit p (tag_of p (xs_x st)) ph x (st\<lparr>xs_new := remove1 p (xs_new st)\<rparr>))))
      else None)"
| "exec_action E (APauseFd p) st =
     (if p \<in> set (xs_toFd st)
      then Some (Inr (st\<lparr>xs_toFd := remove1 p (xs_toFd st),
                         xs_x := (xs_x st)\<lparr>ix_fdWaiters := ix_fdWaiters (xs_x st) @ [p]\<rparr>\<rparr>)) else None)"
| "exec_action E (APauseRequest p) st =
     (if p \<in> set (xs_toRequest st)
      then Some (Inr (st\<lparr>xs_toRequest := remove1 p (xs_toRequest st),
                         xs_x := (xs_x st)\<lparr>ix_requestWaiters := ix_requestWaiters (xs_x st) @ [p]\<rparr>\<rparr>)) else None)"
| "exec_action E (AResumeFd p) st =
     (if p \<in> set (ix_fdWoken (xs_x st) @ ix_fdWaiters (xs_x st))
      then Some (rbind (submit_fd E p ((xs_x st)\<lparr>ix_fdWoken := remove1 p (ix_fdWoken (xs_x st)),
                                                  ix_fdWaiters := remove1 p (ix_fdWaiters (xs_x st))\<rparr>))
             (\<lambda>(ph, x). Inr (after_submit p (tag_of p (xs_x st)) ph x st)))
      else None)"
| "exec_action E (AResumeRequest p) st =
     (if p \<in> set (ix_requestWoken (xs_x st) @ ix_requestWaiters (xs_x st))
      then Some (rbind (submit_request E p ((xs_x st)\<lparr>ix_requestWoken := remove1 p (ix_requestWoken (xs_x st)),
                                                  ix_requestWaiters := remove1 p (ix_requestWaiters (xs_x st))\<rparr>))
             (\<lambda>(ph, x). Inr (after_submit p (tag_of p (xs_x st)) ph x st)))
      else None)"
| "exec_action E (AProcess io_submit) st =
     (if xs_procs st > 0 \<and> (ix_ctxCond (xs_x st) > 0 \<or> ix_requestQueueSize (xs_x st) < sint (ix_minSubmitSize (xs_x st)))
      then Some (rbind (submitTask_process E io_submit (xs_x st))
             (\<lambda>x. Inr (st\<lparr>xs_x := x, xs_procs := xs_procs st - 1\<rparr>)))
      else None)"
| "exec_action E (AEvents n chunks) st =
     (if getevents n [] chunks \<noteq> None
      then Some (rbind (completion_event E (\<lambda>_ _. 0) (EvCtx n chunks) (xs_x st)) (\<lambda>x. Inr (st\<lparr>xs_x := x\<rparr>)))
      else None)"
| "exec_action E (AFd unlink_err pw) st =
     (if xs_fdAlive st \<and> ix_fdQueueCond (xs_x st) > 0
      then Some (rbind (ProcessFdQueue_body E unlink_err pw (xs_x st)) (\<lambda>(gotJob, x).
             Inr (st\<lparr>xs_x := x, xs_fdAlive := (gotJob \<and> ProcessFdQueue_test x)\<rparr>)))
      else None)"
| "exec_action E AStopIntake st =
     (if ix_state (xs_x st) = RUNNING then Some (Inr (st\<lparr>xs_x := stop_intake (xs_x st)\<rparr>)) else None)"
| "exec_action E AStopFinal st =
     (if ix_state (xs_x st) = NO_MORE_INTAKE \<and> \<not> xs_fdAlive st
      then Some (Inr (st\<lparr>xs_x := stop_final (xs_x st)\<rparr>)) else None)"
| "exec_action E (AShutdownEvent io_submit) st =
     (if ix_state (xs_x st) = FINAL_SHUTDOWN \<and> ix_ctxCond (xs_x st) > 0
      then Some (rbind (completion_event E io_submit EvShutdown (xs_x st)) (\<lambda>x. Inr (st\<lparr>xs_x := x\<rparr>)))
      else None)"

text \<open>
  The behaviour of callers and of the kernel the executor relies on: new jobs come from the
  constructor and \<open>setBuffer\<close> with data for a read or write, fewer than \<open>2 ^ 32\<close> jobs are accepted,
  \<open>io_submit\<close> takes all requests or none, events are for requests in flight.
\<close>

fun action_ok :: "action \<Rightarrow> xsys \<Rightarrow> bool" where
  "action_ok (ANew p j) st = new_job j"
| "action_ok (ABegin b p) st = (Suc (length (xs_acc st)) < 2 ^ 32)"
| "action_ok (AResumeFd p) st = (Suc (length (xs_acc st)) < 2 ^ 32)"
| "action_ok (AResumeRequest p) st = (Suc (length (xs_acc st)) < 2 ^ 32)"
| "action_ok (AProcess io_submit) st = takes_all io_submit"
| "action_ok (AShutdownEvent io_submit) st = takes_all io_submit"
| "action_ok (AEvents n chunks) st =
     (case getevents n [] chunks of None \<Rightarrow> False
      | Some evs \<Rightarrow> length evs = n \<and> n > 0 \<and> distinct (map fst evs) \<and> set (map fst evs) \<subseteq> set (ix_inflight (xs_x st)))"
| "action_ok _ st = True"

inductive xstep :: "sysenv \<Rightarrow> xsys \<Rightarrow> xsys \<Rightarrow> bool" for E where
  xstepI: "action_ok a st \<Longrightarrow> exec_action E a st = Some (Inr st') \<Longrightarrow> xstep E st st'"

text \<open>The start: a newly constructed executor whose context was initialised, and no caller yet.\<close>

definition xsys_start :: "iox \<Rightarrow> xsys" where
  "xsys_start x = \<lparr>xs_x = x, xs_new = [], xs_toFd = [], xs_toRequest = [], xs_procs = 0, xs_fdAlive = True, xs_acc = []\<rparr>"

definition xsys_init :: "sysenv \<Rightarrow> xsys \<Rightarrow> bool" where
  "xsys_init E st \<longleftrightarrow> env_ok E \<and> (\<exists>epollFD evfd config x. evfd \<ge> 0 \<and> 0 \<le> sint (cf_queueDepth config) \<and>
     cf_noSubmitterThread config \<and> IOExecutor_new epollFD 0 evfd 0 True config = Inr x \<and> st = xsys_start x)"

section \<open>Its invariant\<close>

definition fd_waiting :: "xsys \<Rightarrow> nat list" where
  "fd_waiting st = xs_toFd st @ ix_fdWoken (xs_x st) @ ix_fdWaiters (xs_x st)"

definition request_waiting :: "xsys \<Rightarrow> nat list" where
  "request_waiting st = xs_toRequest st @ ix_requestWoken (xs_x st) @ ix_requestWaiters (xs_x st)"

definition pending :: "xsys \<Rightarrow> nat list" where
  "pending st = xs_new st @ fd_waiting st @ request_waiting st"

definition pending_ok :: "xsys \<Rightarrow> bool" where
  "pending_ok st \<longleftrightarrow> distinct (pending st @ owned [] (xs_x st)) \<and>
     all_jobs new_job (ix_jobs (xs_x st)) (xs_new st) \<and>
     all_jobs (\<lambda>j. job_fresh j \<and> fd_op j) (ix_jobs (xs_x st)) (fd_waiting st) \<and>
     all_jobs (\<lambda>j. job_fresh j \<and> rw_op j) (ix_jobs (xs_x st)) (request_waiting st)"

definition sysinv :: "sysenv \<Rightarrow> xsys \<Rightarrow> bool" where
  "sysinv E st \<longleftrightarrow> env_ok E \<and> xinv E (xs_acc st) [] 0 (xs_x st) \<and> pending_ok st \<and>
     cf_noSubmitterThread (ix_config (xs_x st)) \<and> (xs_fdAlive st \<or> ix_state (xs_x st) \<noteq> RUNNING)"

lemma sint_nonneg: "0 \<le> sint (w :: 32 word) \<Longrightarrow> sint w = int (unat w)"
proof -
  assume "0 \<le> sint w"
  moreover have "sint w < 2 ^ 31" using sint_lt [of w] by simp
  moreover have "uint w = sint w mod 2 ^ 32"
    using uint_word_of_int [of "sint w", where 'a = 32] by simp
  ultimately show ?thesis by simp
qed

lemma sysinv_init: "xsys_init E st \<Longrightarrow> sysinv E st"
proof -
  assume "xsys_init E st"
  then obtain epollFD evfd config x where i: "env_ok E" "evfd \<ge> 0" "0 \<le> sint (cf_queueDepth config)"
      "cf_noSubmitterThread config" "IOExecutor_new epollFD 0 evfd 0 True config = Inr x" "st = xsys_start x"
    unfolding xsys_init_def by blast
  have "sint (cf_queueDepth config) = int (unat (cf_queueDepth config))"
    using i(3) by (simp add: sint_nonneg)
  with i show ?thesis
    by (auto simp: IOExecutor_new_def rbind_eq_Inr xsys_start_def sysinv_def xinv_defs owned_def pending_ok_def
        pending_def fd_waiting_def request_waiting_def SemaphoreWrapper_init_def FilerCtx_init_def FilerCtx_blank_def
        ctx_slack_def Let_def Statistics_init_def [THEN arg_cong, of ss_numQueued]
        Statistics_init_def [THEN arg_cong, of ss_numCompleted])
qed

text \<open>
  An operation that keeps the executor's invariant, and touches no job outside those the executor
  owns, keeps the system's.
\<close>

lemma all_jobs_cong: "(\<And>p. p \<in> set L \<Longrightarrow> m p = m' p) \<Longrightarrow> all_jobs P m L \<longleftrightarrow> all_jobs P m' L"
  by (simp add: all_jobs_def)

lemma pending_ok_frame:
  assumes "pending_ok st" "touches (set (owned [] (xs_x st))) (xs_x st) x" "distinct (owned [] x)"
    and "set (owned [] x) \<subseteq> set (owned [] (xs_x st))"
    and st': "xs_x st' = x" "xs_new st' = xs_new st" "xs_toFd st' = xs_toFd st" "xs_toRequest st' = xs_toRequest st"
  shows "pending_ok st'"
proof -
  have w: "fd_waiting st' = fd_waiting st" "request_waiting st' = request_waiting st"
    using assms(2) st' by (auto simp: fd_waiting_def request_waiting_def touches_def)
  have "all_jobs P (ix_jobs x) L \<longleftrightarrow> all_jobs P (ix_jobs (xs_x st)) L"
    if "set L \<inter> set (owned [] (xs_x st)) = {}" for P L
  proof (rule all_jobs_cong)
    show "ix_jobs x q = ix_jobs (xs_x st) q" if "q \<in> set L" for q
      using that \<open>set L \<inter> set (owned [] (xs_x st)) = {}\<close> assms(2) by (auto simp: touches_def)
  qed
  note same = this
  have d: "set (xs_new st) \<inter> set (owned [] (xs_x st)) = {}" "set (fd_waiting st) \<inter> set (owned [] (xs_x st)) = {}"
      "set (request_waiting st) \<inter> set (owned [] (xs_x st)) = {}"
    using assms(1) by (auto simp: pending_ok_def pending_def)
  show ?thesis
    using assms(1,3,4) unfolding pending_ok_def pending_def st' w same [OF d(1)] same [OF d(2)] same [OF d(3)]
    by auto
qed


lemma sysinv_frame:
  assumes "sysinv E st" "touches (set (owned [] (xs_x st))) (xs_x st) x" "xinv E (xs_acc st) [] 0 x"
    and "set (owned [] x) \<subseteq> set (owned [] (xs_x st))" "ix_config x = ix_config (xs_x st)"
    and st': "xs_x st' = x" "xs_new st' = xs_new st" "xs_toFd st' = xs_toFd st" "xs_toRequest st' = xs_toRequest st"
      "xs_acc st' = xs_acc st" "xs_fdAlive st' \<or> ix_state x \<noteq> RUNNING"
  shows "sysinv E st'"
proof -
  have "pending_ok st'"
    by (rule pending_ok_frame [OF _ assms(2) _ assms(4) st'(1-4)])
      (use assms(1,3) in \<open>auto simp: sysinv_def xinv_def heap_ok_def\<close>)
  then show ?thesis using assms st' by (simp add: sysinv_def)
qed

subsection \<open>Callers and submitting threads\<close>

lemma all_jobsD: "all_jobs P m L \<Longrightarrow> p \<in> set L \<Longrightarrow> \<exists>j. m p = Some j \<and> P j"
  by (simp add: all_jobs_def)

lemma pending_in_heap: "pending_ok st \<Longrightarrow> p \<in> set (pending st) \<Longrightarrow> ix_jobs (xs_x st) p \<noteq> None"
  by (force simp: pending_ok_def pending_def all_jobs_def)

lemma owned_in_heap: "heap_ok E H s \<Longrightarrow> p \<in> set (owned H s) \<Longrightarrow> ix_jobs s p \<noteq> None"
  by (force simp: heap_ok_def owned_def all_jobs_def)

lemma ANew_ok:
  assumes "sysinv E st" "new_job j" "ix_jobs (xs_x st) p = None"
  shows "sysinv E (st\<lparr>xs_x := put_job p j (xs_x st), xs_new := p # xs_new st\<rparr>)"
proof -
  have p: "p \<notin> set (pending st)" "p \<notin> set (owned [] (xs_x st))"
    using assms pending_in_heap [of st p] owned_in_heap [of E "[]" "xs_x st" p] by (auto simp: sysinv_def xinv_def)
  then show ?thesis
    using assms(1,2) xinv_put_other [of E "xs_acc st" "[]" 0 "xs_x st" p j]
    by (auto simp: sysinv_def pending_ok_def pending_def fd_waiting_def request_waiting_def put_job_def owned_def)
qed

lemma ADelete_ok:
  assumes "sysinv E st" "p \<in> set (xs_new st)"
  shows "sysinv E (st\<lparr>xs_x := (xs_x st)\<lparr>ix_jobs := (ix_jobs (xs_x st))(p := None)\<rparr>, xs_new := remove1 p (xs_new st)\<rparr>)"
proof -
  have d: "distinct (pending st @ owned [] (xs_x st))" using assms(1) by (simp add: sysinv_def pending_ok_def)
  then have p: "p \<notin> set (owned [] (xs_x st))" "p \<notin> set (fd_waiting st)" "p \<notin> set (request_waiting st)" "distinct (xs_new st)"
    using assms(2) by (auto simp: pending_def)
  have "xinv E (xs_acc st) [] 0 ((xs_x st)\<lparr>ix_jobs := (ix_jobs (xs_x st))(p := None)\<rparr>)"
    using assms(1) p(1) by (simp add: sysinv_def xinv_defs owned_def ctx_slack_def)
  moreover have "all_jobs new_job ((ix_jobs (xs_x st))(p := None)) (remove1 p (xs_new st))"
    using assms(1) p(4) by (auto simp: sysinv_def pending_ok_def all_jobs_def)
  ultimately show ?thesis
    using assms p d
    by (auto simp: sysinv_def pending_ok_def pending_def fd_waiting_def request_waiting_def owned_def dest: notin_set_remove1)
qed

text \<open>
  A thread holds the job \<open>p\<close>, which is nowhere else: after \<open>submitTask_begin\<close> or the push that follows
  a wait, the job is where the outcome says.
\<close>

lemma after_submit_ok:
  assumes "env_ok E" "pending_ok st" "p \<notin> set (pending st)" "p \<notin> set (owned [] (xs_x st))"
    and "begin_outcome E (xs_acc st) p j (xs_x st) ph x" "touches {p} (xs_x st) x"
    and "ix_state x = ix_state (xs_x st)" "ix_config x = ix_config (xs_x st)"
    and "cf_noSubmitterThread (ix_config (xs_x st))" "xs_fdAlive st \<or> ix_state (xs_x st) \<noteq> RUNNING"
  shows "sysinv E (after_submit p (jtag j) ph x st)"
proof -
  obtain j' where j': "ix_jobs x p = Some j'" using assms(5) by (auto simp: begin_outcome_def)
  have same: "all_jobs P (ix_jobs x) L \<longleftrightarrow> all_jobs P (ix_jobs (xs_x st)) L" if "p \<notin> set L" for P L
  proof (rule all_jobs_cong)
    show "ix_jobs x q = ix_jobs (xs_x st) q" if "q \<in> set L" for q
      using that \<open>p \<notin> set L\<close> assms(6) by (auto simp: touches_def)
  qed
  have ww: "ix_fdWoken x @ ix_fdWaiters x = ix_fdWoken (xs_x st) @ ix_fdWaiters (xs_x st)"
      "ix_requestWoken x @ ix_requestWaiters x = ix_requestWoken (xs_x st) @ ix_requestWaiters (xs_x st)"
    using assms(6) by (auto simp: touches_def)
  let ?st' = "after_submit p (jtag j) ph x st"
  have b: "env_ok E" "cf_noSubmitterThread (ix_config x)" "xs_fdAlive st \<or> ix_state x \<noteq> RUNNING"
    using assms by simp_all
  have np: "p \<notin> set (xs_new st)" "p \<notin> set (fd_waiting st)" "p \<notin> set (request_waiting st)"
    using assms(3) by (auto simp: pending_def)
  have ok: "all_jobs new_job (ix_jobs x) (xs_new st)" "all_jobs (\<lambda>j. job_fresh j \<and> fd_op j) (ix_jobs x) (fd_waiting st)"
      "all_jobs (\<lambda>j. job_fresh j \<and> rw_op j) (ix_jobs x) (request_waiting st)"
    using assms(2) same np by (auto simp: pending_ok_def)
  have d: "distinct (pending st @ owned [] (xs_x st))" using assms(2) by (simp add: pending_ok_def)
  have accepted: "distinct (pending st @ owned [] x)" if "mset (owned [] x) = add_mset p (mset (owned [] (xs_x st)))"
  proof -
    have "mset (pending st @ owned [] x) = mset (p # pending st @ owned [] (xs_x st))" using that by simp
    moreover have "distinct (p # pending st @ owned [] (xs_x st))" using d assms(3,4) by simp
    ultimately show ?thesis using mset_eq_imp_distinct_iff by blast
  qed
  have w: "fd_waiting (st\<lparr>xs_x := x\<rparr>) = fd_waiting st" "request_waiting (st\<lparr>xs_x := x\<rparr>) = request_waiting st"
    by (simp_all add: fd_waiting_def request_waiting_def ww)
  have acc: "sysinv E (st\<lparr>xs_x := x, xs_acc := acc', xs_procs := n\<rparr>)"
    if "xinv E acc' [] 0 x" "mset (owned [] x) = add_mset p (mset (owned [] (xs_x st)))" for acc' n
  proof -
    have "fd_waiting (st\<lparr>xs_x := x, xs_acc := acc', xs_procs := n\<rparr>) = fd_waiting st"
        "request_waiting (st\<lparr>xs_x := x, xs_acc := acc', xs_procs := n\<rparr>) = request_waiting st"
      using w by (simp_all add: fd_waiting_def request_waiting_def)
    with that(1) b ok accepted [OF that(2)] show ?thesis by (simp add: sysinv_def pending_ok_def pending_def)
  qed
  show ?thesis
  proof (cases ph)
    case (Returned r)
    show ?thesis
    proof (cases "r = 0")
      case True
      have o: "xinv E (xs_acc st @ [jtag j]) [] 0 x" "mset (owned [] x) = add_mset p (mset (owned [] (xs_x st)))"
        using assms(5) Returned True by (auto simp: begin_outcome_def)
      from acc [OF o, of "xs_procs st"] show ?thesis using Returned True by (simp add: after_submit_def)
    next
      case False
      let ?s = "st\<lparr>xs_x := x, xs_new := p # xs_new st\<rparr>"
      have w': "fd_waiting ?s = fd_waiting st" "request_waiting ?s = request_waiting st"
        using w by (simp_all add: fd_waiting_def request_waiting_def)
      have o: "xinv E (xs_acc st) [] 0 x" "owned [] x = owned [] (xs_x st)" "new_job j'"
        using assms(5) Returned False j' by (simp_all add: begin_outcome_def)
      have "distinct (pending ?s @ owned [] x)"
        using d assms(3,4) o(2) by (simp add: pending_def w')
      then have "sysinv E ?s" using o(1,3) j' b ok w' by (simp add: sysinv_def pending_ok_def)
      then show ?thesis using Returned False by (simp add: after_submit_def)
    qed
  next
    case WaitFdSpace
    let ?s = "st\<lparr>xs_x := x, xs_toFd := p # xs_toFd st\<rparr>"
    have w': "fd_waiting ?s = p # fd_waiting st" "request_waiting ?s = request_waiting st"
      using w by (simp_all add: fd_waiting_def request_waiting_def)
    have o: "xinv E (xs_acc st) [] 0 x" "owned [] x = owned [] (xs_x st)" "job_fresh j'" "fd_op j'"
      using assms(5) WaitFdSpace j' by (simp_all add: begin_outcome_def)
    have "distinct (pending ?s @ owned [] x)"
      using d assms(3,4) o(2) by (simp add: pending_def w')
    then have "sysinv E ?s" using o(1,3,4) j' b ok w' by (simp add: sysinv_def pending_ok_def)
    then show ?thesis using WaitFdSpace by (simp add: after_submit_def)
  next
    case WaitRequestSpace
    let ?s = "st\<lparr>xs_x := x, xs_toRequest := p # xs_toRequest st\<rparr>"
    have w': "fd_waiting ?s = fd_waiting st" "request_waiting ?s = p # request_waiting st"
      using w by (simp_all add: fd_waiting_def request_waiting_def)
    have o: "xinv E (xs_acc st) [] 0 x" "owned [] x = owned [] (xs_x st)" "job_fresh j'" "rw_op j'"
      using assms(5) WaitRequestSpace j' by (simp_all add: begin_outcome_def)
    have "distinct (pending ?s @ owned [] x)"
      using d assms(3,4) o(2) by (simp add: pending_def w')
    then have "sysinv E ?s" using o(1,3,4) j' b ok w' by (simp add: sysinv_def pending_ok_def)
    then show ?thesis using WaitRequestSpace by (simp add: after_submit_def)
  next
    case NeedProcess
    have o: "xinv E (xs_acc st @ [jtag j]) [] 0 x" "mset (owned [] x) = add_mset p (mset (owned [] (xs_x st)))"
      using assms(5) NeedProcess by (auto simp: begin_outcome_def)
    from acc [OF o, of "Suc (xs_procs st)"] show ?thesis using NeedProcess by (simp add: after_submit_def)
  qed
qed

lemma ABegin_ok:
  assumes "sysinv E st" "p \<in> set (xs_new st)" "Suc (length (xs_acc st)) < 2 ^ 32"
  shows "\<exists>ph x. submitTask_begin E b p (xs_x st) = Inr (ph, x) \<and>
    sysinv E (after_submit p (tag_of p (xs_x st)) ph x (st\<lparr>xs_new := remove1 p (xs_new st)\<rparr>))"
proof -
  have inv: "env_ok E" "xinv E (xs_acc st) [] 0 (xs_x st)" "pending_ok st" using assms(1) by (auto simp: sysinv_def)
  obtain j where j: "ix_jobs (xs_x st) p = Some j" "new_job j"
    using inv(3) assms(2) by (auto simp: pending_ok_def all_jobs_def)
  have np: "p \<notin> set (owned [] (xs_x st))" using inv(3) assms(2) by (auto simp: pending_ok_def pending_def)
  obtain ph x where x: "submitTask_begin E b p (xs_x st) = Inr (ph, x)" "begin_outcome E (xs_acc st) p j (xs_x st) ph x"
      "touches {p} (xs_x st) x" "ix_state x = ix_state (xs_x st)" "ix_config x = ix_config (xs_x st)"
    using submitTask_begin_ok [OF inv(1,2) j np assms(3)] by blast
  let ?st = "st\<lparr>xs_new := remove1 p (xs_new st)\<rparr>"
  have d: "distinct (xs_new st)" using inv(3) by (auto simp: pending_ok_def pending_def)
  have "pending_ok ?st" "p \<notin> set (pending ?st)"
    using inv(3) assms(2) d
    by (auto simp: pending_ok_def pending_def fd_waiting_def request_waiting_def all_jobs_def)
  then have "sysinv E (after_submit p (jtag j) ph x ?st)"
    using after_submit_ok [OF inv(1), of ?st p j ph x] np x(2-5) assms(1) by (simp add: sysinv_def)
  with x(1) j(1) show ?thesis by (simp add: tag_of_def)
qed

lemma APauseFd_ok:
  assumes "sysinv E st" "p \<in> set (xs_toFd st)"
  shows "sysinv E (st\<lparr>xs_toFd := remove1 p (xs_toFd st), xs_x := (xs_x st)\<lparr>ix_fdWaiters := ix_fdWaiters (xs_x st) @ [p]\<rparr>\<rparr>)"
    (is "sysinv E ?st")
proof -
  have "xinv E (xs_acc st) [] 0 (xs_x ?st)" using assms(1) by (auto simp: sysinv_def xinv_defs owned_def ctx_slack_def)
  moreover have "distinct (xs_toFd st)" using assms(1) by (auto simp: sysinv_def pending_ok_def pending_def fd_waiting_def)
  then have "pending_ok ?st" using assms
    by (auto simp: sysinv_def pending_ok_def pending_def fd_waiting_def request_waiting_def all_jobs_def owned_def)
  ultimately show ?thesis using assms(1) by (simp add: sysinv_def)
qed

lemma APauseRequest_ok:
  assumes "sysinv E st" "p \<in> set (xs_toRequest st)"
  shows "sysinv E (st\<lparr>xs_toRequest := remove1 p (xs_toRequest st),
    xs_x := (xs_x st)\<lparr>ix_requestWaiters := ix_requestWaiters (xs_x st) @ [p]\<rparr>\<rparr>)" (is "sysinv E ?st")
proof -
  have "xinv E (xs_acc st) [] 0 (xs_x ?st)" using assms(1) by (auto simp: sysinv_def xinv_defs owned_def ctx_slack_def)
  moreover have "distinct (xs_toRequest st)" using assms(1) by (auto simp: sysinv_def pending_ok_def pending_def request_waiting_def)
  then have "pending_ok ?st" using assms
    by (auto simp: sysinv_def pending_ok_def pending_def fd_waiting_def request_waiting_def all_jobs_def owned_def)
  ultimately show ?thesis using assms(1) by (simp add: sysinv_def)
qed

lemma after_submit_x: "after_submit p tag ph x (st\<lparr>xs_x := y\<rparr>) = after_submit p tag ph x st"
  by (cases ph) (auto simp: after_submit_def)

lemma AResumeFd_ok:
  assumes "sysinv E st" "p \<in> set (ix_fdWoken (xs_x st) @ ix_fdWaiters (xs_x st))" "Suc (length (xs_acc st)) < 2 ^ 32"
  shows "\<exists>ph x. submit_fd E p ((xs_x st)\<lparr>ix_fdWoken := remove1 p (ix_fdWoken (xs_x st)),
      ix_fdWaiters := remove1 p (ix_fdWaiters (xs_x st))\<rparr>) = Inr (ph, x) \<and>
    sysinv E (after_submit p (tag_of p (xs_x st)) ph x st)"
proof -
  let ?x = "(xs_x st)\<lparr>ix_fdWoken := remove1 p (ix_fdWoken (xs_x st)), ix_fdWaiters := remove1 p (ix_fdWaiters (xs_x st))\<rparr>"
  let ?st = "st\<lparr>xs_x := ?x\<rparr>"
  have inv: "env_ok E" "pending_ok st" using assms(1) by (auto simp: sysinv_def)
  have xi: "xinv E (xs_acc st) [] 0 ?x" using assms(1) by (auto simp: sysinv_def xinv_defs owned_def ctx_slack_def)
  obtain j where j: "ix_jobs ?x p = Some j" "job_fresh j" "fd_op j"
    using all_jobsD [of _ "ix_jobs (xs_x st)" "fd_waiting st" p] inv(2) assms(2)
    by (fastforce simp: pending_ok_def fd_waiting_def)
  have np: "p \<notin> set (owned [] ?x)"
    using inv(2) assms(2) by (auto simp: pending_ok_def pending_def fd_waiting_def owned_def)
  obtain x where x: "submit_fd E p ?x = Inr (Returned 0, x)" "begin_outcome E (xs_acc st) p j ?x (Returned 0) x"
      "touches {p} ?x x" "ix_state x = ix_state ?x" "ix_config x = ix_config ?x"
    using submit_fd_outcome [OF inv(1) xi j np assms(3)] by blast
  have "distinct (ix_fdWoken (xs_x st))" "distinct (ix_fdWaiters (xs_x st))"
    using inv(2) by (auto simp: pending_ok_def pending_def fd_waiting_def)
  then have "pending_ok ?st" "p \<notin> set (pending ?st)"
    using inv(2) assms(2)
    by (auto simp: pending_ok_def pending_def fd_waiting_def request_waiting_def all_jobs_def owned_def)
  then have "sysinv E (after_submit p (jtag j) (Returned 0) x ?st)"
    using after_submit_ok [OF inv(1), of ?st p j "Returned 0" x] np x(2-5) assms(1) by (simp add: sysinv_def)
  with x(1) j(1) show ?thesis by (simp add: tag_of_def after_submit_x)
qed

lemma AResumeRequest_ok:
  assumes "sysinv E st" "p \<in> set (ix_requestWoken (xs_x st) @ ix_requestWaiters (xs_x st))"
    and "Suc (length (xs_acc st)) < 2 ^ 32"
  shows "\<exists>ph x. submit_request E p ((xs_x st)\<lparr>ix_requestWoken := remove1 p (ix_requestWoken (xs_x st)),
      ix_requestWaiters := remove1 p (ix_requestWaiters (xs_x st))\<rparr>) = Inr (ph, x) \<and>
    sysinv E (after_submit p (tag_of p (xs_x st)) ph x st)"
proof -
  let ?x = "(xs_x st)\<lparr>ix_requestWoken := remove1 p (ix_requestWoken (xs_x st)),
    ix_requestWaiters := remove1 p (ix_requestWaiters (xs_x st))\<rparr>"
  let ?st = "st\<lparr>xs_x := ?x\<rparr>"
  have inv: "env_ok E" "pending_ok st" using assms(1) by (auto simp: sysinv_def)
  have xi: "xinv E (xs_acc st) [] 0 ?x" using assms(1) by (auto simp: sysinv_def xinv_defs owned_def ctx_slack_def)
  obtain j where j: "ix_jobs ?x p = Some j" "job_fresh j" "rw_op j"
    using all_jobsD [of _ "ix_jobs (xs_x st)" "request_waiting st" p] inv(2) assms(2)
    by (fastforce simp: pending_ok_def request_waiting_def)
  have np: "p \<notin> set (owned [] ?x)"
    using inv(2) assms(2) by (auto simp: pending_ok_def pending_def request_waiting_def owned_def)
  obtain ph x where x: "submit_request E p ?x = Inr (ph, x)" "begin_outcome E (xs_acc st) p j ?x ph x"
      "touches {p} ?x x" "ix_state x = ix_state ?x" "ix_config x = ix_config ?x"
    using submit_request_outcome [OF inv(1) xi j np assms(3)] by blast
  have "distinct (ix_requestWoken (xs_x st))" "distinct (ix_requestWaiters (xs_x st))"
    using inv(2) by (auto simp: pending_ok_def pending_def request_waiting_def)
  then have "pending_ok ?st" "p \<notin> set (pending ?st)"
    using inv(2) assms(2)
    by (auto simp: pending_ok_def pending_def fd_waiting_def request_waiting_def all_jobs_def owned_def)
  then have "sysinv E (after_submit p (jtag j) ph x ?st)"
    using after_submit_ok [OF inv(1), of ?st p j ph x] np x(2-5) assms(1) by (simp add: sysinv_def)
  with x(1) j(1) show ?thesis by (simp add: tag_of_def after_submit_x)
qed

subsection \<open>The threads of the executor\<close>

lemma prq_system:
  assumes "sysinv E st" "takes_all io_submit" "ix_ctxCond (xs_x st) > 0"
  shows "\<exists>n x. ProcessRequestQueue E io_submit (xs_x st) = Inr (n, x) \<and> sysinv E (st\<lparr>xs_x := x, xs_procs := m\<rparr>)"
proof -
  obtain n x moved where x: "ProcessRequestQueue E io_submit (xs_x st) = Inr (n, x)" "xinv E (xs_acc st) [] 0 x"
      "prq_result moved n (xs_x st) x"
    using ProcessRequestQueue_ok [OF _ assms(2) _ assms(3)] assms(1) unfolding sysinv_def by blast
  have tt: "touches (set (owned [] (xs_x st))) (xs_x st) x"
    by (rule touches_mono [OF touches_ProcessRequestQueue [OF x(1)]]) (auto simp: owned_def)
  have sub: "set (owned [] x) \<subseteq> set (owned [] (xs_x st))"
    using x(3) by (auto simp: prq_result_def owned_def)
  have "ix_state x = ix_state (xs_x st)" "ix_config x = ix_config (xs_x st)"
    using x(3) by (simp_all add: prq_result_def)
  then have "sysinv E (st\<lparr>xs_x := x, xs_procs := m\<rparr>)"
    using assms(1) by (intro sysinv_frame [OF assms(1) tt x(2) sub]) (simp_all add: sysinv_def)
  with x(1) show ?thesis by blast
qed

lemma AProcess_ok:
  assumes "sysinv E st" "takes_all io_submit"
    and "ix_ctxCond (xs_x st) > 0 \<or> ix_requestQueueSize (xs_x st) < sint (ix_minSubmitSize (xs_x st))"
  shows "\<exists>x. submitTask_process E io_submit (xs_x st) = Inr x \<and> sysinv E (st\<lparr>xs_x := x, xs_procs := m\<rparr>)"
proof (cases "ix_requestQueueSize (xs_x st) \<ge> sint (ix_minSubmitSize (xs_x st))")
  case True
  then have "ix_ctxCond (xs_x st) > 0" using assms(3) by simp
  with True prq_system [OF assms(1,2) this, of m] show ?thesis by (auto simp: submitTask_process_def)
next
  case False
  have "sysinv E (st\<lparr>xs_x := xs_x st, xs_procs := m\<rparr>)"
    using assms(1) by (auto simp: sysinv_def pending_ok_def pending_def fd_waiting_def request_waiting_def)
  with False show ?thesis by (simp add: submitTask_process_def)
qed

lemma submitTask_process_effect:
  assumes "sysinv E st" "takes_all io_submit" "submitTask_process E io_submit (xs_x st) = Inr x"
    and "ix_ctxCond (xs_x st) > 0 \<or> ix_requestQueueSize (xs_x st) < sint (ix_minSubmitSize (xs_x st))"
  shows "x = xs_x st \<and> ix_requestQueueSize (xs_x st) < sint (ix_minSubmitSize (xs_x st)) \<or>
    (\<exists>n moved. ProcessRequestQueue E io_submit (xs_x st) = Inr (n, x) \<and> ix_ctxCond (xs_x st) > 0 \<and> prq_result moved n (xs_x st) x)"
proof (cases "ix_requestQueueSize (xs_x st) \<ge> sint (ix_minSubmitSize (xs_x st))")
  case True
  then have c: "ix_ctxCond (xs_x st) > 0" using assms(4) by simp
  obtain n where n: "ProcessRequestQueue E io_submit (xs_x st) = Inr (n, x)"
    using True assms(3) by (auto simp: submitTask_process_def rbind_eq_Inr)
  obtain moved where "prq_result moved n (xs_x st) x"
    using ProcessRequestQueue_ok [OF _ assms(2) _ c] assms(1) n unfolding sysinv_def by fastforce
  with n c show ?thesis by blast
next
  case False
  then show ?thesis using assms(3) by (simp add: submitTask_process_def)
qed

lemma AShutdownEvent_ok:
  assumes "sysinv E st" "takes_all io_submit" "ix_ctxCond (xs_x st) > 0" "ix_state (xs_x st) = FINAL_SHUTDOWN"
  shows "\<exists>x. completion_event E io_submit EvShutdown (xs_x st) = Inr x \<and> sysinv E (st\<lparr>xs_x := x\<rparr>)"
proof -
  obtain n x where x: "ProcessRequestQueue E io_submit (xs_x st) = Inr (n, x)" "sysinv E (st\<lparr>xs_x := x, xs_procs := xs_procs st\<rparr>)"
    using prq_system [OF assms(1-3)] by blast
  have "st\<lparr>xs_x := x, xs_procs := xs_procs st\<rparr> = st\<lparr>xs_x := x\<rparr>" by simp
  with x assms(4) show ?thesis by (simp add: completion_event_def)
qed

lemma AEvents_ok:
  assumes "sysinv E st" "action_ok (AEvents n chunks) st"
  shows "\<exists>x. completion_event E io_submit (EvCtx n chunks) (xs_x st) = Inr x \<and> sysinv E (st\<lparr>xs_x := x\<rparr>)"
proof -
  obtain evs where evs: "getevents n [] chunks = Some evs" "length evs = n" "n > 0" "distinct (map fst evs)"
      "set (map fst evs) \<subseteq> set (ix_inflight (xs_x st))"
    using assms(2) by (auto split: option.splits)
  have inv: "env_ok E" "xinv E (xs_acc st) [] 0 (xs_x st)" using assms(1) by (auto simp: sysinv_def)
  let ?r = "fold remove1 (map fst evs) (ix_inflight (xs_x st))"
  obtain x where x: "completion_event E io_submit (EvCtx n chunks) (xs_x st) = Inr x" "xinv E (xs_acc st) [] 0 x"
      "ix_inflight x = ?r" "ix_state x = ix_state (xs_x st)" "ix_requestQueue x = ix_requestQueue (xs_x st)"
      "ix_fdQueue x = ix_fdQueue (xs_x st)" "ix_config x = ix_config (xs_x st)"
    using EvCtx_ok [OF inv evs] by blast
  have "ProcessCallbacks E evs ((xs_x st)\<lparr>ix_inflight := ?r\<rparr>) = Inr x"
    using x(1) evs(1) by (auto simp: completion_event_def rbind_eq_Inr)
  note tc = touches_ProcessCallbacks [OF this]
  have "fst ` set evs \<subseteq> set (owned [] (xs_x st))" using evs(5) by (auto simp: owned_def)
  from touches_mono [OF tc this] have tt: "touches (set (owned [] (xs_x st))) (xs_x st) x"
    by (simp add: touches_def)
  have sub: "set (owned [] x) \<subseteq> set (owned [] (xs_x st))"
    using mset_remove1_held(1) [OF evs(4,5)] x(3,5,6) by (auto simp: owned_def)
  have "sysinv E (st\<lparr>xs_x := x\<rparr>)"
    using assms(1) x(4,7) by (intro sysinv_frame [OF assms(1) tt x(2) sub]) (simp_all add: sysinv_def)
  with x(1) show ?thesis by blast
qed

lemma AFd_ok:
  assumes "sysinv E st" "ix_fdQueueCond (xs_x st) > 0" "xs_fdAlive st"
  shows "\<exists>gotJob x. ProcessFdQueue_body E unlink_err pw (xs_x st) = Inr (gotJob, x) \<and>
    sysinv E (st\<lparr>xs_x := x, xs_fdAlive := (gotJob \<and> ProcessFdQueue_test x)\<rparr>)"
proof (cases "ix_fdQueue (xs_x st)")
  case Nil
  let ?x = "(xs_x st)\<lparr>ix_fdQueueCond := ix_fdQueueCond (xs_x st) - 1\<rparr>"
  have nr: "ix_state (xs_x st) \<noteq> RUNNING"
    using assms(1,2) Nil by (auto simp: sysinv_def xinv_def sizes_ok_def)
  have "xinv E (xs_acc st) [] 0 ?x"
    using assms(1) Nil nr by (auto simp: sysinv_def xinv_defs owned_def ctx_slack_def)
  note xi = this
  have tt: "touches (set (owned [] (xs_x st))) (xs_x st) ?x" "set (owned [] ?x) \<subseteq> set (owned [] (xs_x st))"
    by (simp_all add: touches_def owned_def)
  have "sysinv E (st\<lparr>xs_x := ?x, xs_fdAlive := False\<rparr>)"
    using nr by (intro sysinv_frame [OF assms(1) tt(1) xi tt(2)]) simp_all
  with Nil assms(2) show ?thesis
    by (intro exI [of _ False] exI [of _ ?x]) (simp add: ProcessFdQueue_body_def)
next
  case (Cons p q)
  obtain x where x: "ProcessFdQueue_body E unlink_err pw (xs_x st) = Inr (True, x)" "xinv E (xs_acc st) [] 0 x"
      "ix_fdQueue x = q" "ix_requestQueue x = ix_requestQueue (xs_x st)" "ix_inflight x = ix_inflight (xs_x st)"
      "ix_state x = ix_state (xs_x st)" "ix_config x = ix_config (xs_x st)"
    using ProcessFdQueue_body_ok [OF _ _ Cons] assms(1) unfolding sysinv_def by blast
  have tt: "touches (set (owned [] (xs_x st))) (xs_x st) x"
    by (rule touches_mono [OF touches_ProcessFdQueue_body [OF x(1)]]) (auto simp: owned_def)
  have sub: "set (owned [] x) \<subseteq> set (owned [] (xs_x st))"
    using x(3-5) Cons by (auto simp: owned_def)
  have "sysinv E (st\<lparr>xs_x := x, xs_fdAlive := ProcessFdQueue_test x\<rparr>)"
    using x(7) by (intro sysinv_frame [OF assms(1) tt x(2) sub]) (auto simp: ProcessFdQueue_test_def)
  with x(1) show ?thesis by (intro exI [of _ True] exI [of _ x]) simp
qed

lemma stop_ok:
  assumes "sysinv E st"
  shows "ix_state (xs_x st) = RUNNING \<Longrightarrow> sysinv E (st\<lparr>xs_x := stop_intake (xs_x st)\<rparr>)"
    and "ix_state (xs_x st) = NO_MORE_INTAKE \<Longrightarrow> sysinv E (st\<lparr>xs_x := stop_final (xs_x st)\<rparr>)"
proof -
  have c: "cf_noSubmitterThread (ix_config (xs_x st))" using assms by (simp add: sysinv_def)
  assume r: "ix_state (xs_x st) = RUNNING"
  have xi: "xinv E (xs_acc st) [] 0 (stop_intake (xs_x st))"
    using assms r c by (auto simp: sysinv_def xinv_defs owned_def ctx_slack_def stop_intake_def Let_def)
  show "sysinv E (st\<lparr>xs_x := stop_intake (xs_x st)\<rparr>)"
    by (rule sysinv_frame [OF assms _ xi])
      (use c assms in \<open>simp_all add: touches_def owned_def stop_intake_def Let_def sysinv_def\<close>)
next
  have c: "cf_noSubmitterThread (ix_config (xs_x st))" using assms by (simp add: sysinv_def)
  assume r: "ix_state (xs_x st) = NO_MORE_INTAKE"
  have xi: "xinv E (xs_acc st) [] 0 (stop_final (xs_x st))"
    using assms r c by (auto simp: sysinv_def xinv_defs owned_def ctx_slack_def stop_final_def)
  show "sysinv E (st\<lparr>xs_x := stop_final (xs_x st)\<rparr>)"
    by (rule sysinv_frame [OF assms _ xi])
      (use assms in \<open>simp_all add: touches_def owned_def stop_final_def sysinv_def\<close>)
qed

text \<open>No enabled action faults, and each keeps the invariant.\<close>

lemma exec_action_ok:
  assumes "sysinv E st" "action_ok a st" "exec_action E a st = Some r"
  shows "\<exists>st'. r = Inr st' \<and> sysinv E st'"
proof (cases a)
  case (ANew p j)
  then show ?thesis using assms ANew_ok [OF assms(1)] by (auto split: if_splits)
next
  case (ADelete p)
  then show ?thesis using assms(3) ADelete_ok [OF assms(1), of p] by (auto split: if_splits)
next
  case (ABegin b p)
  then show ?thesis using assms(2,3) ABegin_ok [OF assms(1), of p b] by (auto split: if_splits)
next
  case (APauseFd p)
  then show ?thesis using assms(3) APauseFd_ok [OF assms(1), of p] by (auto split: if_splits)
next
  case (APauseRequest p)
  then show ?thesis using assms(3) APauseRequest_ok [OF assms(1), of p] by (auto split: if_splits)
next
  case (AResumeFd p)
  then show ?thesis using assms(2,3) AResumeFd_ok [OF assms(1), of p] by (auto split: if_splits)
next
  case (AResumeRequest p)
  then show ?thesis using assms(2,3) AResumeRequest_ok [OF assms(1), of p] by (auto split: if_splits)
next
  case (AProcess io_submit)
  then show ?thesis using assms(2,3) AProcess_ok [OF assms(1), of io_submit "xs_procs st - 1"] by (auto split: if_splits)
next
  case (AEvents n chunks)
  then show ?thesis using assms(2,3) AEvents_ok [OF assms(1), of n chunks "\<lambda>_ _. 0"]
    by (auto split: if_splits simp del: action_ok.simps)
next
  case (AFd unlink_err pw)
  then show ?thesis using assms(3) AFd_ok [OF assms(1), of unlink_err pw] by (auto split: if_splits)
next
  case AStopIntake
  then show ?thesis using assms(3) stop_ok(1) [OF assms(1)] by (auto split: if_splits)
next
  case AStopFinal
  then show ?thesis using assms(3) stop_ok(2) [OF assms(1)] by (auto split: if_splits)
next
  case (AShutdownEvent io_submit)
  then show ?thesis using assms(2,3) AShutdownEvent_ok [OF assms(1), of io_submit] by (auto split: if_splits)
qed

interpretation ioexec: invariant_system "xsys_init E" "xstep E" "sysinv E" for E
proof unfold_locales
  show "sysinv E st" if "xsys_init E st" for st using that by (rule sysinv_init)
  show "sysinv E st'" if "sysinv E st" "xstep E st st'" for st st'
    using that(2,1) exec_action_ok by (cases rule: xstep.cases) blast
qed

end
