(* ===== verification/IO_Executor_Safety.thy ===== *)
theory IO_Executor_Safety
  imports IO_Executor_System
begin

text \<open>
  What the invariant of the executor gives in every reachable state: no fault, exactly one
  notification per accepted request, counters that agree with the queues, and when the threads can
  end.
\<close>

section \<open>Safety of every interleaving\<close>

text \<open>Below \<open>2 ^ 32\<close> accepted jobs the two 64-bit counters count exactly.\<close>

lemma count_words:
  assumes "count_ok acc H s"
  shows "unat (ss_numQueued (ix_stats s)) = length acc"
    and "unat (ss_numCompleted (ix_stats s)) = length (ix_notified s)"
proof -
  have n: "unat (of_nat k :: 64 word) = k" if "k < 2 ^ 32" for k
    using that by (simp add: unat_of_nat)
  have b: "length acc < 2 ^ 32" "length (ix_notified s) < 2 ^ 32"
    using assms count_ok_owned [OF assms] unfolding count_ok_def by linarith+
  have "ss_numQueued (ix_stats s) = of_nat (length acc)" "ss_numCompleted (ix_stats s) = of_nat (length (ix_notified s))"
    using assms by (simp_all add: count_ok_def)
  with n [OF b(1)] n [OF b(2)] show "unat (ss_numQueued (ix_stats s)) = length acc"
    "unat (ss_numCompleted (ix_stats s)) = length (ix_notified s)" by simp_all
qed


text \<open>A concrete executor, used by the witnesses.\<close>

definition demo_config :: Config where
  "demo_config = Config_depth 10"

definition demo_iox :: iox where
  "demo_iox = (case IOExecutor_new 3 0 4 0 True demo_config of Inr x \<Rightarrow> x | Inl _ \<Rightarrow> undefined)"

definition demo_job :: FilerJob where
  "demo_job = setBuffer 0 4096 512 (FilerJob_blank\<lparr>fj_op := Read, fj_fd := 5, fj_completionFd := 6, fj_completionId := 77,
     fj_canBeFreed := True\<rparr>)"

lemma demo_iox_new: "IOExecutor_new 3 0 4 0 True demo_config = Inr demo_iox"
  by (simp add: demo_iox_def IOExecutor_new_def)

lemma demo_init: "xsys_init tick_env (xsys_start demo_iox)"
proof -
  have "0 \<le> sint (cf_queueDepth demo_config)" "cf_noSubmitterThread demo_config"
    by (simp_all add: demo_config_def Config_depth_def setDerivedParam_def)
  then show ?thesis unfolding xsys_init_def using demo_iox_new tick_env_ok
    by (intro conjI exI [of _ 3] exI [of _ 4] exI [of _ demo_config] exI [of _ demo_iox]) auto
qed

lemma demo_reach: "reach (xsys_init tick_env) (xstep tick_env) (xsys_start demo_iox)"
  by (rule reach_init [of "xsys_init tick_env", OF demo_init])

lemma demo_job_new: "new_job demo_job"
proof -
  have "RoundToNext512 512 = (512 :: 64 word)"
    by (simp add: RoundToNext512_def DirectIOSize_def)
  then show ?thesis
    by (simp add: demo_job_def new_job_def rw_op_def job_fresh_def FilerJob_blank_def setBuffer_def)
qed






section \<open>Shutdown\<close>



text \<open>An action never takes a job out of the fd queue once the fd thread has left its loop.\<close>

lemma submit_fdQueue:
  "stamp_job E p s = Inr s' \<Longrightarrow> ix_fdQueue s' = ix_fdQueue s"
  "submit_fd E p s = Inr (ph, s') \<Longrightarrow> set (ix_fdQueue s) \<subseteq> set (ix_fdQueue s')"
  "submit_request E p s = Inr (ph, s') \<Longrightarrow> ix_fdQueue s' = ix_fdQueue s"
proof -
  show st: "stamp_job E p s = Inr s' \<Longrightarrow> ix_fdQueue s' = ix_fdQueue s" for s s'
    by (auto simp: stamp_job_def rbind_eq_Inr put_job_def)
  show "submit_fd E p s = Inr (ph, s') \<Longrightarrow> set (ix_fdQueue s) \<subseteq> set (ix_fdQueue s')"
    using st by (fastforce simp: submit_fd_def rbind_eq_Inr Let_def)
  show "submit_request E p s = Inr (ph, s') \<Longrightarrow> ix_fdQueue s' = ix_fdQueue s"
    using st by (fastforce simp: submit_request_def rbind_eq_Inr Let_def)
qed

lemma begin_fdQueue:
  assumes "submitTask_begin E b p s = Inr (ph, s')"
  shows "set (ix_fdQueue s) \<subseteq> set (ix_fdQueue s')"
proof -
  have f: "ix_fdQueue (put_job p j s) = ix_fdQueue s" "ix_fdQueue (count_full s) = ix_fdQueue s" for j s
    by (simp_all add: put_job_def count_full_def)
  consider "s' = s" | j j' where "s' = put_job p j' (put_job p j s)" | j where "s' = put_job p j s"
    | j where "s' = count_full (put_job p j s)" | j where "submit_fd E p (put_job p j s) = Inr (ph, s')"
    | j where "submit_request E p (put_job p j s) = Inr (ph, s')"
  proof (cases "ix_state s = RUNNING")
    case False
    with assms that(1) show ?thesis by (simp add: submitTask_begin_def)
  next
    case True
    with assms obtain j where "get_job p s = Inr j"
      unfolding submitTask_begin_def by (auto simp: rbind_eq_Inr)
    note g = this
    define j1 where "j1 = (if \<not> IsDirectIOAligned (fj_userSize j) \<and> fj_op j = Write then j\<lparr>fj_op := NonAlignedWrite\<rparr> else j)"
    from assms True g show ?thesis
      unfolding submitTask_begin_def Let_def j1_def [symmetric] using that
      by (auto split: if_splits simp del: put_job_def)
  qed
  then show ?thesis
  proof cases
    case (5 j)
    from submit_fdQueue(2) [OF this] show ?thesis by (simp add: f)
  next
    case (6 j)
    from submit_fdQueue(3) [OF this] show ?thesis by (simp add: f)
  qed (simp_all add: f)
qed

lemma fd_thread_gone:
  assumes "sysinv E st" "xstep E st st'" "\<not> xs_fdAlive st" "p \<in> set (ix_fdQueue (xs_x st))"
  shows "\<not> xs_fdAlive st' \<and> p \<in> set (ix_fdQueue (xs_x st'))"
  using assms(2)
proof cases
  case (xstepI a)
  have after: "xs_fdAlive (after_submit q tag ph x s) = xs_fdAlive s" "xs_x (after_submit q tag ph x s) = x" for q tag ph x s
    by (cases ph; simp add: after_submit_def)+
  show ?thesis
  proof (cases a)
    case (ABegin b q)
    with xstepI(2) obtain ph x where x: "submitTask_begin E b q (xs_x st) = Inr (ph, x)" "xs_x st' = x" "xs_fdAlive st' = xs_fdAlive st"
      by (auto simp: rbind_eq_Inr after split: if_splits)
    with begin_fdQueue [OF x(1)] assms(3,4) show ?thesis by auto
  next
    case (AResumeFd q)
    let ?x = "(xs_x st)\<lparr>ix_fdWoken := remove1 q (ix_fdWoken (xs_x st)), ix_fdWaiters := remove1 q (ix_fdWaiters (xs_x st))\<rparr>"
    from AResumeFd xstepI(2) obtain ph x where x: "submit_fd E q ?x = Inr (ph, x)" "xs_x st' = x" "xs_fdAlive st' = xs_fdAlive st"
      by (auto simp: rbind_eq_Inr after split: if_splits)
    with submit_fdQueue(2) [OF x(1)] assms(3,4) show ?thesis by auto
  next
    case (AResumeRequest q)
    let ?x = "(xs_x st)\<lparr>ix_requestWoken := remove1 q (ix_requestWoken (xs_x st)),
      ix_requestWaiters := remove1 q (ix_requestWaiters (xs_x st))\<rparr>"
    from AResumeRequest xstepI(2) obtain ph x where
      x: "submit_request E q ?x = Inr (ph, x)" "xs_x st' = x" "xs_fdAlive st' = xs_fdAlive st"
      by (auto simp: rbind_eq_Inr after split: if_splits)
    with submit_fdQueue(3) [OF x(1)] assms(3,4) show ?thesis by auto
  next
    case (AProcess io_submit)
    from AProcess xstepI(2) obtain x where x: "submitTask_process E io_submit (xs_x st) = Inr x" "xs_x st' = x"
        "xs_fdAlive st' = xs_fdAlive st"
      by (auto simp: rbind_eq_Inr split: if_splits)
    have "ix_fdQueue x = ix_fdQueue (xs_x st)"
      using submitTask_process_effect [OF assms(1) _ x(1)] AProcess xstepI
      by (auto simp: prq_result_def split: if_splits)
    with x assms(3,4) show ?thesis by simp
  next
    case (AShutdownEvent io_submit)
    have inv: "env_ok E" "xinv E (xs_acc st) [] 0 (xs_x st)" using assms(1) by (auto simp: sysinv_def)
    have ok: "takes_all io_submit" "ix_ctxCond (xs_x st) > 0" using AShutdownEvent xstepI by (auto split: if_splits)
    from AShutdownEvent xstepI(2) obtain n x where x: "ProcessRequestQueue E io_submit (xs_x st) = Inr (n, x)" "xs_x st' = x"
        "xs_fdAlive st' = xs_fdAlive st"
      by (auto simp: rbind_eq_Inr completion_event_def split: if_splits)
    have "ix_fdQueue x = ix_fdQueue (xs_x st)"
      using x(1) ProcessRequestQueue_ok [OF inv(1) ok(1) inv(2) ok(2)] by (auto simp: prq_result_def)
    with x assms(3,4) show ?thesis by simp
  next
    case (AEvents n chunks)
    have inv: "env_ok E" "xinv E (xs_acc st) [] 0 (xs_x st)" using assms(1) by (auto simp: sysinv_def)
    obtain evs where evs: "getevents n [] chunks = Some evs" "length evs = n" "n > 0" "distinct (map fst evs)"
        "set (map fst evs) \<subseteq> set (ix_inflight (xs_x st))"
      using AEvents xstepI(1) by (auto split: option.splits)
    from AEvents xstepI(2) obtain x where x: "completion_event E (\<lambda>_ _. 0) (EvCtx n chunks) (xs_x st) = Inr x" "xs_x st' = x"
        "xs_fdAlive st' = xs_fdAlive st"
      by (auto simp: rbind_eq_Inr split: if_splits)
    with EvCtx_ok [OF inv evs, of "\<lambda>_ _. 0"] assms(3,4) show ?thesis by auto
  qed (use xstepI(2) assms(3,4) in \<open>auto simp: put_job_def wakeup_ctxCond_def stop_intake_def stop_final_def Let_def split: if_splits\<close>)
qed

text \<open>
  C34. A job left in the fd queue when the fd thread has exited is never run, and \<open>stop\<close> never
  returns: \<open>stop\<close> makes the fd thread leave its loop after at most one more job, and in every later
  state the abandoned job is still queued, so the completion thread cannot leave its loop and the
  join in \<open>stop\<close> blocks.
\<close>

theorem stop_hangs_with_queued_fd_jobs:
  assumes "reach (xsys_init E) (xstep E) st" "\<not> xs_fdAlive st" "p \<in> set (ix_fdQueue (xs_x st))"
    and "(xstep E)\<^sup>*\<^sup>* st st'"
  shows "p \<in> set (ix_fdQueue (xs_x st')) \<and> (\<exists>msg. stop_done (xs_x st') = Inl (Blocked msg))"
proof -
  have "reach (xsys_init E) (xstep E) st' \<and> \<not> xs_fdAlive st' \<and> p \<in> set (ix_fdQueue (xs_x st'))"
    using assms(4)
  proof (induction rule: rtranclp_induct)
    case base
    then show ?case using assms(1-3) by simp
  next
    case (step y z)
    then show ?case using fd_thread_gone [OF ioexec.inv_reach, of E y z p] reach_step [of "xsys_init E" "xstep E" y z] by blast
  qed
  then have r: "reach (xsys_init E) (xstep E) st'" and p: "p \<in> set (ix_fdQueue (xs_x st'))" by auto
  have "sysinv E st'" using ioexec.inv_reach [OF r] .
  then have c: "count_ok (xs_acc st') [] (xs_x st')" by (simp add: sysinv_def xinv_def)
  have "owned [] (xs_x st') \<noteq> []" using p by (auto simp: owned_def)
  then have "ss_numQueued (ix_stats (xs_x st')) \<noteq> ss_numCompleted (ix_stats (xs_x st'))"
    unfolding word_unat_eq_iff count_words [OF c] using count_ok_owned [OF c] by simp
  then show ?thesis using p by (simp add: stop_done_def ProcessCompletions_done_def)
qed

text \<open>Two deletions are queued when \<open>stop\<close> is called; the fd thread runs only the first.\<close>

definition demo_delete :: FilerJob where
  "demo_delete = (FilerJob_file ''data/f'' Delete)\<lparr>fj_completionFd := 6, fj_canBeFreed := True\<rparr>"

fun exec_actions :: "sysenv \<Rightarrow> action list \<Rightarrow> xsys \<Rightarrow> xsys option" where
  "exec_actions E [] st = Some st"
| "exec_actions E (a # as) st = (case exec_action E a st of Some (Inr st') \<Rightarrow> exec_actions E as st' | _ \<Rightarrow> None)"

fun run_ok :: "sysenv \<Rightarrow> action list \<Rightarrow> xsys \<Rightarrow> bool" where
  "run_ok E [] st = True"
| "run_ok E (a # as) st = (action_ok a st \<and> (case exec_action E a st of Some (Inr st') \<Rightarrow> run_ok E as st' | _ \<Rightarrow> False))"

lemma run_reach:
  "reach (xsys_init E) (xstep E) st \<Longrightarrow> run_ok E as st \<Longrightarrow> exec_actions E as st = Some st' \<Longrightarrow>
    reach (xsys_init E) (xstep E) st'"
proof (induction as arbitrary: st)
  case (Cons a as)
  then obtain st1 where st1: "exec_action E a st = Some (Inr st1)" "run_ok E as st1" "exec_actions E as st1 = Some st'" "action_ok a st"
    by (auto split: option.splits sum.splits)
  show ?case by (rule Cons.IH [OF reach_step [OF Cons.prems(1) xstepI [OF st1(4,1)]] st1(2,3)])
qed simp

lemmas demo_eval = demo_iox_def IOExecutor_new_def demo_config_def Config_depth_def setDerivedParam_def xsys_start_def
  FilerCtx_init_def FilerCtx_blank_def SemaphoreWrapper_init_def submitTask_begin_def get_job_def put_job_def
  submit_fd_def submit_request_def stamp_job_def setSubmitTime_def after_submit_def Let_def stop_intake_def tag_of_def
  demo_delete_def FilerJob_file_def FilerJob_blank_def new_job_def fd_op_def job_fresh_def

definition demo_stop :: "action list" where
  "demo_stop = [ANew 1 demo_delete, ABegin False 1, ANew 2 demo_delete, ABegin False 2, AStopIntake]"

lemma demo_stop_run: "run_ok tick_env demo_stop (xsys_start demo_iox)"
  by (simp add: demo_stop_def demo_eval)

lemma demo_stop_state:
  "\<exists>st. exec_actions tick_env demo_stop (xsys_start demo_iox) = Some st \<and> ix_fdQueue (xs_x st) = [1, 2] \<and>
    ix_state (xs_x st) = NO_MORE_INTAKE \<and> xs_fdAlive st \<and> ix_fdQueueCond (xs_x st) > 0"
  by (simp add: demo_stop_def demo_eval)

theorem stop_hangs_with_queued_fd_jobs_witness:
  "\<exists>st. reach (xsys_init tick_env) (xstep tick_env) st \<and> ix_state (xs_x st) = NO_MORE_INTAKE \<and>
    (\<forall>st'. (xstep tick_env)\<^sup>*\<^sup>* st st' \<longrightarrow> (\<exists>msg. stop_done (xs_x st') = Inl (Blocked msg)))"
proof -
  obtain st where st: "exec_actions tick_env demo_stop (xsys_start demo_iox) = Some st" "ix_fdQueue (xs_x st) = [1, 2]"
      "ix_state (xs_x st) = NO_MORE_INTAKE" "xs_fdAlive st" "ix_fdQueueCond (xs_x st) > 0"
    using demo_stop_state by blast
  have r: "reach (xsys_init tick_env) (xstep tick_env) st" by (rule run_reach [OF demo_reach demo_stop_run st(1)])
  then have inv: "sysinv tick_env st" by (rule ioexec.inv_reach)
  then have "env_ok tick_env" "xinv tick_env (xs_acc st) [] 0 (xs_x st)" by (auto simp: sysinv_def)
  from ProcessFdQueue_body_ok [OF this st(2), of 0 "(0, 0)"] obtain x where
    x: "ProcessFdQueue_body tick_env 0 (0, 0) (xs_x st) = Inr (True, x)" "ix_fdQueue x = [2]" "ix_state x = NO_MORE_INTAKE"
    using st(3) by auto
  let ?st = "st\<lparr>xs_x := x, xs_fdAlive := False\<rparr>"
  have "exec_action tick_env (AFd 0 (0, 0)) st = Some (Inr ?st)"
    using x st(4,5) by (simp add: ProcessFdQueue_test_def)
  then have "reach (xsys_init tick_env) (xstep tick_env) ?st"
    using reach_step [OF r xstepI [of "AFd 0 (0, 0)"]] by simp
  with stop_hangs_with_queued_fd_jobs [of tick_env ?st 2] x show ?thesis
    by (intro exI [of _ ?st]) simp
qed

end
