(* ===== verification/IO_Executor_Behaviour.thy ===== *)
theory IO_Executor_Behaviour
  imports IO_Executor_Safety
begin

text \<open>
  What the operations of the executor do, branch by branch: the order and outcome of the request
  queue and of completion events, and the situations in which the code does not do what it means
  to (hard errors and partial submissions of \<open>io_submit\<close>, sync jobs, short writes, waiting threads,
  failed initialisation, shutdown with all contexts in flight).
\<close>

section \<open>The request queue\<close>

lemma prq_pause:
  "ix_ctxCond s > 0 \<Longrightarrow> ProcessRequestQueue E io_submit s =
     rbind (drain E (ix_requestQueue s) [] s) (\<lambda>(cbs, s1).
     if cbs = [] then Inr (0, s1)
     else
       rbind (try_submit E io_submit 5 cbs s1) (\<lambda>(rest, s2).
       rbind (if rest = [] then Inr s2
              else
                rbind (rfold (\<lambda>cb. finish_job E (- EINVAL) (cb_data cb)) rest s2) (\<lambda>s3.
                rbind (on_ctx (incrementNumAvailable (int (length rest))) s3) (\<lambda>s4.
                Inr (wakeup_ctxCond (length rest) s4)))) (\<lambda>s5.
       Inr (int (length cbs) - int (length rest),
            if ix_requestQueueSize s5 < sint (cf_maxRequestQueueSize (ix_config s5))
            then wakeup_requestQueueHasSpace s5 else s5))))"
  by (simp add: ProcessRequestQueue_def pause_ctxCond_def wakeup_ctxCond_def)

lemma drain_start:
  assumes "env_ok E" "xinv E acc [] 0 s" "cx_numAvailable (ix_ctx s) > 0" "ix_requestQueue s = p # q"
  shows "\<exists>cb cs s1. drain E (ix_requestQueue s) [] s = Inr (cb # cs, s1) \<and> xinv E acc (map cb_data (cb # cs)) 0 s1 \<and>
    cb_data cb = p \<and> drain_frame s s1"
proof -
  obtain cbs s1 where s1: "drain E (ix_requestQueue s) [] s = Inr (cbs, s1)" "xinv E acc (map cb_data cbs) 0 s1"
      "map cb_data cbs @ ix_requestQueue s1 = p # q" "drain_frame s s1"
      "ix_requestQueue s1 = [] \<or> FilerCtx_isEmpty (ix_ctx s1)"
    using drain_ok [OF assms(1), of acc "[]" s] assms(2,4) by auto
  have "cbs \<noteq> []"
  proof
    assume "cbs = []"
    then have "FilerCtx_isEmpty (ix_ctx s1)" using s1(3,5) by auto
    moreover have "cx_numAvailable (ix_ctx s1) = cx_numAvailable (ix_ctx s)"
      using s1(2,4) assms(2) \<open>cbs = []\<close> by (simp add: drain_frame_def xinv_def ctx_ok_def)
    ultimately show False using assms(3) by (simp add: FilerCtx_isEmpty_def)
  qed
  with s1 show ?thesis by (cases cbs) auto
qed

lemma drain_whole:
  assumes "env_ok E" "xinv E acc [] 0 s" "int (length (ix_requestQueue s)) \<le> cx_numAvailable (ix_ctx s)"
  shows "\<exists>cbs s1. drain E (ix_requestQueue s) [] s = Inr (cbs, s1) \<and> map cb_data cbs = ix_requestQueue s \<and>
    ix_inflight s1 = ix_inflight s \<and> cx_ioQueueDepth (ix_ctx s1) = cx_ioQueueDepth (ix_ctx s) \<and>
    cx_numAvailable (ix_ctx s1) + int (length (ix_inflight s)) + int (length cbs) = cx_ioQueueDepth (ix_ctx s)"
proof -
  obtain cbs s1 where s1: "drain E (ix_requestQueue s) [] s = Inr (cbs, s1)" "xinv E acc (map cb_data cbs) 0 s1"
      "map cb_data cbs @ ix_requestQueue s1 = ix_requestQueue s" "drain_frame s s1"
      "ix_requestQueue s1 = [] \<or> FilerCtx_isEmpty (ix_ctx s1)"
    using drain_ok [OF assms(1), of acc "[]" s] assms(2) by auto
  have dep: "cx_ioQueueDepth (ix_ctx s1) = cx_ioQueueDepth (ix_ctx s)" "ix_inflight s1 = ix_inflight s"
    using s1(4) by (simp_all add: drain_frame_def)
  have bal: "cx_numAvailable (ix_ctx s1) + int (length (ix_inflight s)) + int (length cbs) = cx_ioQueueDepth (ix_ctx s)"
      "cx_numAvailable (ix_ctx s) + int (length (ix_inflight s)) = cx_ioQueueDepth (ix_ctx s)"
    using s1(2) dep assms(2) by (simp_all add: xinv_def ctx_ok_def)
  have "ix_requestQueue s1 = []"
  proof (rule ccontr)
    assume ne: "ix_requestQueue s1 \<noteq> []"
    then have "int (length cbs) = cx_numAvailable (ix_ctx s)" using s1(5) bal by (simp add: FilerCtx_isEmpty_def)
    moreover have "length cbs + length (ix_requestQueue s1) = length (ix_requestQueue s)"
      using arg_cong [OF s1(3), of length] by simp
    moreover have "length (ix_requestQueue s1) > 0" using ne by simp
    ultimately show False using assms(3) by linarith
  qed
  with s1 dep bal show ?thesis by auto
qed

lemma try_submit_all:
  "cbs \<noteq> [] \<Longrightarrow> io_submit n cbs = int (length cbs) \<Longrightarrow> try_submit E io_submit (Suc n) cbs s =
    Inr ([], s\<lparr>ix_stats := (ix_stats s)\<lparr>ss_numSubmitted := ss_numSubmitted (ix_stats s) + word_of_int (int (length cbs))\<rparr>,
               ix_inflight := ix_inflight s @ map cb_data cbs\<rparr>)"
  by (simp add: Let_def)

text \<open>With enough contexts and a kernel that takes the batch at once, the whole queue is in flight.\<close>

lemma prq_all:
  assumes "env_ok E" "xinv E acc [] 0 s" "ix_ctxCond s > 0" "int (length (ix_requestQueue s)) \<le> cx_numAvailable (ix_ctx s)"
    and "ix_requestQueue s \<noteq> []" "takes_all io_submit" "\<And>cbs. io_submit 4 cbs = int (length cbs)"
  shows "\<exists>s'. ProcessRequestQueue E io_submit s = Inr (int (length (ix_requestQueue s)), s') \<and> xinv E acc [] 0 s' \<and>
    ix_inflight s' = ix_inflight s @ ix_requestQueue s \<and> cx_ioQueueDepth (ix_ctx s') = cx_ioQueueDepth (ix_ctx s)"
proof -
  obtain cbs s1 where s1: "drain E (ix_requestQueue s) [] s = Inr (cbs, s1)" "map cb_data cbs = ix_requestQueue s"
      "ix_inflight s1 = ix_inflight s" "cx_ioQueueDepth (ix_ctx s1) = cx_ioQueueDepth (ix_ctx s)"
    using drain_whole [OF assms(1,2,4)] by blast
  have ne: "cbs \<noteq> []" using assms(5) s1(2) by auto
  obtain s2 where s2: "try_submit E io_submit (Suc 4) cbs s1 = Inr ([], s2)" "ix_inflight s2 = ix_inflight s1 @ map cb_data cbs"
      "ix_ctx s2 = ix_ctx s1"
    using try_submit_all [OF ne, of io_submit 4] assms(7) by simp
  have p: "\<exists>s'. ProcessRequestQueue E io_submit s = Inr (int (length cbs), s') \<and> ix_inflight s' = ix_inflight s2 \<and>
      ix_ctx s' = ix_ctx s2"
    unfolding prq_pause [OF assms(3)] using s1(1) s2(1) ne by (simp add: wakeup_requestQueueHasSpace_def)
  have "length cbs = length (ix_requestQueue s)" using arg_cong [OF s1(2), of length] by simp
  with p ProcessRequestQueue_ok [OF assms(1,6,2,3)] s2(2,3) s1(2,3,4) show ?thesis by auto
qed


text \<open>A reachable state with one read in the request queue.\<close>

definition demo_read :: "action list" where
  "demo_read = [ANew 1 demo_job, ABegin False 1]"

lemma demo_size: "RoundToNext512 512 = (512 :: 64 word)" "IsDirectIOAligned 512"
  by (simp_all add: RoundToNext512_def DirectIOSize_def IsDirectIOAligned_def)

lemmas demo_read_eval = demo_eval demo_job_def rw_op_def setBuffer_def demo_size

lemma demo_read_run: "run_ok tick_env demo_read (xsys_start demo_iox)"
  by (simp add: demo_read_def demo_read_eval)

lemma demo_read_state:
  "\<exists>st. exec_actions tick_env demo_read (xsys_start demo_iox) = Some st \<and> ix_requestQueue (xs_x st) = [1] \<and>
    ix_ctxCond (xs_x st) = 10 \<and> ix_inflight (xs_x st) = [] \<and> cx_numAvailable (ix_ctx (xs_x st)) = 10 \<and>
    xs_procs st = 1 \<and> (\<exists>j. ix_jobs (xs_x st) 1 = Some j \<and> fj_canBeFreed j)"
  by (simp add: demo_read_def demo_read_eval)

lemma demo_read_inv:
  "\<exists>s acc. xinv tick_env acc [] 0 s \<and> ix_requestQueue s = [1] \<and> ix_ctxCond s = 10 \<and> ix_inflight s = [] \<and>
    cx_numAvailable (ix_ctx s) = 10 \<and> (\<exists>j. ix_jobs s 1 = Some j \<and> fj_canBeFreed j)"
proof -
  obtain st where st: "exec_actions tick_env demo_read (xsys_start demo_iox) = Some st" "ix_requestQueue (xs_x st) = [1]"
      "ix_ctxCond (xs_x st) = 10" "ix_inflight (xs_x st) = []" "cx_numAvailable (ix_ctx (xs_x st)) = 10"
      "\<exists>j. ix_jobs (xs_x st) 1 = Some j \<and> fj_canBeFreed j"
    using demo_read_state by blast
  from ioexec.inv_reach [OF run_reach [OF demo_reach demo_read_run st(1)]] have "xinv tick_env (xs_acc st) [] 0 (xs_x st)"
    by (simp add: sysinv_def)
  with st(2-6) show ?thesis by blast
qed


text \<open>
  C17. Each event the completion thread gets is answered by one status record with the right code:
  minus the errno if the kernel reports an error, EIO if the size is neither the requested nor the
  rounded one, and 0 otherwise; the request leaves the kernel, its context becomes free, the
  other requests are untouched.
\<close>

theorem completion_events_notify:
  assumes "env_ok E" "xinv E acc [] 0 s" "getevents n [] chunks = Some evs" "length evs = n" "n > 0"
    and "distinct (map fst evs)" "set (map fst evs) \<subseteq> set (ix_inflight s)"
  shows "\<exists>s'. completion_event E io_submit (EvCtx n chunks) s = Inr s' \<and> xinv E acc [] 0 s' \<and>
    ix_inflight s' = fold remove1 (map fst evs) (ix_inflight s) \<and>
    cx_numAvailable (ix_ctx s') = cx_numAvailable (ix_ctx s) + int n \<and>
    notifies (map fst evs) (map (\<lambda>(p, res).
       if sint res < 0 then sint (ucast res :: 32 word)
       else if res \<noteq> fj_userSize (the (ix_jobs s p)) \<and> res \<noteq> fj_size (the (ix_jobs s p)) then - EIO else 0) evs) s s'"
proof -
  obtain s' where s': "completion_event E io_submit (EvCtx n chunks) s = Inr s'" "xinv E acc [] 0 s'"
      "ix_inflight s' = fold remove1 (map fst evs) (ix_inflight s)" "cx_ioQueueDepth (ix_ctx s') = cx_ioQueueDepth (ix_ctx s)"
      "notifies (map fst evs) (map (\<lambda>ev. callback_retcode (the (ix_jobs s (fst ev))) (snd ev)) evs) s s'"
    using EvCtx_ok [OF assms] by blast
  have "length (ix_inflight s) = length (ix_inflight s') + n"
    using mset_remove1_held(2) [OF assms(6,7)] assms(4) s'(3) by simp
  then have "cx_numAvailable (ix_ctx s') = cx_numAvailable (ix_ctx s) + int n"
    using s'(2,4) assms(2) by (simp add: xinv_def ctx_ok_def)
  with s' show ?thesis by (simp add: callback_retcode_def case_prod_unfold)
qed

theorem completion_events_notify_witness:
  "\<exists>s s'. ix_inflight s = [1] \<and> completion_event tick_env (\<lambda>_ _. 0) (EvCtx 1 [[(1, 512)]]) s = Inr s' \<and> ix_inflight s' = []"
proof -
  obtain s acc where s: "xinv tick_env acc [] 0 s" "ix_requestQueue s = [1]" "ix_ctxCond s = 10" "ix_inflight s = []"
      "cx_numAvailable (ix_ctx s) = 10"
    using demo_read_inv by blast
  have "takes_all (\<lambda>_ cbs. int (length cbs))" by (simp add: takes_all_def)
  then obtain s1 where "xinv tick_env acc [] 0 s1" "ix_inflight s1 = [1]"
    using prq_all [OF tick_env_ok s(1), of "\<lambda>_ cbs. int (length cbs)"] s(2-5) by auto
  from completion_events_notify [OF tick_env_ok this(1), of 1 "[[(1, 512)]]" "[(1, 512)]" "\<lambda>_ _. 0"] this(2)
  show ?thesis by auto
qed

section \<open>Where the retry loop goes wrong\<close>

text \<open>
  C35. A hard error of \<open>io_submit\<close> is a use after free. If the kernel refuses a batch with anything but
  EINTR or EAGAIN, the error branch post-processes every job of the batch, which deletes those that
  can be freed, and leaves \<open>numRemaining\<close> unchanged; the code after the loop then writes the return
  code of the first of them again.
\<close>

theorem hard_error_use_after_free:
  assumes "env_ok E" "xinv E acc [] 0 s" "ix_ctxCond s > 0" "cx_numAvailable (ix_ctx s) > 0" "ix_requestQueue s = p # q"
    and "ix_jobs s p = Some j" "fj_canBeFreed j"
    and "ret < 0" "ret \<noteq> - EINTR" "ret \<noteq> - EAGAIN" "\<forall>n cbs. io_submit n cbs = ret"
  shows "ProcessRequestQueue E io_submit s = Inl (UseAfterFree p)"
proof -
  obtain cb cs s1 where s1: "drain E (ix_requestQueue s) [] s = Inr (cb # cs, s1)" "xinv E acc (map cb_data (cb # cs)) 0 s1"
      "cb_data cb = p" "drain_frame s s1"
    using drain_start [OF assms(1,2,4,5)] by blast
  have "map_option fj_canBeFreed (ix_jobs s1 p) = map_option fj_canBeFreed (ix_jobs s p)"
    using s1(4) by (simp add: drain_frame_def)
  then obtain j1 where j1: "ix_jobs s1 p = Some j1" "fj_canBeFreed j1"
    using assms(6,7) by auto
  obtain s2 where s2: "finish_job E ret p s1 = Inr s2" "xinv E acc (map cb_data cs) 1 s2" "job_finished ret p j1 s1 s2"
    using finish_held [OF assms(1), of acc p "map cb_data cs" 0 s1 ret] s1(2,3) j1(1) by auto
  obtain s3 where s3: "rfold (\<lambda>cb. finish_job E ret (cb_data cb)) cs s2 = Inr s3" "xinv E acc [] (0 + length (cb # cs)) s3"
    using finish_all [OF assms(1), of acc cb_data cs "[]" 1 s2 "\<lambda>_. ret"] s2(2) by auto
  have np: "p \<notin> cb_data ` set cs" using s1(2,3) by (auto simp: xinv_def heap_ok_def owned_def)
  have "touches (cb_data ` set cs) s2 s3" by (rule touches_finish_list [OF s3(1)]) simp
  moreover have "ix_jobs s2 p = None" using s2(3) j1(2) by (auto simp: job_finished_def)
  ultimately have gone: "ix_jobs s3 p = None" using np by (simp add: touches_def)
  obtain s4 where s4: "on_ctx (incrementNumAvailable (int (length (cb # cs)))) s3 = Inr s4"
      "ix_jobs (wakeup_ctxCond (length (cb # cs)) s4) = ix_jobs s3"
    using credit_ok [OF s3(2)] by blast
  have "rfold (\<lambda>cb. finish_job E ret (cb_data cb)) (cb # cs) s1 = Inr s3"
    using s2(1) s3(1) s1(3) by simp
  then have "try_submit E io_submit 5 (cb # cs) s1 = Inr (cb # cs, wakeup_ctxCond (length (cb # cs)) s4)"
    using assms(8-11) s4(1) by (simp add: eval_nat_numeral Let_def)
  moreover have "finish_job E (- EINVAL) p (wakeup_ctxCond (length (cb # cs)) s4) = Inl (UseAfterFree p)"
    using gone s4(2) by (simp add: finish_job_def get_job_def)
  ultimately show ?thesis
    unfolding prq_pause [OF assms(3)] using s1(1,3) by simp
qed

theorem hard_error_use_after_free_witness:
  "\<exists>s. ix_requestQueue s = [1] \<and> ProcessRequestQueue tick_env (\<lambda>_ _. - EBADF) s = Inl (UseAfterFree 1)"
proof -
  obtain s acc j where s: "xinv tick_env acc [] 0 s" "ix_requestQueue s = [1]" "ix_ctxCond s = 10"
      "cx_numAvailable (ix_ctx s) = 10" "ix_jobs s 1 = Some j" "fj_canBeFreed j"
    using demo_read_inv by blast
  from hard_error_use_after_free [OF tick_env_ok s(1) _ _ s(2,5,6), of "- EBADF" "\<lambda>_ _. - EBADF"] s(2,3,4)
  show ?thesis by auto
qed

text \<open>
  C36. A partial submission breaks the accounting of contexts. When the kernel first takes only \<open>r\<close> of
  the control blocks and then the rest, all of them are in flight, but the contexts of the first \<open>r\<close>
  have been given back: free contexts and requests in flight exceed the queue depth by \<open>r\<close>.
\<close>

theorem partial_submit_overcounts:
  assumes "env_ok E" "xinv E acc [] 0 s" "ix_ctxCond s > 0"
    and "int (length (ix_requestQueue s)) \<le> cx_numAvailable (ix_ctx s)" "0 < r" "r < int (length (ix_requestQueue s))"
    and io: "io_submit = (\<lambda>n cbs. if n = 4 then r else int (length cbs))"
  shows "\<exists>s'. ProcessRequestQueue E io_submit s = Inr (int (length (ix_requestQueue s)), s') \<and>
    ix_inflight s' = ix_inflight s @ ix_requestQueue s \<and>
    cx_numAvailable (ix_ctx s') + int (length (ix_inflight s')) = cx_ioQueueDepth (ix_ctx s') + r"
proof -
  obtain cbs s1 where s1: "drain E (ix_requestQueue s) [] s = Inr (cbs, s1)" "map cb_data cbs = ix_requestQueue s"
      "ix_inflight s1 = ix_inflight s" "cx_ioQueueDepth (ix_ctx s1) = cx_ioQueueDepth (ix_ctx s)"
      "cx_numAvailable (ix_ctx s1) + int (length (ix_inflight s)) + int (length cbs) = cx_ioQueueDepth (ix_ctx s)"
    using drain_whole [OF assms(1,2,4)] by blast
  have len: "length cbs = length (ix_requestQueue s)" using arg_cong [OF s1(2), of length] by simp
  define s2 where "s2 = s1\<lparr>ix_stats := (ix_stats s1)\<lparr>ss_numSubmitted := ss_numSubmitted (ix_stats s1) + word_of_int r\<rparr>,
    ix_inflight := ix_inflight s1 @ map cb_data (take (nat r) cbs)\<rparr>"
  define s3 where "s3 = wakeup_ctxCond (nat r) (s2\<lparr>ix_ctx := (ix_ctx s2)\<lparr>cx_numAvailable := cx_numAvailable (ix_ctx s2) + r\<rparr>\<rparr>)"
  have inc: "on_ctx (incrementNumAvailable r) s2 = Inr (s2\<lparr>ix_ctx := (ix_ctx s2)\<lparr>cx_numAvailable := cx_numAvailable (ix_ctx s2) + r\<rparr>\<rparr>)"
    using s1(4,5) assms(6) len by (simp add: on_ctx_def incrementNumAvailable_def s2_def)
  have ne: "cbs \<noteq> []" "drop (nat r) cbs \<noteq> []" using assms(5,6) len by auto
  obtain s4 where s4: "try_submit E io_submit (Suc 3) (drop (nat r) cbs) s3 = Inr ([], s4)"
      "ix_inflight s4 = ix_inflight s3 @ map cb_data (drop (nat r) cbs)" "ix_ctx s4 = ix_ctx s3"
    using try_submit_all [OF ne(2), of io_submit 3] by (simp add: io)
  have "try_submit E io_submit (Suc 4) cbs s1 = try_submit E io_submit (Suc 3) (drop (nat r) cbs) s3"
    using ne(1) assms(5,6) len inc by (subst try_submit.simps) (simp add: io Let_def s2_def [symmetric] s3_def)
  then have t: "try_submit E io_submit 5 cbs s1 = Inr ([], s4)" using s4(1) by simp
  let ?s5 = "if ix_requestQueueSize s4 < sint (cf_maxRequestQueueSize (ix_config s4)) then wakeup_requestQueueHasSpace s4 else s4"
  have p: "ProcessRequestQueue E io_submit s = Inr (int (length cbs), ?s5)"
    unfolding prq_pause [OF assms(3)] using s1(1) t ne(1) by simp
  have "ix_inflight s4 = ix_inflight s @ map cb_data cbs"
    unfolding s4(2) by (simp add: s3_def s2_def wakeup_ctxCond_def s1(3)) (metis append_take_drop_id map_append)
  moreover have "cx_numAvailable (ix_ctx s4) = cx_numAvailable (ix_ctx s1) + r" "cx_ioQueueDepth (ix_ctx s4) = cx_ioQueueDepth (ix_ctx s)"
    by (simp_all add: s4(3) s3_def s2_def wakeup_ctxCond_def s1(4))
  ultimately show ?thesis using p s1(2,5) len
    by (intro exI [of _ ?s5]) (simp add: wakeup_requestQueueHasSpace_def)
qed

text \<open>Two reads in the request queue.\<close>

definition demo_two_reads :: "action list" where
  "demo_two_reads = [ANew 1 demo_job, ABegin False 1, ANew 2 demo_job, ABegin False 2]"

lemma demo_two_reads_run: "run_ok tick_env demo_two_reads (xsys_start demo_iox)"
  by (simp add: demo_two_reads_def demo_read_eval)

lemma demo_two_reads_state:
  "\<exists>st. exec_actions tick_env demo_two_reads (xsys_start demo_iox) = Some st \<and> ix_requestQueue (xs_x st) = [1, 2] \<and>
    ix_ctxCond (xs_x st) = 10 \<and> ix_inflight (xs_x st) = [] \<and> cx_numAvailable (ix_ctx (xs_x st)) = 10"
  by (simp add: demo_two_reads_def demo_read_eval)

theorem partial_submit_overcounts_witness:
  "\<exists>s s'. ix_requestQueue s = [1, 2] \<and>
    ProcessRequestQueue tick_env (\<lambda>n cbs. if n = 4 then 1 else int (length cbs)) s = Inr (2, s') \<and>
    cx_numAvailable (ix_ctx s') + int (length (ix_inflight s')) = cx_ioQueueDepth (ix_ctx s') + 1"
proof -
  obtain st where st: "exec_actions tick_env demo_two_reads (xsys_start demo_iox) = Some st" "ix_requestQueue (xs_x st) = [1, 2]"
      "ix_ctxCond (xs_x st) = 10" "ix_inflight (xs_x st) = []" "cx_numAvailable (ix_ctx (xs_x st)) = 10"
    using demo_two_reads_state by blast
  from ioexec.inv_reach [OF run_reach [OF demo_reach demo_two_reads_run st(1)]]
  have inv: "xinv tick_env (xs_acc st) [] 0 (xs_x st)" by (simp add: sysinv_def)
  from partial_submit_overcounts [OF tick_env_ok inv, of 1 "\<lambda>n cbs. if n = 4 then 1 else int (length cbs)"] st(2,3,5)
  show ?thesis by fastforce
qed

section \<open>The fd queue\<close>

text \<open>
  A sync job is accepted but can never complete: \<open>submitTask\<close> queues it for the fd thread, which
  has no branch for it, does not record its wait time and then fails the assertion
  \<open>waitTime_ != 0\<close> when it reports the result.
\<close>

theorem sync_job_asserts:
  assumes "ix_jobs s p = Some j" "job_fresh j" "fj_op j = Sync" "ix_state s = RUNNING" "ix_fdQueue s = []"
    and "ix_fdQueueSize s = 0" "0 \<le> sint (cf_maxRequestQueueSize (ix_config s))"
  shows "\<exists>s'. submitTask E io_submit b p s = Inr (0, s') \<and> ix_fdQueue s' = [p] \<and>
    (\<exists>msg. ProcessFdQueue_body E unlink_err pw s' = Inl (AssertFailed msg))"
  using assms
  by (simp add: submitTask_def submitTask_begin_def get_job_def Let_def put_job_def submit_fd_def stamp_job_def
      setSubmitTime_fresh ProcessFdQueue_body_def fd_job_run_def finish_job_def doPostProcessingOfJob_def
      FilerJob_reset_def setServiceTime_def) (simp add: job_fresh_def)

theorem sync_job_asserts_witness:
  "\<exists>s s' msg. submitTask tick_env (\<lambda>_ _. 0) False 1 s = Inr (0, s') \<and>
    ProcessFdQueue_body tick_env 0 (0, 0) s' = Inl (AssertFailed msg)"
proof -
  let ?s = "put_job 1 (FilerJob_blank\<lparr>fj_op := Sync, fj_fd := 5\<rparr>) demo_iox"
  have "ix_jobs ?s 1 = Some (FilerJob_blank\<lparr>fj_op := Sync, fj_fd := 5\<rparr>)" "job_fresh (FilerJob_blank\<lparr>fj_op := Sync, fj_fd := 5\<rparr>)"
    "fj_op (FilerJob_blank\<lparr>fj_op := Sync, fj_fd := 5\<rparr>) = Sync" "ix_state ?s = RUNNING" "ix_fdQueue ?s = []"
    "ix_fdQueueSize ?s = 0" "0 \<le> sint (cf_maxRequestQueueSize (ix_config ?s))"
    by (simp_all add: demo_eval)
  from sync_job_asserts [OF this, of tick_env "\<lambda>_ _. 0" False 0 "(0, 0)"] show ?thesis by blast
qed

text \<open>
  A short write is reported as a success when errno is zero: the fd thread takes minus the
  current errno as the result of a \<open>pwrite\<close> that wrote fewer bytes than asked, and \<open>pwrite\<close> does not
  set errno in that case.
\<close>

theorem short_write_reports_success:
  assumes "env_ok E" "xinv E acc [] 0 s" "ix_fdQueue s = p # q" "ix_jobs s p = Some j" "fj_op j = NonAlignedWrite"
    and "0 \<le> n" "n < uint (fj_userSize j)"
  shows "\<exists>s'. ProcessFdQueue_body E unlink_err (n, 0) s = Inr (True, s') \<and> notifies [p] [0] s s'"
proof -
  have "fd_retcode unlink_err (n, 0) j = 0"
    using assms(5) by (simp add: fd_retcode_def)
  with ProcessFdQueue_body_ok [OF assms(1-3), of unlink_err "(n, 0)"] assms(4) show ?thesis by auto
qed

text \<open>A reachable state with one unaligned write in the fd queue.\<close>

definition demo_write :: FilerJob where
  "demo_write = setBuffer 0 4096 100 (FilerJob_blank\<lparr>fj_op := Write, fj_fd := 5, fj_completionFd := 6\<rparr>)"

definition demo_writes :: "action list" where
  "demo_writes = [ANew 1 demo_write, ABegin False 1]"

lemma demo_write_size: "RoundToNext512 100 = (512 :: 64 word)" "\<not> IsDirectIOAligned 100"
  by (simp_all add: RoundToNext512_def DirectIOSize_def IsDirectIOAligned_def)

lemma demo_writes_run: "run_ok tick_env demo_writes (xsys_start demo_iox)"
  by (simp add: demo_writes_def demo_eval demo_write_def rw_op_def setBuffer_def demo_write_size)

lemma demo_writes_state:
  "\<exists>st j. exec_actions tick_env demo_writes (xsys_start demo_iox) = Some st \<and> ix_fdQueue (xs_x st) = [1] \<and>
    ix_jobs (xs_x st) 1 = Some j \<and> fj_op j = NonAlignedWrite \<and> fj_userSize j = 100 \<and>
    ix_fdWoken (xs_x st) = [] \<and> sint (cf_maxRequestQueueSize (ix_config (xs_x st))) = 2"
  by (simp add: demo_writes_def demo_eval demo_write_def rw_op_def setBuffer_def demo_write_size)

theorem short_write_reports_success_witness:
  "\<exists>s s' j. ix_fdQueue s = [1] \<and> ix_jobs s 1 = Some j \<and> fj_userSize j = 100 \<and>
    ProcessFdQueue_body tick_env 0 (40, 0) s = Inr (True, s') \<and> notifies [1] [0] s s'"
proof -
  obtain st j where st: "exec_actions tick_env demo_writes (xsys_start demo_iox) = Some st" "ix_fdQueue (xs_x st) = [1]"
      "ix_jobs (xs_x st) 1 = Some j" "fj_op j = NonAlignedWrite" "fj_userSize j = 100"
    using demo_writes_state by blast
  from ioexec.inv_reach [OF run_reach [OF demo_reach demo_writes_run st(1)]]
  have inv: "xinv tick_env (xs_acc st) [] 0 (xs_x st)" by (simp add: sysinv_def)
  from short_write_reports_success [OF tick_env_ok inv st(2-4), of 40 0] st(2,3,5) show ?thesis by auto
qed

lemma finish_job_woken:
  assumes "finish_job E r p s = Inr s'"
  shows "ix_fdWoken s' = ix_fdWoken s"
proof -
  obtain j where d: "doPostProcessingOfJob E p (put_job p j s) = Inr s'"
    using assms unfolding finish_job_def rbind_eq_Inr by blast
  obtain job1 nt ss where "s' = (put_job p j s)\<lparr>ix_stats := ss, ix_tick := Suc (ix_tick (put_job p j s)),
            ix_notified := ix_notified (put_job p j s) @ [nt],
            ix_closed := (if fj_closeFileHandle job1 then ix_closed (put_job p j s) @ [fj_fd job1] else ix_closed (put_job p j s)),
            ix_jobs := (if fj_canBeFreed job1 then (ix_jobs (put_job p j s))(p := None) else (ix_jobs (put_job p j s))(p \<mapsto> job1))\<rparr>"
    using d unfolding doPostProcessingOfJob_def rbind_eq_Inr case_prod_unfold by blast
  then show ?thesis by (simp add: put_job_def)
qed

lemma fd_job_run_woken:
  assumes "fd_job_run E ue pw p s = Inr s'"
  shows "ix_fdWoken s' = ix_fdWoken s"
proof -
  obtain job where job: "get_job p s = Inr job"
    using assms by (auto simp: fd_job_run_def rbind_eq_Inr)
  have "\<exists>r s2. finish_job E r p s2 = Inr s' \<and> ix_fdWoken s2 = ix_fdWoken s"
  proof (cases "fj_op job = Delete \<or> fj_op job = NonAlignedWrite")
    case True
    let ?c = "s\<lparr>ix_tick := Suc (Suc (ix_tick s)),
        ix_stats := (ix_stats s)\<lparr>ss_numSubmitted := ss_numSubmitted (ix_stats s) + 1\<rparr>\<rparr>"
    from True assms job obtain r j where "finish_job E r p (put_job p j ?c) = Inr s'"
      by (auto simp: fd_job_run_def rbind_eq_Inr Let_def)
    moreover have "ix_fdWoken (put_job p j ?c) = ix_fdWoken s" by (simp add: put_job_def)
    ultimately show ?thesis by blast
  next
    case False
    with assms job have "finish_job E (- EINVAL) p s = Inr s'" by (simp add: fd_job_run_def Let_def)
    then show ?thesis by blast
  qed
  then obtain r s2 where "finish_job E r p s2 = Inr s'" "ix_fdWoken s2 = ix_fdWoken s" by blast
  with finish_job_woken [OF this(1)] show ?thesis by simp
qed

lemma fd_body_no_wakeup:
  assumes "ProcessFdQueue_body E ue pw s = Inr (True, s1)" "ix_fdQueueSize s1 < sint (cf_maxRequestQueueSize (ix_config s1))"
    and q: "ix_fdQueue s = p # q"
  shows "ix_fdWoken s1 = ix_fdWoken s"
proof -
  from q assms(1) obtain v s2 where s2: "fd_job_run E ue pw p (s\<lparr>ix_fdQueueCond := v, ix_fdQueue := q\<rparr>) = Inr s2"
      "s1 = wakeup_fdQueueHasSpace (s2\<lparr>ix_fdQueueSize := ix_fdQueueSize s2 - 1\<rparr>) \<and>
         sint (cf_maxRequestQueueSize (ix_config s2)) \<le> ix_fdQueueSize s2 - 1 \<or>
       s1 = s2\<lparr>ix_fdQueueSize := ix_fdQueueSize s2 - 1\<rparr>"
    by (auto simp: ProcessFdQueue_body_def rbind_eq_Inr Let_def split: if_splits)
  then have "s1 = s2\<lparr>ix_fdQueueSize := ix_fdQueueSize s2 - 1\<rparr>"
    using assms(2) by (auto simp: wakeup_fdQueueHasSpace_def)
  then show ?thesis using fd_job_run_woken [OF s2(1)] by simp
qed

text \<open>
  A thread that waits for space in the fd queue is not woken by the queue draining. The fd thread
  signals \<open>fdQueueHasSpace_\<close> only while the queue, after the removal, still holds at least
  \<open>maxRequestQueueSize_\<close> jobs; a thread that found the queue full but starts to wait when it is no
  longer that long stays asleep while the fd thread empties the queue.
\<close>

theorem fd_waiters_not_woken:
  assumes "env_ok E" "xinv E acc [] 0 s" "ix_fdWoken s = []"
    and "int (length (ix_fdQueue s)) \<le> sint (cf_maxRequestQueueSize (ix_config s))"
    and "length answers = length (ix_fdQueue s)"
  shows "\<exists>s'. rfold (\<lambda>(unlink_err, pw) s. rbind (ProcessFdQueue_body E unlink_err pw s) (\<lambda>(_, s1). Inr s1)) answers s = Inr s' \<and>
    ix_fdQueue s' = [] \<and> ix_fdWaiters s' = ix_fdWaiters s \<and> ix_fdWoken s' = []"
  using assms
proof (induction answers arbitrary: s)
  case Nil
  then show ?case by simp
next
  case (Cons a answers)
  obtain ue pw where a: "a = (ue, pw)" by (cases a)
  obtain p q where q: "ix_fdQueue s = p # q" using Cons.prems(5) by (cases "ix_fdQueue s") auto
  obtain s1 where s1: "ProcessFdQueue_body E ue pw s = Inr (True, s1)" "xinv E acc [] 0 s1" "ix_fdQueue s1 = q"
      "ix_state s1 = ix_state s" "ix_config s1 = ix_config s"
    using ProcessFdQueue_body_ok [OF Cons.prems(1,2) q, of ue pw] by blast
  have w: "ix_fdWoken s1 @ ix_fdWaiters s1 = ix_fdWoken s @ ix_fdWaiters s"
    using touches_ProcessFdQueue_body [OF s1(1)] by (simp add: touches_def)
  have sz: "ix_fdQueueSize s1 = int (length q)" using s1(2,3) by (simp add: xinv_def sizes_ok_def)
  have small: "int (length q) < sint (cf_maxRequestQueueSize (ix_config s))" using Cons.prems(4) q by simp
  have woken: "ix_fdWoken s1 = []"
    using fd_body_no_wakeup [OF s1(1) _ q] sz small s1(5) Cons.prems(3) by simp
  have "ix_fdWaiters s1 = ix_fdWaiters s" using w woken Cons.prems(3) by simp
  moreover have "\<exists>s'. rfold (\<lambda>(unlink_err, pw) s. rbind (ProcessFdQueue_body E unlink_err pw s) (\<lambda>(_, s1). Inr s1)) answers s1 = Inr s' \<and>
    ix_fdQueue s' = [] \<and> ix_fdWaiters s' = ix_fdWaiters s1 \<and> ix_fdWoken s' = []"
    using Cons.IH [OF Cons.prems(1) s1(2) woken] small s1(3,4,5) Cons.prems(5) q by simp
  ultimately show ?case using a s1(1) by simp
qed

theorem fd_waiters_not_woken_witness:
  "\<exists>s s'. ix_fdQueue s = [1] \<and> ix_fdWaiters s = [9] \<and>
    rfold (\<lambda>(unlink_err, pw) s. rbind (ProcessFdQueue_body tick_env unlink_err pw s) (\<lambda>(_, s1). Inr s1)) [(0, 100, 0)] s = Inr s' \<and>
    ix_fdQueue s' = [] \<and> ix_fdWaiters s' = [9]"
proof -
  obtain st where st: "exec_actions tick_env demo_writes (xsys_start demo_iox) = Some st" "ix_fdQueue (xs_x st) = [1]"
      "ix_fdWoken (xs_x st) = []" "sint (cf_maxRequestQueueSize (ix_config (xs_x st))) = 2"
    using demo_writes_state by blast
  let ?s = "(xs_x st)\<lparr>ix_fdWaiters := [9]\<rparr>"
  from ioexec.inv_reach [OF run_reach [OF demo_reach demo_writes_run st(1)]]
  have "xinv tick_env (xs_acc st) [] 0 (xs_x st)" by (simp add: sysinv_def)
  then have "xinv tick_env (xs_acc st) [] 0 ?s" by (auto simp: xinv_defs owned_def ctx_slack_def)
  from fd_waiters_not_woken [OF tick_env_ok this, of "[(0, 100, 0)]"] st(2-4) obtain s' where
    "rfold (\<lambda>(unlink_err, pw) s. rbind (ProcessFdQueue_body tick_env unlink_err pw s) (\<lambda>(_, s1). Inr s1)) [(0, 100, 0)] ?s = Inr s'"
    "ix_fdQueue s' = []" "ix_fdWaiters s' = [9]" by auto
  with st(2) show ?thesis by (intro exI [of _ ?s] exI [of _ s']) simp
qed

section \<open>Start and end\<close>

text \<open>
  The constructor ignores a failure to create the I/O context: when \<open>io_queue_init\<close> fails the
  executor is running, with semaphore permits for the configured depth but no context, and
  \<open>ProcessRequestQueue\<close> leaves any accepted request in the queue and returns 0.
\<close>

theorem failed_context_accepts_requests:
  assumes "qret \<noteq> 0" "epollFD \<ge> 0"
  shows "\<exists>s. IOExecutor_new epollFD qret evfd ctl True config = Inr s \<and> ix_state s = RUNNING \<and>
    ix_ctxCond s = unat (cf_queueDepth config) \<and> cx_numAvailable (ix_ctx s) = 0 \<and>
    (\<forall>s' q. ix_ctx s' = ix_ctx s \<and> ix_ctxCond s' > 0 \<and> ix_requestQueue s' = q \<longrightarrow>
       ProcessRequestQueue E io_submit s' = Inr (0, s'))"
proof -
  have "drain E q [] s' = Inr ([], s')" if "cx_numAvailable (ix_ctx s') = 0" for q s'
    using that by (cases q) (simp_all add: FilerCtx_isEmpty_def)
  with assms show ?thesis
    by (simp add: IOExecutor_new_def FilerCtx_init_def FilerCtx_blank_def SemaphoreWrapper_init_def prq_pause Let_def)
qed

theorem failed_context_accepts_requests_witness:
  "\<exists>s. IOExecutor_new 3 (- EAGAIN) 4 0 True demo_config = Inr s \<and> cx_numAvailable (ix_ctx s) = 0 \<and> ix_ctxCond s = 10"
proof -
  have "unat (cf_queueDepth demo_config) = 10" by (simp add: demo_config_def Config_depth_def setDerivedParam_def)
  with failed_context_accepts_requests [of "- EAGAIN" 3 4 0 demo_config tick_env "\<lambda>_ _. 0"] show ?thesis by auto
qed

text \<open>
  Final shutdown with every context in flight deadlocks the completion thread: on the shutdown
  event it processes the request queue, whose first step waits for a free context, and only the
  completion thread itself frees contexts.
\<close>

theorem shutdown_event_blocks:
  assumes "xinv E acc [] 0 s" "ix_state s = FINAL_SHUTDOWN" "cf_noSubmitterThread (ix_config s)"
    and "int (length (ix_inflight s)) = cx_ioQueueDepth (ix_ctx s)"
  shows "completion_event E io_submit EvShutdown s = Inl (Blocked ''sem_wait'')"
proof -
  have "ix_ctxCond s = 0" using assms by (simp add: xinv_def ctx_ok_def ctx_slack_def)
  with assms(2) show ?thesis by (simp add: completion_event_def ProcessRequestQueue_def pause_ctxCond_def)
qed

text \<open>An executor of depth 1 whose only context is in flight.\<close>

definition demo_small :: iox where
  "demo_small = (case IOExecutor_new 3 0 4 0 True (Config_depth 1) of Inr x \<Rightarrow> x | Inl _ \<Rightarrow> undefined)"

lemma demo_small_init: "xsys_init tick_env (xsys_start demo_small)"
proof -
  have "0 \<le> sint (cf_queueDepth (Config_depth 1))" "cf_noSubmitterThread (Config_depth 1)"
    "IOExecutor_new 3 0 4 0 True (Config_depth 1) = Inr demo_small"
    by (simp_all add: Config_depth_def setDerivedParam_def demo_small_def IOExecutor_new_def)
  then show ?thesis unfolding xsys_init_def using tick_env_ok
    by (intro conjI exI [of _ 3] exI [of _ 4] exI [of _ "Config_depth 1"] exI [of _ demo_small]) auto
qed

lemma demo_small_run: "run_ok tick_env demo_read (xsys_start demo_small)"
  by (simp add: demo_read_def demo_read_eval demo_small_def)

lemma demo_small_state:
  "\<exists>st. exec_actions tick_env demo_read (xsys_start demo_small) = Some st \<and> ix_requestQueue (xs_x st) = [1] \<and>
    ix_ctxCond (xs_x st) = 1 \<and> ix_inflight (xs_x st) = [] \<and> cx_numAvailable (ix_ctx (xs_x st)) = 1 \<and>
    cx_ioQueueDepth (ix_ctx (xs_x st)) = 1"
  by (simp add: demo_read_def demo_read_eval demo_small_def)

theorem shutdown_event_blocks_witness:
  "\<exists>s. ix_state s = FINAL_SHUTDOWN \<and> ix_inflight s = [1] \<and>
    completion_event tick_env (\<lambda>_ _. 0) EvShutdown s = Inl (Blocked ''sem_wait'')"
proof -
  obtain st where st: "exec_actions tick_env demo_read (xsys_start demo_small) = Some st" "ix_requestQueue (xs_x st) = [1]"
      "ix_ctxCond (xs_x st) = 1" "ix_inflight (xs_x st) = []" "cx_numAvailable (ix_ctx (xs_x st)) = 1"
      "cx_ioQueueDepth (ix_ctx (xs_x st)) = 1"
    using demo_small_state by blast
  from ioexec.inv_reach [OF run_reach [OF reach_init [of "xsys_init tick_env", OF demo_small_init] demo_small_run st(1)]]
  have inv: "xinv tick_env (xs_acc st) [] 0 (xs_x st)" "cf_noSubmitterThread (ix_config (xs_x st))" by (auto simp: sysinv_def)
  have ta: "takes_all (\<lambda>_ cbs. int (length cbs))" by (simp add: takes_all_def)
  obtain n s1 moved where s1: "ProcessRequestQueue tick_env (\<lambda>_ cbs. int (length cbs)) (xs_x st) = Inr (n, s1)"
      "xinv tick_env (xs_acc st) [] 0 s1" "prq_result moved n (xs_x st) s1"
    using ProcessRequestQueue_ok [OF tick_env_ok ta inv(1)] st(3) by auto
  have i: "ix_inflight s1 = [1]" "cx_ioQueueDepth (ix_ctx s1) = 1"
    using prq_all [OF tick_env_ok inv(1) _ _ _ ta] st(2-6) s1(1) by auto
  have c: "cf_noSubmitterThread (ix_config s1)" using s1(3) inv(2) by (simp add: prq_result_def)
  let ?s = "s1\<lparr>ix_state := FINAL_SHUTDOWN\<rparr>"
  have "xinv tick_env (xs_acc st) [] 0 ?s" using s1(2) c by (auto simp: xinv_defs owned_def ctx_slack_def)
  then show ?thesis
    using shutdown_event_blocks [of tick_env "xs_acc st" ?s "\<lambda>_ _. 0"] i c by (intro exI [of _ ?s]) simp
qed

section \<open>The submitter thread\<close>

lemma halve_unat: "unat (ix_minSubmitSize (halve_minSubmitSize s)) \<le> max 1 (unat (ix_minSubmitSize s) div 2)"
  by (auto simp: halve_minSubmitSize_def unat_div word_less_nat_alt not_less)

lemma execute_wait_min:
  "unat (ix_minSubmitSize s) \<le> max 1 m \<Longrightarrow>
    unat (ix_minSubmitSize (snd ((execute_wait ^^ k) (t, s)))) \<le> max 1 (m div 2 ^ k)"
proof (induction k)
  case (Suc k)
  let ?s = "snd ((execute_wait ^^ k) (t, s))"
  have "unat (ix_minSubmitSize (snd ((execute_wait ^^ Suc k) (t, s)))) = unat (ix_minSubmitSize (halve_minSubmitSize ?s))"
    by (simp add: execute_wait_def case_prod_unfold Let_def)
  also have "\<dots> \<le> max 1 (unat (ix_minSubmitSize ?s) div 2)" by (rule halve_unat)
  also have "\<dots> \<le> max 1 (max 1 (m div 2 ^ k) div 2)" using Suc.IH [OF Suc.prems] by (simp add: div_le_mono max_def)
  also have "\<dots> \<le> max 1 (m div 2 ^ Suc k)" by (simp add: max_def div_mult2_eq [symmetric] mult.commute)
  finally show ?case .
qed simp

text \<open>
  C33. With a submitter thread a lone request is not delayed for ever by the batching threshold: each
  pass of the waiting loop halves \<open>minSubmitSize_\<close>, so after at most 31 passes the threshold is 1 and
  the loop does not wait while anything is queued.
\<close>

theorem submitter_threshold_decays:
  assumes "ix_minSubmitSize s > 0" "unat (ix_minSubmitSize s) < 2 ^ 31" "ix_requestQueueSize s \<ge> 1"
  shows "\<exists>k\<le>31. \<not> execute_waits (snd ((execute_wait ^^ k) (1, s)))"
proof -
  have f: "ix_requestQueueSize (snd ((execute_wait ^^ k) (1, s))) = ix_requestQueueSize s" for k
    by (induction k) (simp_all add: execute_wait_def case_prod_unfold Let_def halve_minSubmitSize_def)
  let ?s = "snd ((execute_wait ^^ 31) (1, s))"
  have "unat (ix_minSubmitSize ?s) \<le> max 1 (unat (ix_minSubmitSize s) div 2 ^ 31)"
    by (rule execute_wait_min) simp
  then have "unat (ix_minSubmitSize ?s) \<le> 1" using assms(2) by simp
  then have "ix_minSubmitSize ?s = 0 \<or> ix_minSubmitSize ?s = 1"
    by (metis One_nat_def le_Suc_eq le_zero_eq unat_1 unat_eq_zero word_unat_eq_iff)
  then have "sint (ix_minSubmitSize ?s) \<le> 1" by auto
  then have "\<not> execute_waits ?s" using f [of 31] assms(3) by (simp add: execute_waits_def)
  then show ?thesis by blast
qed

theorem submitter_threshold_decays_witness:
  "\<exists>k\<le>31. \<not> execute_waits (snd ((execute_wait ^^ k) (1, demo_iox\<lparr>ix_minSubmitSize := 16, ix_requestQueueSize := 1\<rparr>)))"
  by (rule submitter_threshold_decays) simp_all

end
