(* ===== verification/Mempool.thy ===== *)
theory Mempool
  imports OS_Utils
begin

text \<open>
  The memory pools (\<open>src/Mempool.h\<close>, \<open>src/Mempool.cpp\<close>) and the C interface to the one aligned pool
  of the process (\<open>src/gMempool.cpp\<close>). Addresses are 64-bit words and 0 is the null pointer. What
  \<open>posix_memalign\<close>, \<open>malloc\<close> and \<open>boost::lockfree::queue::push\<close> answer are arguments.
\<close>

section \<open>Statistics\<close>

record Mempool_Stats =
  mp_bytesAllocated :: "64 word"
  mp_numAllocCalls :: "64 word"
  mp_numFailedAllocCalls :: "64 word"
  mp_numFreeCalls :: "64 word"
  mp_numReused :: "64 word"

definition Mempool_Stats_init :: Mempool_Stats where
  "Mempool_Stats_init = \<lparr>mp_bytesAllocated = 0, mp_numAllocCalls = 0, mp_numFailedAllocCalls = 0,
     mp_numFreeCalls = 0, mp_numReused = 0\<rparr>"

section \<open>AlignedMempool\<close>

record AlignedMempool =
  am_alignSize :: "64 word"
  am_stats :: Mempool_Stats

definition AlignedMempool_new :: "64 word \<Rightarrow> AlignedMempool" where
  "AlignedMempool_new alignSize = \<lparr>am_alignSize = alignSize, am_stats = Mempool_Stats_init\<rparr>"

text \<open>\<open>memalign alignment size\<close> is the return code and the address of \<open>posix_memalign\<close>.\<close>

definition AlignedMempool_Alloc ::
  "(64 word \<Rightarrow> 64 word \<Rightarrow> int \<times> 64 word) \<Rightarrow> 64 word \<Rightarrow> AlignedMempool \<Rightarrow> 64 word \<times> AlignedMempool" where
  "AlignedMempool_Alloc memalign sz p =
     (let (retcode, buffer) = memalign (am_alignSize p) sz; st = am_stats p
      in if retcode \<noteq> 0
         then (0, p\<lparr>am_stats := st\<lparr>mp_numFailedAllocCalls := mp_numFailedAllocCalls st + 1\<rparr>\<rparr>)
         else (buffer, p\<lparr>am_stats := st\<lparr>mp_numAllocCalls := mp_numAllocCalls st + 1,
                                        mp_bytesAllocated := mp_bytesAllocated st + sz\<rparr>\<rparr>))"

text \<open>The second component is the pointer handed to \<open>free\<close>.\<close>

definition AlignedMempool_Free :: "64 word \<Rightarrow> AlignedMempool \<Rightarrow> AlignedMempool \<times> 64 word list" where
  "AlignedMempool_Free ptr p =
     (p\<lparr>am_stats := (am_stats p)\<lparr>mp_numFreeCalls := mp_numFreeCalls (am_stats p) + 1\<rparr>\<rparr>, [ptr])"

section \<open>The C interface\<close>

text \<open>The static pool is unset until \<open>gMempool_init\<close>; using it before that is a fatal log message.\<close>

definition need_pool :: "AlignedMempool option \<Rightarrow> AlignedMempool res" where
  "need_pool pool = (case pool of None \<Rightarrow> Inl (Aborted ''call to gMempool_init is missing'') | Some p \<Rightarrow> Inr p)"

definition gMempool_init :: "64 word \<Rightarrow> AlignedMempool option \<Rightarrow> int \<times> AlignedMempool option" where
  "gMempool_init alignSize pool = (0, Some (AlignedMempool_new alignSize))"

definition gMempool_alloc ::
  "(64 word \<Rightarrow> 64 word \<Rightarrow> int \<times> 64 word) \<Rightarrow> 64 word \<Rightarrow> AlignedMempool option \<Rightarrow>
    (64 word \<times> AlignedMempool option) res" where
  "gMempool_alloc memalign sz pool =
     (if sz = 0 then Inr (0, pool)
      else rbind (need_pool pool) (\<lambda>p.
           let (ptr, p') = AlignedMempool_Alloc memalign (RoundToNext512 sz) p in Inr (ptr, Some p')))"

definition gMempool_free :: "64 word \<Rightarrow> AlignedMempool option \<Rightarrow> (AlignedMempool option \<times> 64 word list) res" where
  "gMempool_free ptr pool =
     (if ptr = 0 then Inr (pool, [])
      else rbind (need_pool pool) (\<lambda>p.
           let (p', freed) = AlignedMempool_Free ptr p in Inr (Some p', freed)))"

text \<open>
  \<open>strncpy\<close> as the C library defines it: the characters up to the first null character are copied
  and the rest of the \<open>n\<close> bytes is filled with null characters; the result lists the bytes written.
\<close>

definition strncpy :: "string \<Rightarrow> nat \<Rightarrow> string" where
  "strncpy src n = take n (takeWhile (\<lambda>ch. ch \<noteq> CHR 0x00) src @ replicate n (CHR 0x00))"

text \<open>\<open>gMempool_getStats\<close>: the text of \<open>GetStats\<close> is an argument; \<open>[]\<close> when nothing is written.\<close>

definition gMempool_getStats :: "(AlignedMempool \<Rightarrow> string) \<Rightarrow> bool \<Rightarrow> nat \<Rightarrow> AlignedMempool option \<Rightarrow> string res" where
  "gMempool_getStats GetStats null_buffer len pool =
     (if null_buffer \<or> len = 0 then Inr []
      else rbind (need_pool pool) (\<lambda>p. Inr (strncpy (GetStats p) len)))"

section \<open>ObjectMempool\<close>

record ObjectMempool =
  om_freeList :: "64 word list"
  om_objSize :: "64 word"
  om_stats :: Mempool_Stats

definition ObjectMempool_new :: "64 word \<Rightarrow> ObjectMempool" where
  "ObjectMempool_new objSize = \<lparr>om_freeList = [], om_objSize = objSize, om_stats = Mempool_Stats_init\<rparr>"

text \<open>
  \<open>Alloc\<close> asks whether the free list is empty and pops afterwards; another thread may have taken the
  last block in between, so the answer \<open>sawEmpty\<close> is an argument. \<open>numReused_\<close> is counted whether
  or not the pop succeeds. \<open>fresh\<close> is what \<open>malloc\<close> returns.
\<close>

definition ObjectMempool_Alloc ::
  "bool \<Rightarrow> 64 word \<Rightarrow> 64 word \<Rightarrow> ObjectMempool \<Rightarrow> (64 word \<times> ObjectMempool) res" where
  "ObjectMempool_Alloc sawEmpty fresh allocSize p =
     rbind (rassert ''allocSize == objSize'' (allocSize = om_objSize p)) (\<lambda>_.
     let st = om_stats p;
         st1 = (if sawEmpty then st else st\<lparr>mp_numReused := mp_numReused st + 1\<rparr>);
         (ptr, rest) = (if sawEmpty then (fresh, om_freeList p)
                        else case list_pop (om_freeList p) of
                               None \<Rightarrow> (fresh, om_freeList p) | Some (q, qs) \<Rightarrow> (q, qs));
         st2 = st1\<lparr>mp_numAllocCalls := mp_numAllocCalls st1 + 1,
                   mp_bytesAllocated := mp_bytesAllocated st1 + allocSize\<rparr>
     in Inr (ptr, p\<lparr>om_freeList := rest, om_stats := st2\<rparr>))"

definition ObjectMempool_Free :: "bool \<Rightarrow> 64 word \<Rightarrow> ObjectMempool \<Rightarrow> ObjectMempool \<times> 64 word list" where
  "ObjectMempool_Free push_ok ptr p =
     (let st = om_stats p; st1 = st\<lparr>mp_numFreeCalls := mp_numFreeCalls st + 1\<rparr>
      in if push_ok then (p\<lparr>om_freeList := list_push ptr (om_freeList p), om_stats := st1\<rparr>, [])
         else (p\<lparr>om_stats := st1\<rparr>, [ptr]))"

section \<open>The object pool with its users\<close>

text \<open>
  The users hold the blocks they were given and give back only those; \<open>malloc\<close> returns null or a
  block that is neither held nor in the free list.
\<close>

record pool_sys =
  ps_pool :: ObjectMempool
  ps_held :: "64 word list"

inductive pool_step :: "pool_sys \<Rightarrow> pool_sys \<Rightarrow> bool" where
  pool_alloc: "ObjectMempool_Alloc sawEmpty fresh (om_objSize (ps_pool s)) (ps_pool s) = Inr (ptr, p) \<Longrightarrow>
     fresh = 0 \<or> fresh \<notin> set (ps_held s) \<union> set (om_freeList (ps_pool s)) \<Longrightarrow>
     pool_step s \<lparr>ps_pool = p, ps_held = ptr # ps_held s\<rparr>"
| pool_free: "ptr \<in> set (ps_held s) \<Longrightarrow> ObjectMempool_Free push_ok ptr (ps_pool s) = (p, freed) \<Longrightarrow>
     pool_step s \<lparr>ps_pool = p, ps_held = remove1 ptr (ps_held s)\<rparr>"

definition pool_init :: "pool_sys \<Rightarrow> bool" where
  "pool_init s \<longleftrightarrow> (\<exists>n. s = \<lparr>ps_pool = ObjectMempool_new n, ps_held = []\<rparr>)"

definition pool_inv :: "pool_sys \<Rightarrow> bool" where
  "pool_inv s \<longleftrightarrow>
     distinct (filter (\<lambda>b. b \<noteq> 0) (ps_held s @ om_freeList (ps_pool s))) \<and>
     (let st = om_stats (ps_pool s) in
        mp_numAllocCalls st - mp_numFreeCalls st = of_nat (length (ps_held s)) \<and>
        mp_bytesAllocated st = mp_numAllocCalls st * om_objSize (ps_pool s))"

lemma ObjectMempool_Alloc_cases:
  assumes "ObjectMempool_Alloc sawEmpty fresh sz p = Inr (ptr, p')"
  shows "(ptr = fresh \<and> om_freeList p' = om_freeList p \<or> om_freeList p = ptr # om_freeList p') \<and>
    om_objSize p' = om_objSize p \<and> sz = om_objSize p \<and>
    mp_numAllocCalls (om_stats p') = mp_numAllocCalls (om_stats p) + 1 \<and>
    mp_numFreeCalls (om_stats p') = mp_numFreeCalls (om_stats p) \<and>
    mp_bytesAllocated (om_stats p') = mp_bytesAllocated (om_stats p) + sz"
proof -
  from assms have sz: "sz = om_objSize p" by (simp add: ObjectMempool_Alloc_def rbind_eq_Inr)
  show ?thesis using assms
    by (cases sawEmpty; cases "om_freeList p") (auto simp: ObjectMempool_Alloc_def rbind_eq_Inr Let_def)
qed

lemma pool_alloc_inv:
  assumes "pool_inv s" "ObjectMempool_Alloc sawEmpty fresh (om_objSize (ps_pool s)) (ps_pool s) = Inr (ptr, p)"
    "fresh = 0 \<or> fresh \<notin> set (ps_held s) \<union> set (om_freeList (ps_pool s))"
  shows "pool_inv \<lparr>ps_pool = p, ps_held = ptr # ps_held s\<rparr>"
proof -
  note c = ObjectMempool_Alloc_cases [OF assms(2)]
  then have "distinct (filter (\<lambda>b. b \<noteq> 0) (ptr # ps_held s @ om_freeList p))"
    using assms(1,3) by (auto simp: pool_inv_def)
  with c assms(1) show ?thesis
    by (simp add: pool_inv_def Let_def algebra_simps)
qed

lemma of_nat_remove1:
  "x \<in> set xs \<Longrightarrow> (of_nat (length (remove1 x xs)) :: 64 word) = of_nat (length xs) - 1"
proof -
  assume "x \<in> set xs"
  then have "length xs = Suc (length (remove1 x xs))" by (auto simp: length_remove1 dest: length_pos_if_in_set)
  then show ?thesis by simp
qed

lemma pool_free_inv:
  assumes "pool_inv s" "ptr \<in> set (ps_held s)" "ObjectMempool_Free push_ok ptr (ps_pool s) = (p, freed)"
  shows "pool_inv \<lparr>ps_pool = p, ps_held = remove1 ptr (ps_held s)\<rparr>"
proof -
  let ?nz = "filter (\<lambda>b. b \<noteq> (0 :: 64 word))"
  have "distinct (?nz (remove1 ptr (ps_held s) @ om_freeList p))"
  proof (cases push_ok)
    case True
    then have "om_freeList p = om_freeList (ps_pool s) @ [ptr]"
      using assms(3) by (auto simp: ObjectMempool_Free_def Let_def)
    moreover have "mset (remove1 ptr (ps_held s) @ om_freeList (ps_pool s) @ [ptr]) =
        mset (ps_held s @ om_freeList (ps_pool s))"
      using assms(2) by simp
    then have "mset (?nz (remove1 ptr (ps_held s) @ om_freeList (ps_pool s) @ [ptr])) =
        mset (?nz (ps_held s @ om_freeList (ps_pool s)))"
      by (simp only: mset_filter)
    ultimately show ?thesis using assms(1) mset_eq_imp_distinct_iff unfolding pool_inv_def by metis
  next
    case False
    then have "om_freeList p = om_freeList (ps_pool s)"
      using assms(3) by (auto simp: ObjectMempool_Free_def Let_def)
    with assms(1) show ?thesis by (auto simp: pool_inv_def filter_remove1 dest: notin_set_remove1)
  qed
  moreover have "om_objSize p = om_objSize (ps_pool s)"
    "mp_numFreeCalls (om_stats p) = mp_numFreeCalls (om_stats (ps_pool s)) + 1"
    "mp_numAllocCalls (om_stats p) = mp_numAllocCalls (om_stats (ps_pool s))"
    "mp_bytesAllocated (om_stats p) = mp_bytesAllocated (om_stats (ps_pool s))"
    using assms(3) by (auto simp: ObjectMempool_Free_def Let_def split: if_splits)
  ultimately show ?thesis
    using assms(1,2) by (simp add: pool_inv_def Let_def of_nat_remove1 diff_diff_eq [symmetric])
qed

interpretation objpool: invariant_system pool_init pool_step pool_inv
proof unfold_locales
  show "pool_init s \<Longrightarrow> pool_inv s" for s
    by (auto simp: pool_init_def pool_inv_def ObjectMempool_new_def Mempool_Stats_init_def)
  show "pool_inv s \<Longrightarrow> pool_step s t \<Longrightarrow> pool_inv t" for s t
    by (auto elim!: pool_step.cases intro: pool_alloc_inv pool_free_inv)
qed

text \<open>
  C21. However allocations and releases of several threads interleave, the object pool never has a
  block in use twice: the blocks its users hold and those of its free list are pairwise distinct
  (null aside), and its counters, modulo \<open>2 ^ 64\<close>, count the blocks held and the bytes handed out.
\<close>

theorem ObjectMempool_no_sharing:
  assumes "reach pool_init pool_step s"
  shows "distinct (filter (\<lambda>b. b \<noteq> 0) (ps_held s @ om_freeList (ps_pool s))) \<and>
    mp_numAllocCalls (om_stats (ps_pool s)) - mp_numFreeCalls (om_stats (ps_pool s)) = of_nat (length (ps_held s)) \<and>
    mp_bytesAllocated (om_stats (ps_pool s)) = mp_numAllocCalls (om_stats (ps_pool s)) * om_objSize (ps_pool s)"
  using objpool.inv_reach [OF assms] by (simp add: pool_inv_def Let_def)

theorem ObjectMempool_no_sharing_witness:
  "\<exists>s. reach pool_init pool_step s \<and> ps_held s = [4096] \<and>
     distinct (filter (\<lambda>b. b \<noteq> 0) (ps_held s @ om_freeList (ps_pool s)))"
proof -
  let ?s0 = "\<lparr>ps_pool = ObjectMempool_new 64, ps_held = []\<rparr>"
  obtain p where p: "ObjectMempool_Alloc True 4096 64 (ObjectMempool_new 64) = Inr (4096, p)"
    by (simp add: ObjectMempool_Alloc_def ObjectMempool_new_def)
  have "reach pool_init pool_step ?s0" by (rule reach_init) (auto simp: pool_init_def)
  moreover have "pool_step ?s0 \<lparr>ps_pool = p, ps_held = [4096]\<rparr>"
    using pool_alloc [of True 4096 ?s0 4096 p] p by (simp add: ObjectMempool_new_def)
  ultimately have r: "reach pool_init pool_step \<lparr>ps_pool = p, ps_held = [4096]\<rparr>"
    by (rule reach_step)
  from ObjectMempool_no_sharing [OF r] r show ?thesis
    by (intro exI [of _ "\<lparr>ps_pool = p, ps_held = [4096]\<rparr>"]) simp
qed

text \<open>
  \<open>gMempool_alloc\<close>, after \<open>gMempool_init\<close> and for a size between 1 and 4 GiB minus 512 bytes,
  returns null and counts a failure when \<open>posix_memalign\<close> fails; otherwise it returns the block it
  was given for the size rounded up to a multiple of 512, which holds the requested bytes, and
  counts exactly these bytes.
\<close>

theorem gMempool_alloc_block:
  assumes "0 < unat n" "unat n \<le> 2 ^ 32 - 512"
  shows "\<exists>ptr p'. gMempool_alloc memalign n (Some p) = Inr (ptr, Some p') \<and>
    (let r = RoundToNext512 n; (ret, block) = memalign (am_alignSize p) r in
       unat n \<le> unat r \<and> unat r < unat n + 512 \<and> IsDirectIOAligned r \<and>
       (if ret \<noteq> 0 then ptr = 0 \<and> mp_numFailedAllocCalls (am_stats p') = mp_numFailedAllocCalls (am_stats p) + 1 \<and>
          mp_bytesAllocated (am_stats p') = mp_bytesAllocated (am_stats p)
        else ptr = block \<and> mp_bytesAllocated (am_stats p') = mp_bytesAllocated (am_stats p) + r))"
proof -
  have "n \<noteq> 0" using assms(1) by auto
  moreover have "unat n \<le> unat (RoundToNext512 n) \<and> unat (RoundToNext512 n) < unat n + 512"
    using round_up_512 [of "unat n"] by (simp add: unat_RoundToNext512_small [OF assms(2)])
  ultimately show ?thesis
    by (cases "memalign (am_alignSize p) (RoundToNext512 n)")
      (auto simp: gMempool_alloc_def need_pool_def AlignedMempool_Alloc_def Let_def)
qed

theorem gMempool_alloc_block_witness:
  "\<exists>p'. gMempool_alloc (\<lambda>_ _. (0, 8192)) 1000 (snd (gMempool_init 512 None)) = Inr (8192, Some p')"
  using gMempool_alloc_block [of 1000 "\<lambda>_ _. (0, 8192)" "AlignedMempool_new 512"]
  by (auto simp: gMempool_init_def Let_def)

end
