(* ===== verification/IO_Exec_File.thy ===== *)
theory IO_Exec_File
  imports IO_Executor Mempool
begin

text \<open>
  The file service (\<open>src/gIOExecFile.cpp\<close>, \<open>src/gparse.cpp\<close>): a vector of executors, one per core,
  behind handles for the service, for files and for event pipes. A null handle is \<open>None\<close>. The file
  system (\<open>open\<close>, \<open>unlink\<close>, \<open>ftruncate\<close>, \<open>pipe\<close>), the hash of the standard library and the addresses
  that \<open>new\<close> returns are arguments.
\<close>

section \<open>Batches\<close>

record gIOExecFragment =
  fr_completionId :: "64 word"
  fr_offset :: int
  fr_size :: "64 word"
  fr_addr :: "64 word"

type_synonym gIOBatch = "gIOExecFragment list"

definition gIOBatchAlloc :: "nat \<Rightarrow> gIOBatch" where
  "gIOBatchAlloc n = replicate n \<lparr>fr_completionId = 0, fr_offset = 0, fr_size = 0, fr_addr = 0\<rparr>"

text \<open>Freeing gives the buffers back to the pool; the result lists the addresses freed.\<close>

definition gIOBatchFree_fragment ::
  "gIOExecFragment \<Rightarrow> AlignedMempool option \<times> 64 word list \<Rightarrow> (AlignedMempool option \<times> 64 word list) res" where
  "gIOBatchFree_fragment frag = (\<lambda>(pool, freed).
     rbind (rassert ''offset aligned'' (IsDirectIOAligned (word_of_int (fr_offset frag)))) (\<lambda>_.
     rbind (rassert ''completionId != 0'' (fr_completionId frag \<noteq> 0)) (\<lambda>_.
     rbind (gMempool_free (fr_addr frag) pool) (\<lambda>(pool', more). Inr (pool', freed @ more)))))"

definition gIOBatchFree ::
  "gIOBatch option \<Rightarrow> AlignedMempool option \<Rightarrow> (AlignedMempool option \<times> 64 word list) res" where
  "gIOBatchFree ptr pool =
     (case ptr of None \<Rightarrow> Inr (pool, []) | Some b \<Rightarrow> rfold gIOBatchFree_fragment b (pool, []))"

section \<open>Names\<close>

text \<open>A C string ends at its first null character.\<close>

definition c_str :: "string \<Rightarrow> string" where
  "c_str s = takeWhile (\<lambda>ch. ch \<noteq> CHR 0x00) s"

definition hex_digit :: "nat \<Rightarrow> char" where
  "hex_digit n = ''0123456789ABCDEF'' ! n"

definition hex_byte :: "char \<Rightarrow> string" where
  "hex_byte ch = [hex_digit (of_char ch div 16), hex_digit (of_char ch mod 16)]"

definition string_to_hex :: "string \<Rightarrow> string" where
  "string_to_hex s = concat (map hex_byte s)"

section \<open>The service\<close>

text \<open>
  \<open>sv_tick\<close> counts the clock readings of the service, \<open>sv_closed\<close> lists the descriptors its file
  handles have closed.
\<close>

record IOExecService =
  sv_ioConfig :: Config
  sv_ioexecVec :: "iox list"
  sv_fileTranslatorFunc :: "(string \<Rightarrow> nat \<Rightarrow> int \<times> string) option"
  sv_fileTranslatorStats :: StatsCounter
  sv_fileTranslatorHist :: Histogram
  sv_tick :: nat
  sv_closed :: "int list"

abbreviation PATH_MAX :: nat where "PATH_MAX \<equiv> 4096"

text \<open>
  \<open>callTranslator\<close> fills a buffer of \<open>PATH_MAX\<close> bytes; without a translator function the name is
  copied with \<open>strncpy\<close>, which leaves the last byte of the buffer unset when the name is too long, and
  the buffer is then read as a string.
\<close>

definition callTranslator ::
  "sysenv \<Rightarrow> string \<Rightarrow> nat \<Rightarrow> IOExecService \<Rightarrow> (int \<times> string \<times> IOExecService) res" where
  "callTranslator E old_name len sv =
     (let time = clock E (Suc (sv_tick sv)) - clock E (sv_tick sv)
      in rbind (case sv_fileTranslatorFunc sv of
                  Some f \<Rightarrow> Inr (f old_name len)
                | None \<Rightarrow> if length (c_str old_name) < PATH_MAX - 1 then Inr (0, c_str old_name)
                          else Inl (UndefinedBehaviour ''name buffer not terminated'')) (\<lambda>(ret, new_name).
         rbind (sc_updateStats E time (sv_fileTranslatorStats sv)) (\<lambda>st.
         rbind (h_updateStats E time (sv_fileTranslatorHist sv)) (\<lambda>h.
         Inr (ret, new_name, sv\<lparr>sv_fileTranslatorStats := st, sv_fileTranslatorHist := h,
                                 sv_tick := Suc (Suc (sv_tick sv))\<rparr>)))))"

text \<open>\<open>getSlot\<close>, with its conversion to \<open>CoreId\<close>, a 16-bit signed integer.\<close>

definition getSlot :: "(string \<Rightarrow> 64 word) \<Rightarrow> string \<Rightarrow> IOExecService \<Rightarrow> int" where
  "getSlot hasher fileName sv =
     sint (of_nat (unat (hasher (c_str fileName)) mod length (sv_ioexecVec sv)) :: 16 word)"

definition service_isValid :: "IOExecService \<Rightarrow> bool" where
  "service_isValid sv \<longleftrightarrow> sv_ioexecVec sv \<noteq> []"

definition IOExecGetNumExecutors :: "IOExecService \<Rightarrow> int" where
  "IOExecGetNumExecutors sv = sint (of_nat (length (sv_ioexecVec sv)) :: 32 word)"

text \<open>
  \<open>IOExecGetStats\<close>: the texts of the statistics are arguments. The result is the offset returned and
  the bytes written from the start of the buffer; the source copies \<open>len\<close> bytes when a text does not
  fit, whatever the offset.
\<close>

definition copy_stats :: "int \<Rightarrow> string \<Rightarrow> int \<times> string \<Rightarrow> int \<times> string" where
  "copy_stats len str = (\<lambda>(curOffset, buf).
     let copyLen = (if int (length str) \<ge> len - curOffset then word_of_int len else of_nat (length str)) :: 32 word
     in (sint (word_of_int curOffset + copyLen), buf @ strncpy str (unat copyLen)))"

fun getStats_loop :: "int \<Rightarrow> string list \<Rightarrow> int \<times> string \<Rightarrow> int \<times> string" where
  "getStats_loop len [] acc = acc"
| "getStats_loop len (str # strs) acc =
     (let acc' = copy_stats len str acc in if fst acc' \<ge> len then acc' else getStats_loop len strs acc')"

definition IOExecGetStats :: "string \<Rightarrow> string list \<Rightarrow> int \<Rightarrow> int \<times> string" where
  "IOExecGetStats translatorStats states len =
     (let acc = copy_stats len translatorStats (0, []) in
      if fst acc < len then getStats_loop len states acc else acc)"

section \<open>Starting and stopping the service\<close>

text \<open>
  What the system answers when the executor of a core is constructed: whether it could be allocated,
  then the arguments of \<open>IOExecutor_new\<close>.
\<close>

type_synonym core_env = "int \<Rightarrow> bool \<times> int \<times> int \<times> int \<times> int \<times> bool"

fun init_cores :: "core_env \<Rightarrow> Config \<Rightarrow> int list \<Rightarrow> iox list \<Rightarrow> (int \<times> iox list) res" where
  "init_cores cenv config [] vec = Inr (0, vec)"
| "init_cores cenv config (core # cores) vec =
     (case cenv core of (alloc_ok, epollFD, qret, evfd, ctl, threads_ok) \<Rightarrow>
        if \<not> alloc_ok then Inr (- ENOMEM, vec)
        else rbind (IOExecutor_new epollFD qret evfd ctl threads_ok config) (\<lambda>x.
             init_cores cenv config cores (vec @ [x])))"

definition doCommonInit :: "core_env \<Rightarrow> IOExecService \<Rightarrow> (int \<times> IOExecService) res" where
  "doCommonInit cenv sv =
     (if cf_cpuCores (sv_ioConfig sv) \<noteq> [] then
        rbind (init_cores cenv (sv_ioConfig sv) (cf_cpuCores (sv_ioConfig sv)) (sv_ioexecVec sv)) (\<lambda>(ret, vec).
        Inr (ret, sv\<lparr>sv_ioexecVec := vec\<rparr>))
      else Inr (- EINVAL, sv))"

definition IOExecService_new :: "(string \<Rightarrow> nat \<Rightarrow> int \<times> string) option \<Rightarrow> IOExecService" where
  "IOExecService_new translator =
     \<lparr>sv_ioConfig = Config_default, sv_ioexecVec = [], sv_fileTranslatorFunc = translator,
      sv_fileTranslatorStats = StatsCounter_init, sv_fileTranslatorHist = Histogram_reset, sv_tick = 0, sv_closed = []\<rparr>"

definition IOExecFileServiceInit ::
  "core_env \<Rightarrow> int \<Rightarrow> int \<Rightarrow> (string \<Rightarrow> nat \<Rightarrow> int \<times> string) option \<Rightarrow> IOExecService option res" where
  "IOExecFileServiceInit cenv numCoresForIO queueDepthForIO translator =
     (if numCoresForIO = 0 \<or> queueDepthForIO = 0 then Inr None
      else
        let sv = IOExecService_new translator;
            config = (sv_ioConfig sv)\<lparr>cf_cpuCores := cf_cpuCores (sv_ioConfig sv) @
                         map (\<lambda>idx. sint (word_of_int idx :: 16 word)) [0..numCoresForIO - 1],
                       cf_queueDepth := word_of_int queueDepthForIO\<rparr>
        in rbind (doCommonInit cenv (sv\<lparr>sv_ioConfig := config\<rparr>)) (\<lambda>(ret, sv').
           Inr (if ret \<noteq> 0 then None else Some sv')))"

text \<open>
  \<open>ParseConfigFile\<close>: whether the file could be opened, and the options boost read from it; an option
  boost rejects is an exception no caller catches.
\<close>

definition ParseConfigFile ::
  "bool \<Rightarrow> (32 word option \<times> int list option) option \<Rightarrow> Config \<Rightarrow> (int \<times> Config) res" where
  "ParseConfigFile is_open options config =
     (if is_open then
        (case options of None \<Rightarrow> Inl (Aborted ''boost::program_options exception'')
         | Some (depth, cores) \<Rightarrow> Inr (0, Config_options depth cores config))
      else Inr (-1, config))"

definition IOExecFileServiceInit_file ::
  "core_env \<Rightarrow> bool \<Rightarrow> (32 word option \<times> int list option) option \<Rightarrow>
    (string \<Rightarrow> nat \<Rightarrow> int \<times> string) option \<Rightarrow> IOExecService option res" where
  "IOExecFileServiceInit_file cenv is_open options translator =
     (let sv = IOExecService_new translator in
      rbind (ParseConfigFile is_open options (sv_ioConfig sv)) (\<lambda>(pret, config).
      if pret < 0 then Inr None
      else if cf_cpuCores config = [] then Inr None
      else rbind (doCommonInit cenv (sv\<lparr>sv_ioConfig := config\<rparr>)) (\<lambda>(ret, sv').
           Inr (if ret \<noteq> 0 then None else Some sv'))))"

text \<open>
  \<open>stop\<close> of every executor: the functions say what the other threads do until the submitter and fd
  threads have ended, and until the completion thread has.
\<close>

definition stop_executor :: "(iox \<Rightarrow> iox) \<Rightarrow> (iox \<Rightarrow> iox) \<Rightarrow> iox \<Rightarrow> iox res" where
  "stop_executor intake_end final_end x = stop_done (final_end (stop_final (intake_end (stop_intake x))))"

fun stop_all :: "(iox \<Rightarrow> iox) \<Rightarrow> (iox \<Rightarrow> iox) \<Rightarrow> iox list \<Rightarrow> iox list res" where
  "stop_all f g [] = Inr []"
| "stop_all f g (x # xs) = rbind (stop_executor f g x) (\<lambda>x'. rbind (stop_all f g xs) (\<lambda>xs'. Inr (x' # xs')))"

definition IOExecFileServiceDestroy ::
  "(iox \<Rightarrow> iox) \<Rightarrow> (iox \<Rightarrow> iox) \<Rightarrow> IOExecService option \<Rightarrow> (int \<times> iox list) res" where
  "IOExecFileServiceDestroy f g svh =
     (case svh of None \<Rightarrow> Inr (- EINVAL, [])
      | Some sv \<Rightarrow> rbind (stop_all f g (sv_ioexecVec sv)) (\<lambda>vec. Inr (0, vec)))"

section \<open>Event pipes\<close>

record IOExecEventFd =
  ev_fd0 :: int
  ev_fd1 :: int

definition IOExecEventFd_new :: "int \<Rightarrow> int \<Rightarrow> IOExecEventFd res" where
  "IOExecEventFd_new fd0 fd1 =
     rbind (rassert ''fd[0] >= 0'' (fd0 \<ge> 0)) (\<lambda>_.
     rbind (rassert ''fd[1] >= 0'' (fd1 \<ge> 0)) (\<lambda>_. Inr \<lparr>ev_fd0 = fd0, ev_fd1 = fd1\<rparr>))"

text \<open>When \<open>pipe\<close> fails the source closes the two descriptors of an array it never initialised.\<close>

definition IOExecEventFdOpen :: "int \<times> int \<times> int \<Rightarrow> IOExecService option \<Rightarrow> IOExecEventFd option res" where
  "IOExecEventFdOpen pipe svh =
     (case svh of None \<Rightarrow> Inr None
      | Some sv \<Rightarrow>
          if \<not> service_isValid sv then Inr None
          else case pipe of (retcode, fd0, fd1) \<Rightarrow>
            if retcode \<noteq> 0 then Inl (UndefinedBehaviour ''close of uninitialised descriptors'')
            else rbind (IOExecEventFd_new fd0 fd1) (\<lambda>e. Inr (Some e)))"

text \<open>The second component lists the descriptors closed.\<close>

definition IOExecEventFdClose :: "IOExecEventFd option \<Rightarrow> int \<times> int list" where
  "IOExecEventFdClose evh = (0, case evh of None \<Rightarrow> [] | Some e \<Rightarrow> [ev_fd0 e, ev_fd1 e])"

definition IOExecEventFdGetReadFd :: "IOExecEventFd option \<Rightarrow> int" where
  "IOExecEventFdGetReadFd evh = (case evh of None \<Rightarrow> FD_INVALID | Some e \<Rightarrow> ev_fd0 e)"

section \<open>Files\<close>

record IOExecFile =
  fh_fd :: int
  fh_core :: int

definition IOExecFile_new :: "int \<Rightarrow> int \<Rightarrow> IOExecFile res" where
  "IOExecFile_new fd core = rbind (rassert ''fd >= 0'' (fd \<ge> 0)) (\<lambda>_. Inr \<lparr>fh_fd = fd, fh_core = core\<rparr>)"

definition IOExecFileOpen ::
  "sysenv \<Rightarrow> (string \<Rightarrow> 64 word) \<Rightarrow> (string \<Rightarrow> int \<Rightarrow> int) \<Rightarrow> string \<Rightarrow> nat \<Rightarrow> int \<Rightarrow>
    IOExecService option \<Rightarrow> (IOExecFile option \<times> IOExecService option) res" where
  "IOExecFileOpen E hasher open_file fileName fileNameLength flags svh =
     (case svh of None \<Rightarrow> Inr (None, svh)
      | Some sv \<Rightarrow>
          if \<not> service_isValid sv then Inr (None, svh)
          else rbind (callTranslator E fileName fileNameLength sv) (\<lambda>(translateRet, absFileName, sv1).
               if translateRet < 0 then Inr (None, Some sv1)
               else let fd = open_file absFileName flags in
                    if fd < 0 then Inr (None, Some sv1)
                    else rbind (IOExecFile_new fd (getSlot hasher fileName sv1)) (\<lambda>h. Inr (Some h, Some sv1))))"

definition IOExecFileClose :: "IOExecFile option \<Rightarrow> IOExecService \<Rightarrow> int \<times> IOExecService" where
  "IOExecFileClose fh sv =
     (0, case fh of None \<Rightarrow> sv
         | Some h \<Rightarrow> if fh_fd h \<noteq> -1 then sv\<lparr>sv_closed := sv_closed sv @ [fh_fd h]\<rparr> else sv)"

text \<open>\<open>ftruncate\<close> answers 0 or an errno.\<close>

definition IOExecFileTruncate :: "(int \<Rightarrow> 64 word \<Rightarrow> int) \<Rightarrow> IOExecFile option \<Rightarrow> 64 word \<Rightarrow> int" where
  "IOExecFileTruncate ftruncate_err fh newSize =
     (case fh of None \<Rightarrow> - EINVAL
      | Some h \<Rightarrow> let err = ftruncate_err (fh_fd h) newSize in if err = 0 then 0 else - err)"

section \<open>Submitting a batch\<close>

definition make_job :: "FileOp \<Rightarrow> int \<Rightarrow> bool \<Rightarrow> int \<Rightarrow> gIOExecFragment \<Rightarrow> FilerJob res" where
  "make_job optype fd closeFileHandle jobFd frag =
     rbind (FilerJob_fd fd optype) (\<lambda>job.
     Inr ((setBuffer (fr_offset frag) (fr_addr frag) (fr_size frag) job)
       \<lparr>fj_completionId := fr_completionId frag, fj_completionFd := jobFd, fj_canBeFreed := True,
        fj_closeFileHandle := closeFileHandle\<rparr>))"

definition delete_job :: "nat \<Rightarrow> iox \<Rightarrow> iox" where
  "delete_job p x = x\<lparr>ix_jobs := (ix_jobs x)(p := None)\<rparr>"

text \<open>
  The loop over the fragments: \<open>addr idx\<close> is the address of the job allocated for the fragment with
  index \<open>idx\<close>, \<open>io idx\<close> are the answers of \<open>io_submit\<close> during its \<open>submitTask\<close>.
\<close>

definition skipped :: "gIOExecFragment \<Rightarrow> bool" where
  "skipped frag \<longleftrightarrow> fr_size frag = 0 \<or> fr_addr frag = 0"

fun fileop_loop ::
  "sysenv \<Rightarrow> (nat \<Rightarrow> nat \<Rightarrow> iocb list \<Rightarrow> int) \<Rightarrow> (nat \<Rightarrow> nat) \<Rightarrow> (gIOExecFragment \<Rightarrow> FilerJob res) \<Rightarrow>
    gIOBatch \<Rightarrow> nat \<Rightarrow> int \<Rightarrow> iox \<Rightarrow> (int \<times> iox) res" where
  "fileop_loop E io addr mk [] idx retcode x = Inr (retcode, x)"
| "fileop_loop E io addr mk (frag # frags) idx retcode x =
     (if skipped frag then fileop_loop E io addr mk frags (Suc idx) retcode x
      else
        rbind (mk frag) (\<lambda>job.
        rbind (submitTask E (io idx) False (addr idx) (put_job (addr idx) job x)) (\<lambda>(ret, x1).
        fileop_loop E io addr mk frags (Suc idx) ret (if ret \<noteq> 0 then delete_job (addr idx) x1 else x1))))"

definition IOExecFileOp ::
  "sysenv \<Rightarrow> (nat \<Rightarrow> nat \<Rightarrow> iocb list \<Rightarrow> int) \<Rightarrow> (nat \<Rightarrow> nat) \<Rightarrow> FileOp \<Rightarrow> IOExecFile option \<Rightarrow> bool \<Rightarrow> gIOBatch \<Rightarrow>
    IOExecEventFd option \<Rightarrow> IOExecService \<Rightarrow> (int \<times> IOExecService) res" where
  "IOExecFileOp E io addr optype fh closeFileHandle batch evh sv =
     (case evh of None \<Rightarrow> Inr (- EINVAL, sv)
      | Some ev \<Rightarrow>
          if ev_fd1 ev = FD_INVALID then Inr (- EINVAL, sv)
          else case fh of None \<Rightarrow> Inr (- EINVAL, sv)
          | Some h \<Rightarrow>
              if fh_core h < 0 \<or> nat (fh_core h) \<ge> length (sv_ioexecVec sv) then Inr (- EINVAL, sv)
              else let core = nat (fh_core h) in
                rbind (fileop_loop E io addr (make_job optype (fh_fd h) closeFileHandle (ev_fd1 ev)) batch 0 0
                         (sv_ioexecVec sv ! core)) (\<lambda>(ret, x).
                Inr (ret, sv\<lparr>sv_ioexecVec := (sv_ioexecVec sv)[core := x]\<rparr>)))"

definition IOExecFileWrite ::
  "sysenv \<Rightarrow> (nat \<Rightarrow> nat \<Rightarrow> iocb list \<Rightarrow> int) \<Rightarrow> (nat \<Rightarrow> nat) \<Rightarrow> IOExecFile option \<Rightarrow> gIOBatch \<Rightarrow>
    IOExecEventFd option \<Rightarrow> IOExecService \<Rightarrow> (int \<times> IOExecService) res" where
  "IOExecFileWrite E io addr fh batch evh sv = IOExecFileOp E io addr Write fh False batch evh sv"

definition IOExecFileRead ::
  "sysenv \<Rightarrow> (nat \<Rightarrow> nat \<Rightarrow> iocb list \<Rightarrow> int) \<Rightarrow> (nat \<Rightarrow> nat) \<Rightarrow> IOExecFile option \<Rightarrow> gIOBatch \<Rightarrow>
    IOExecEventFd option \<Rightarrow> IOExecService \<Rightarrow> (int \<times> IOExecService) res" where
  "IOExecFileRead E io addr fh batch evh sv = IOExecFileOp E io addr Read fh False batch evh sv"

text \<open>Reading a file by name; \<open>O_DIRECT | O_RDONLY\<close> is \<open>0x4000\<close> on the platforms of the build.\<close>

definition IOExecFileRead_name ::
  "sysenv \<Rightarrow> (nat \<Rightarrow> nat \<Rightarrow> iocb list \<Rightarrow> int) \<Rightarrow> (nat \<Rightarrow> nat) \<Rightarrow> (string \<Rightarrow> 64 word) \<Rightarrow> (string \<Rightarrow> int \<Rightarrow> int) \<Rightarrow>
    string \<Rightarrow> nat \<Rightarrow> gIOBatch \<Rightarrow> IOExecEventFd option \<Rightarrow> IOExecService option \<Rightarrow>
    (int \<times> IOExecService option) res" where
  "IOExecFileRead_name E io addr hasher open_file fileName fileNameLength batch evh svh =
     rbind (IOExecFileOpen E hasher open_file fileName fileNameLength 0x4000 svh) (\<lambda>(fh, svh1).
     case (fh, svh1) of
       (Some h, Some sv) \<Rightarrow>
         rbind (IOExecFileOp E io addr Read fh True batch evh sv) (\<lambda>(ret, sv1).
         if ret = 0 then Inr (ret, Some (snd (IOExecFileClose (Some (h\<lparr>fh_fd := FD_INVALID\<rparr>)) sv1)))
         else rbind (rassert ''fd != FD_INVALID'' (fh_fd h \<noteq> FD_INVALID)) (\<lambda>_.
              Inr (ret, Some (snd (IOExecFileClose (Some h) sv1)))))
     | _ \<Rightarrow> Inr (- EIO, svh1))"

section \<open>Deleting\<close>

definition IOExecFileDeleteSync ::
  "sysenv \<Rightarrow> (string \<Rightarrow> int) \<Rightarrow> string \<Rightarrow> IOExecService option \<Rightarrow> (int \<times> IOExecService option) res" where
  "IOExecFileDeleteSync E unlink_err fileName svh =
     (case svh of None \<Rightarrow> Inl (NullDeref ''serviceHandle'')
      | Some sv \<Rightarrow>
          rbind (callTranslator E fileName (length (c_str fileName)) sv) (\<lambda>(translateRet, absFileName, sv1).
          if translateRet < 0 then Inr (- EINVAL, Some sv1)
          else let err = unlink_err absFileName in Inr (if err \<noteq> 0 then - err else 0, Some sv1)))"

definition IOExecFileDelete ::
  "sysenv \<Rightarrow> (nat \<Rightarrow> iocb list \<Rightarrow> int) \<Rightarrow> nat \<Rightarrow> string \<Rightarrow> 64 word \<Rightarrow> IOExecEventFd option \<Rightarrow>
    IOExecService option \<Rightarrow> (int \<times> IOExecService option) res" where
  "IOExecFileDelete E io addr fileName completionId evh svh =
     (case svh of None \<Rightarrow> Inr (- EINVAL, svh)
      | Some sv \<Rightarrow>
          if \<not> service_isValid sv then Inr (- EINVAL, svh)
          else case evh of None \<Rightarrow> Inr (- EINVAL, svh)
          | Some ev \<Rightarrow>
              if ev_fd1 ev = FD_INVALID then Inr (- EINVAL, svh)
              else rbind (callTranslator E fileName (length (c_str fileName)) sv) (\<lambda>(translateRet, absFileName, sv1).
                if translateRet < 0 then Inr (- EINVAL, Some sv1)
                else
                  let job = (FilerJob_file absFileName Delete)
                        \<lparr>fj_completionId := completionId, fj_completionFd := ev_fd1 ev, fj_canBeFreed := True\<rparr>
                  in rbind (submitTask E io True addr (put_job addr job (hd (sv_ioexecVec sv1)))) (\<lambda>(retcode, x).
                     Inr (retcode, Some (sv1\<lparr>sv_ioexecVec :=
                       (sv_ioexecVec sv1)[0 := if retcode \<noteq> 0 then delete_job addr x else x]\<rparr>)))))"

end
