(* ===== verification/IO_Exec_File_Props.thy ===== *)
theory IO_Exec_File_Props
  imports IO_Exec_File IO_Executor_Safety
begin

text \<open>
  What the file service guarantees: a batch is a run of the executor of its file, the descriptors of
  files read by name, the statistics buffer, the start of the service, and names printed in
  hexadecimal.
\<close>

section \<open>A batch as a run of the executor\<close>

lemma begin_need_process:
  assumes "submitTask_begin E b p s = Inr (NeedProcess, x)"
  shows "ix_requestQueueSize x \<ge> sint (ix_minSubmitSize x)"
  using assms unfolding submitTask_begin_def submit_request_def submit_fd_def Let_def rbind_eq_Inr
  by (auto simp: rbind_eq_Inr Let_def split: if_splits)

lemma process_blocked:
  assumes "ix_requestQueueSize x \<ge> sint (ix_minSubmitSize x)" "ix_ctxCond x = 0"
  shows "\<exists>msg. submitTask_process E io x = Inl (Blocked msg)"
  using assms by (auto simp: submitTask_process_def ProcessRequestQueue_def pause_ctxCond_def)

text \<open>What running one submission to its end does to the system of threads.\<close>

definition submitted :: "sysenv \<Rightarrow> nat \<Rightarrow> FilerJob \<Rightarrow> xsys \<Rightarrow> int \<Rightarrow> iox \<Rightarrow> xsys \<Rightarrow> bool" where
  "submitted E p job st r x st' \<longleftrightarrow>
     (xstep E)\<^sup>*\<^sup>* st st' \<and> xs_x st' = (if r \<noteq> 0 then delete_job p x else x) \<and>
     xs_acc st' = xs_acc st @ (if r = 0 then [jtag job] else []) \<and>
     (\<forall>q. q \<noteq> p \<longrightarrow> ix_jobs (xs_x st) q = None \<longrightarrow> ix_jobs (xs_x st') q = None)"

lemma process_run:
  assumes "sysinv E st" "takes_all io" "xs_procs st > 0"
    and "ix_requestQueueSize (xs_x st) \<ge> sint (ix_minSubmitSize (xs_x st))"
  shows "(\<exists>msg. submitTask_process E io (xs_x st) = Inl (Blocked msg)) \<or>
    (\<exists>x st'. submitTask_process E io (xs_x st) = Inr x \<and> xstep E st st' \<and> xs_x st' = x \<and> xs_acc st' = xs_acc st \<and>
       (\<forall>q. ix_jobs (xs_x st) q = None \<longrightarrow> ix_jobs x q = None))"
proof (cases "ix_ctxCond (xs_x st) = 0")
  case True
  then show ?thesis using process_blocked [OF assms(4)] by blast
next
  case False
  then obtain x where x: "submitTask_process E io (xs_x st) = Inr x"
    using AProcess_ok [OF assms(1,2), of 0] by auto
  let ?st' = "st\<lparr>xs_x := x, xs_procs := xs_procs st - 1\<rparr>"
  have st': "xstep E st ?st'"
    using False assms(2,3) x by (intro xstepI [of "AProcess io"]) simp_all
  obtain n where "ProcessRequestQueue E io (xs_x st) = Inr (n, x)"
    using x assms(4) by (auto simp: submitTask_process_def rbind_eq_Inr)
  then have "touches (set (ix_requestQueue (xs_x st))) (xs_x st) x" by (rule touches_ProcessRequestQueue)
  moreover have "q \<notin> set (ix_requestQueue (xs_x st))" if "ix_jobs (xs_x st) q = None" for q
    using that owned_in_heap [of E "[]" "xs_x st" q] assms(1) by (force simp: sysinv_def xinv_def owned_def)
  ultimately have "ix_jobs x q = None" if "ix_jobs (xs_x st) q = None" for q
    using that by (auto simp: touches_def)
  with st' show ?thesis using x by auto
qed

lemma submit_run:
  assumes inv: "sysinv E st" and job: "new_job job" "ix_jobs (xs_x st) p = None"
    and "takes_all io" "Suc (length (xs_acc st)) < 2 ^ 32"
  defines "x0 \<equiv> put_job p job (xs_x st)"
  shows "(\<exists>msg. submitTask E io b p x0 = Inl (Blocked msg)) \<or>
    (\<exists>r x st'. submitTask E io b p x0 = Inr (r, x) \<and> submitted E p job st r x st')"
proof -
  define st1 where "st1 = st\<lparr>xs_x := x0, xs_new := p # xs_new st\<rparr>"
  have s1: "xstep E st st1"
    using job by (intro xstepI [of "ANew p job"]) (simp_all add: st1_def x0_def)
  have inv1: "sysinv E st1" using ANew_ok [OF inv job] by (simp add: st1_def x0_def)
  have p1: "p \<in> set (xs_new st1)" "ix_jobs (xs_x st1) p = Some job" by (simp_all add: st1_def x0_def put_job_def)
  have acc1: "xs_acc st1 = xs_acc st" "xs_x st1 = x0" by (simp_all add: st1_def)
  have np: "p \<notin> set (owned [] (xs_x st1))" using inv1 p1(1) by (auto simp: sysinv_def pending_ok_def pending_def)
  obtain ph x1 where x1: "submitTask_begin E b p x0 = Inr (ph, x1)" "touches {p} x0 x1"
    using submitTask_begin_ok [OF _ _ p1(2) job(1) np, of E "xs_acc st1" b] inv1 assms(5) acc1
    unfolding sysinv_def by metis
  define st2 where "st2 = after_submit p (jtag job) ph x1 (st1\<lparr>xs_new := remove1 p (xs_new st1)\<rparr>)"
  have e2: "exec_action E (ABegin b p) st1 = Some (Inr st2)"
    using p1 x1(1) by (simp add: acc1 st2_def tag_of_def)
  then have s2: "xstep E st1 st2" using assms(5) acc1 by (intro xstepI [of "ABegin b p"]) simp_all
  have inv2: "sysinv E st2" using ioexec.inv_step [OF inv1 s2] .
  have x2: "xs_x st2 = x1" by (cases ph) (simp_all add: st2_def after_submit_def)
  have fresh: "ix_jobs x1 q = None" if "q \<noteq> p" "ix_jobs (xs_x st) q = None" for q
    using that x1(2) by (auto simp: touches_def x0_def put_job_def)
  have path: "(xstep E)\<^sup>*\<^sup>* st st2" using s1 s2 by (meson r_into_rtranclp rtranclp_trans)
  show ?thesis
  proof (cases ph)
    case (Returned r)
    then have t: "submitTask E io b p x0 = Inr (r, x1)" by (simp add: submitTask_def x1(1))
    show ?thesis
    proof (cases "r = 0")
      case True
      then have "submitted E p job st r x1 st2"
        using path fresh x2 Returned acc1 by (simp add: submitted_def st2_def after_submit_def)
      with t show ?thesis by blast
    next
      case False
      define st3 where "st3 = st2\<lparr>xs_x := delete_job p x1, xs_new := remove1 p (xs_new st2)\<rparr>"
      have "xstep E st2 st3"
        using False Returned x2 by (intro xstepI [of "ADelete p"]) (simp_all add: st3_def delete_job_def st2_def after_submit_def)
      with path have "(xstep E)\<^sup>*\<^sup>* st st3" by (rule rtranclp.rtrancl_into_rtrancl)
      then have "submitted E p job st r x1 st3"
        using False fresh Returned acc1 by (simp add: submitted_def st3_def st2_def after_submit_def delete_job_def)
      with t show ?thesis by blast
    qed
  next
    case NeedProcess
    have "xs_procs st2 > 0" by (simp add: st2_def after_submit_def NeedProcess)
    moreover have "ix_requestQueueSize (xs_x st2) \<ge> sint (ix_minSubmitSize (xs_x st2))"
      using begin_need_process x1(1) NeedProcess x2 by simp
    ultimately consider (blocked) msg where "submitTask_process E io x1 = Inl (Blocked msg)"
      | (ran) x st' where "submitTask_process E io x1 = Inr x" "xstep E st2 st'" "xs_x st' = x" "xs_acc st' = xs_acc st2"
          "\<forall>q. ix_jobs x1 q = None \<longrightarrow> ix_jobs x q = None"
      using process_run [OF inv2 assms(4)] x2 by fastforce
    then show ?thesis
    proof cases
      case blocked
      then show ?thesis by (simp add: submitTask_def x1(1) NeedProcess)
    next
      case ran
      have "submitted E p job st 0 x st'"
        using path ran fresh NeedProcess acc1 by (auto simp: submitted_def st2_def after_submit_def)
      moreover have "submitTask E io b p x0 = Inr (0, x)" using ran(1) by (simp add: submitTask_def x1(1) NeedProcess)
      ultimately show ?thesis by blast
    qed
  qed (simp_all add: submitTask_def x1(1))
qed

lemma submitted_inv:
  assumes "sysinv E st" "submitted E p job st r x st'"
  shows "sysinv E st'"
proof -
  have "(xstep E)\<^sup>*\<^sup>* st st'" using assms(2) by (simp add: submitted_def)
  then show ?thesis using assms(1) by (induction rule: rtranclp_induct) (auto intro: ioexec.inv_step)
qed

text \<open>The fragments a batch submits, and the requests those with return code 0 add.\<close>

definition wanted :: "gIOBatch \<Rightarrow> gIOBatch" where
  "wanted batch = filter (\<lambda>f. \<not> skipped f) batch"

definition accepted :: "int \<Rightarrow> gIOBatch \<Rightarrow> int list \<Rightarrow> (int \<times> 64 word) list" where
  "accepted jobFd frags rs = map (\<lambda>(f, r). (jobFd, fr_completionId f)) (filter (\<lambda>(f, r). r = 0) (zip frags rs))"

definition frag_ok :: "gIOExecFragment \<Rightarrow> bool" where
  "frag_ok f \<longleftrightarrow> skipped f \<or> RoundToNext512 (fr_size f) \<noteq> 0"

lemma make_job_new:
  assumes "op = Read \<or> op = Write" "fd \<noteq> FD_INVALID" "frag_ok f" "\<not> skipped f"
  shows "\<exists>job. make_job op fd close jobFd f = Inr job \<and> new_job job \<and> jtag job = (jobFd, fr_completionId f)"
  using assms
  by (auto simp: make_job_def FilerJob_fd_def new_job_def job_fresh_def rw_op_def jtag_def FilerJob_blank_def frag_ok_def setBuffer_def)

lemma fileop_run:
  fixes close :: bool and jobFd :: int
  assumes "sysinv E st" "op = Read \<or> op = Write" "fd \<noteq> FD_INVALID" "\<forall>i. takes_all (io i)" "inj addr"
    and "\<forall>f\<in>set frags. frag_ok f" "\<forall>i\<ge>idx. ix_jobs (xs_x st) (addr i) = None"
    and "length (xs_acc st) + length frags < 2 ^ 32"
  defines "loop \<equiv> fileop_loop E io addr (make_job op fd close jobFd)"
  shows "(\<exists>msg. loop frags idx ret (xs_x st) = Inl (Blocked msg)) \<or>
    (\<exists>rs st'. loop frags idx ret (xs_x st) = Inr (last (ret # rs), xs_x st') \<and> (xstep E)\<^sup>*\<^sup>* st st' \<and>
       length rs = length (wanted frags) \<and> xs_acc st' = xs_acc st @ accepted jobFd (wanted frags) rs)"
  using assms(1,6-8)
proof (induction frags arbitrary: idx ret st)
  case Nil
  have "loop [] idx ret (xs_x st) = Inr (last (ret # []), xs_x st)" by (simp add: loop_def)
  moreover have "xs_acc st = xs_acc st @ accepted jobFd (wanted []) []" by (simp add: accepted_def wanted_def)
  ultimately show ?case by (intro disjI2 exI [of _ "[]"] exI [of _ st] conjI) (simp_all add: wanted_def)
next
  case (Cons f frags)
  show ?case
  proof (cases "skipped f")
    case True
    then show ?thesis
      using Cons.IH [OF Cons.prems(1), of "Suc idx" ret] Cons.prems by (simp add: loop_def wanted_def)
  next
    case False
    obtain job where job: "make_job op fd close jobFd f = Inr job" "new_job job" "jtag job = (jobFd, fr_completionId f)"
      using make_job_new [OF assms(2,3) _ False, of close jobFd] Cons.prems(2) by auto
    let ?sub = "submitTask E (io idx) False (addr idx) (put_job (addr idx) job (xs_x st))"
    consider (blocked) msg where "?sub = Inl (Blocked msg)"
      | (ran) r x st1 where "?sub = Inr (r, x)" "submitted E (addr idx) job st r x st1"
    proof -
      have "ix_jobs (xs_x st) (addr idx) = None" "takes_all (io idx)" "Suc (length (xs_acc st)) < 2 ^ 32"
        using assms(4) Cons.prems(3,4) by simp_all
      from submit_run [OF Cons.prems(1) job(2) this, of False] that show thesis by blast
    qed
    then show ?thesis
    proof cases
      case blocked
      then show ?thesis using False job(1) by (auto simp: loop_def)
    next
      case ran
      have st1: "sysinv E st1" by (rule submitted_inv [OF Cons.prems(1) ran(2)])
      have l: "loop (f # frags) idx ret (xs_x st) = loop frags (Suc idx) r (xs_x st1)"
        using False job(1) ran by (simp add: loop_def submitted_def)
      have fresh: "\<forall>i\<ge>Suc idx. ix_jobs (xs_x st1) (addr i) = None"
      proof (intro allI impI)
        fix i assume "Suc idx \<le> i"
        then have "addr i \<noteq> addr idx" "idx \<le> i" using assms(5) by (simp_all add: inj_eq)
        moreover have "\<forall>q. q \<noteq> addr idx \<longrightarrow> ix_jobs (xs_x st) q = None \<longrightarrow> ix_jobs (xs_x st1) q = None"
          using ran(2) unfolding submitted_def by (elim conjE)
        ultimately show "ix_jobs (xs_x st1) (addr i) = None" using Cons.prems(3) by simp
      qed
      have acc1: "xs_acc st1 = xs_acc st @ (if r = 0 then [(jobFd, fr_completionId f)] else [])"
        using ran(2) job(3) by (simp add: submitted_def)
      then have "length (xs_acc st1) + length frags < 2 ^ 32" using Cons.prems(4) by simp
      moreover have "\<forall>f\<in>set frags. frag_ok f" using Cons.prems(2) by simp
      ultimately have ih: "(\<exists>msg. loop frags (Suc idx) r (xs_x st1) = Inl (Blocked msg)) \<or>
          (\<exists>rs st'. loop frags (Suc idx) r (xs_x st1) = Inr (last (r # rs), xs_x st') \<and> (xstep E)\<^sup>*\<^sup>* st1 st' \<and>
            length rs = length (wanted frags) \<and> xs_acc st' = xs_acc st1 @ accepted jobFd (wanted frags) rs)"
        by (intro Cons.IH st1 fresh)
      consider (b) msg where "loop (f # frags) idx ret (xs_x st) = Inl (Blocked msg)"
        | (d) rs st' where "loop (f # frags) idx ret (xs_x st) = Inr (last (r # rs), xs_x st')" "(xstep E)\<^sup>*\<^sup>* st1 st'"
            "length rs = length (wanted frags)" "xs_acc st' = xs_acc st1 @ accepted jobFd (wanted frags) rs"
        using ih unfolding l by (elim disjE exE conjE)
      then show ?thesis
      proof cases
        case b
        then show ?thesis by blast
      next
        case d
        have "(xstep E)\<^sup>*\<^sup>* st st1" using ran(2) unfolding submitted_def by (elim conjE)
        then have "(xstep E)\<^sup>*\<^sup>* st st'" using d(2) by (rule rtranclp_trans)
        moreover have "xs_acc st' = xs_acc st @ accepted jobFd (wanted (f # frags)) (r # rs)"
          using d(4) acc1 False by (simp add: accepted_def wanted_def)
        moreover have "length (r # rs) = length (wanted (f # frags))" using d(3) False by (simp add: wanted_def)
        moreover have "loop (f # frags) idx ret (xs_x st) = Inr (last (ret # r # rs), xs_x st')" using d(1) by simp
        ultimately show ?thesis by (intro disjI2 exI [of _ "r # rs"] exI [of _ st'] conjI)
      qed
    qed
  qed
qed

lemma IOExecFileOp_jobs:
  assumes "sysinv E st" "op = Read \<or> op = Write" "fh_fd h \<noteq> FD_INVALID" "ev_fd1 ev \<noteq> FD_INVALID"
    and "0 \<le> fh_core h" "nat (fh_core h) < length (sv_ioexecVec sv)" "sv_ioexecVec sv ! nat (fh_core h) = xs_x st"
    and "\<forall>i. takes_all (io i)" "inj addr" "\<forall>i. ix_jobs (xs_x st) (addr i) = None" "\<forall>f\<in>set batch. frag_ok f"
    and "length (xs_acc st) + length batch < 2 ^ 32"
  shows "(\<exists>msg. IOExecFileOp E io addr op (Some h) close batch (Some ev) sv = Inl (Blocked msg)) \<or>
    (\<exists>rs st'. IOExecFileOp E io addr op (Some h) close batch (Some ev) sv =
        Inr (last (0 # rs), sv\<lparr>sv_ioexecVec := (sv_ioexecVec sv)[nat (fh_core h) := xs_x st']\<rparr>) \<and>
       (xstep E)\<^sup>*\<^sup>* st st' \<and> length rs = length (wanted batch) \<and>
       xs_acc st' = xs_acc st @ accepted (ev_fd1 ev) (wanted batch) rs)"
proof -
  have fresh: "\<forall>i\<ge>0. ix_jobs (xs_x st) (addr i) = None" using assms(10) by blast
  let ?loop = "fileop_loop E io addr (make_job op (fh_fd h) close (ev_fd1 ev)) batch 0 0 (xs_x st)"
  have op: "IOExecFileOp E io addr op (Some h) close batch (Some ev) sv = rbind ?loop (\<lambda>(ret, x).
      Inr (ret, sv\<lparr>sv_ioexecVec := (sv_ioexecVec sv)[nat (fh_core h) := x]\<rparr>))"
    using assms(4-7) by (simp add: IOExecFileOp_def Let_def)
  consider (b) msg where "?loop = Inl (Blocked msg)"
    | (d) rs st' where "?loop = Inr (last (0 # rs), xs_x st')" "(xstep E)\<^sup>*\<^sup>* st st'" "length rs = length (wanted batch)"
        "xs_acc st' = xs_acc st @ accepted (ev_fd1 ev) (wanted batch) rs"
    using fileop_run [OF assms(1-3,8,9,11) fresh assms(12), of close "ev_fd1 ev" 0] by (elim disjE exE conjE)
  then show ?thesis
  proof cases
    case b
    then show ?thesis by (simp only: op rbind_simps) blast
  next
    case d
    have "IOExecFileOp E io addr op (Some h) close batch (Some ev) sv =
        Inr (last (0 # rs), sv\<lparr>sv_ioexecVec := (sv_ioexecVec sv)[nat (fh_core h) := xs_x st']\<rparr>)"
      by (simp only: op d(1) rbind_simps prod.case)
    with d show ?thesis by blast
  qed
qed


definition demo_service :: IOExecService where
  "demo_service = (IOExecService_new None)\<lparr>sv_ioexecVec := [demo_iox]\<rparr>"

definition demo_frag :: gIOExecFragment where
  "demo_frag = \<lparr>fr_completionId = 77, fr_offset = 0, fr_size = 512, fr_addr = 4096\<rparr>"

lemma demo_frag_ok: "frag_ok demo_frag"
  by (simp add: frag_ok_def demo_frag_def skipped_def RoundToNext512_def DirectIOSize_def)


section \<open>Descriptors of files read by name\<close>

lemma getSlot_range:
  assumes "sv_ioexecVec sv \<noteq> []" "length (sv_ioexecVec sv) \<le> 2 ^ 15"
  shows "0 \<le> getSlot hasher name sv \<and> nat (getSlot hasher name sv) < length (sv_ioexecVec sv)"
proof -
  let ?k = "unat (hasher (c_str name)) mod length (sv_ioexecVec sv)"
  have k: "?k < length (sv_ioexecVec sv)" using assms(1) by simp
  then have "?k < 2 ^ 15" using assms(2) by simp
  then have "sint (of_nat ?k :: 16 word) = int ?k"
    by (simp add: signed_of_nat signed_take_bit_int_eq_self)
  with k show ?thesis by (simp add: getSlot_def)
qed

lemma fileop_loop_skips:
  "wanted batch = [] \<Longrightarrow> fileop_loop E io addr mk batch idx ret x = Inr (ret, x)"
  by (induction batch arbitrary: idx) (auto simp: wanted_def split: if_splits)

lemma callTranslator_vec:
  "callTranslator E name len sv = Inr (r, abs_name, sv') \<Longrightarrow> sv_ioexecVec sv' = sv_ioexecVec sv \<and> sv_closed sv' = sv_closed sv"
  by (auto simp: callTranslator_def rbind_eq_Inr Let_def)

lemma open_core:
  assumes "IOExecFileOpen E hasher open_file name len flags svh = Inr (Some h, Some sv)"
    and "length (sv_ioexecVec sv) \<le> 2 ^ 15"
  shows "0 \<le> fh_core h \<and> nat (fh_core h) < length (sv_ioexecVec sv) \<and> 0 \<le> fh_fd h"
proof -
  obtain sv0 where sv0: "svh = Some sv0" using assms(1) by (auto simp: IOExecFileOpen_def split: option.splits)
  then obtain r a where t: "callTranslator E name len sv0 = Inr (r, a, sv)" "sv_ioexecVec sv0 \<noteq> []"
      "h = \<lparr>fh_fd = open_file a flags, fh_core = getSlot hasher name sv\<rparr>" "open_file a flags \<ge> 0"
    using assms(1)
    by (auto simp: IOExecFileOpen_def IOExecFile_new_def rbind_eq_Inr service_isValid_def Let_def split: if_splits)
  have "sv_ioexecVec sv \<noteq> []" using callTranslator_vec [OF t(1)] t(2) by simp
  from getSlot_range [OF this assms(2), of hasher name] t(3,4) show ?thesis by simp
qed

lemma named_read_no_job:
  assumes "IOExecFileOpen E hasher open_file name len 0x4000 svh = Inr (Some h, Some sv)"
    and "length (sv_ioexecVec sv) \<le> 2 ^ 15" "ev_fd1 ev \<noteq> FD_INVALID" "wanted batch = []"
  shows "IOExecFileRead_name E io addr hasher open_file name len batch (Some ev) svh = Inr (0, Some sv) \<and>
    0 \<le> fh_fd h"
proof -
  have c: "0 \<le> fh_core h" "nat (fh_core h) < length (sv_ioexecVec sv)" "0 \<le> fh_fd h"
    using open_core [OF assms(1,2)] by simp_all
  have "IOExecFileOp E io addr Read (Some h) True batch (Some ev) sv = Inr (0, sv)"
    using c(1,2) assms(3) by (simp add: IOExecFileOp_def fileop_loop_skips [OF assms(4)] Let_def)
  then show ?thesis
    using c(3) by (simp add: IOExecFileRead_name_def assms(1) IOExecFileClose_def FD_INVALID_def)
qed

text \<open>
  C37. Reading a file by name leaks the descriptor when no fragment of the batch has a size and a
  buffer: the file has been opened, no job is submitted that would close it, the call returns 0 and
  gives the handle up without closing it.
\<close>

theorem named_read_leaks_fd:
  assumes "IOExecFileOpen E hasher open_file name len 0x4000 svh = Inr (Some h, Some sv)"
    and "length (sv_ioexecVec sv) \<le> 2 ^ 15" "ev_fd1 ev \<noteq> FD_INVALID" "wanted batch = []"
  shows "IOExecFileRead_name E io addr hasher open_file name len batch (Some ev) svh = Inr (0, Some sv) \<and>
    0 \<le> fh_fd h"
  using assms by (rule named_read_no_job)

theorem named_read_leaks_fd_witness:
  "\<exists>sv. IOExecFileRead_name tick_env (\<lambda>_ _ _. 0) (\<lambda>i. i) (\<lambda>_. 9) (\<lambda>_ _. 5) ''obj'' 3 (gIOBatchAlloc 2)
     (Some \<lparr>ev_fd0 = 7, ev_fd1 = 8\<rparr>) (Some demo_service) = Inr (0, Some sv) \<and> sv_closed sv = []"
proof -
  obtain h sv where o: "IOExecFileOpen tick_env (\<lambda>_. 9) (\<lambda>_ _. 5) ''obj'' 3 0x4000 (Some demo_service) = Inr (Some h, Some sv)"
      "sv_ioexecVec sv = [demo_iox]" "sv_closed sv = []"
    by (simp add: IOExecFileOpen_def service_isValid_def demo_service_def IOExecService_new_def callTranslator_def c_str_def
        sc_updateStats_def h_updateStats_def StatsCounter_init_def Histogram_reset_def IOExecFile_new_def Let_def)
  have w: "wanted (gIOBatchAlloc 2) = []" by (simp add: wanted_def gIOBatchAlloc_def skipped_def)
  show ?thesis
    using named_read_leaks_fd [OF o(1) _ _ w, of "\<lparr>ev_fd0 = 7, ev_fd1 = 8\<rparr>"] o(2,3) by (auto simp: FD_INVALID_def)
qed

section \<open>Statistics\<close>

definition no_nul :: "string \<Rightarrow> bool" where
  "no_nul s \<longleftrightarrow> CHR 0x00 \<notin> set s"

lemma strncpy_exact: "no_nul s \<Longrightarrow> strncpy s (length s) = s"
proof -
  assume "no_nul s"
  then have t: "takeWhile (\<lambda>ch. ch \<noteq> CHR 0x00) s = s" unfolding takeWhile_eq_all_conv no_nul_def by blast
  show ?thesis unfolding strncpy_def t by simp
qed

lemma length_strncpy [simp]: "length (strncpy s n) = n"
  by (simp add: strncpy_def)

lemma sint_small: "0 \<le> k \<Longrightarrow> k < 2 ^ 31 \<Longrightarrow> sint (word_of_int k :: 32 word) = k"
  by (simp add: signed_take_bit_int_eq_self sint_sbintrunc')

lemma copy_stats_fits:
  assumes "no_nul s" "int (length buf + length s) < len" "len < 2 ^ 31"
  shows "copy_stats len s (int (length buf), buf) = (int (length (buf @ s)), buf @ s)"
proof -
  have l: "unat (of_nat (length s) :: 32 word) = length s" using assms(2,3) by (simp add: unat_of_nat)
  have "sint (word_of_int (int (length buf) + int (length s)) :: 32 word) = int (length buf) + int (length s)"
    using assms(2,3) by (intro sint_small) simp_all
  then show ?thesis using assms(2) l strncpy_exact [OF assms(1)] by (simp add: copy_stats_def Let_def)
qed

lemma getStats_loop_fits:
  "\<forall>s\<in>set strs. no_nul s \<Longrightarrow> int (length buf + length (concat strs)) < len \<Longrightarrow> len < 2 ^ 31 \<Longrightarrow>
    getStats_loop len strs (int (length buf), buf) = (int (length (buf @ concat strs)), buf @ concat strs)"
proof (induction strs arbitrary: buf)
  case (Cons s strs)
  have c: "copy_stats len s (int (length buf), buf) = (int (length (buf @ s)), buf @ s)"
    using Cons.prems by (intro copy_stats_fits) simp_all
  have "getStats_loop len strs (int (length (buf @ s)), buf @ s) = (int (length ((buf @ s) @ concat strs)), (buf @ s) @ concat strs)"
    using Cons.prems by (intro Cons.IH) simp_all
  with c Cons.prems(2) show ?case by (simp add: Let_def)
qed simp

text \<open>
  C38. \<open>IOExecGetStats\<close> fills the buffer with the statistics of the translator and of every executor, in
  order, and returns their length, when they all fit; but when the text of the first executor does
  not fit behind that of the translator, it is copied with the length of the whole buffer instead of
  the rest, and as many bytes as the translator's text has are written past the end.
\<close>

theorem IOExecGetStats_extent:
  assumes "no_nul t" "\<forall>s\<in>set states. no_nul s" "len < 2 ^ 30" "int (length t) < len"
  shows "(int (length t + length (concat states)) < len \<longrightarrow>
      IOExecGetStats t states len = (int (length (t @ concat states)), t @ concat states)) \<and>
    (\<forall>s rest. states = s # rest \<longrightarrow> int (length t + length s) \<ge> len \<longrightarrow>
      int (length (snd (IOExecGetStats t states len))) = len + int (length t))"
proof -
  have c: "copy_stats len t (0, []) = (int (length t), t)"
    using copy_stats_fits [of t "[]" len] assms by simp
  have "int (length (snd (IOExecGetStats t (s # rest) len))) = len + int (length t)"
    if "int (length t + length s) \<ge> len" for s rest
  proof -
    have u: "int (unat (word_of_int len :: 32 word)) = len"
    proof -
      have "uint (word_of_int len :: 32 word) = len mod 2 ^ 32" by (simp add: uint_word_of_int)
      also have "\<dots> = len" using assms(3,4) by (intro mod_pos_pos_trivial) simp_all
      finally show ?thesis by simp
    qed
    have "sint (word_of_int (int (length t) + len) :: 32 word) = int (length t) + len"
      using assms(3,4) by (intro sint_small) simp_all
    then have "copy_stats len s (int (length t), t) = (int (length t) + len, t @ strncpy s (unat (word_of_int len :: 32 word)))"
      using that by (simp add: copy_stats_def Let_def)
    with u show ?thesis using assms(4) by (simp add: IOExecGetStats_def c Let_def)
  qed
  moreover have "IOExecGetStats t states len = (int (length (t @ concat states)), t @ concat states)"
    if "int (length t + length (concat states)) < len"
    using getStats_loop_fits [OF assms(2) that] assms(3,4) by (simp add: IOExecGetStats_def c Let_def)
  ultimately show ?thesis by blast
qed

theorem IOExecGetStats_extent_witness:
  "int (length (snd (IOExecGetStats ''ab'' [''12345''] 6))) = 8 \<and> IOExecGetStats ''ab'' [''123''] 6 = (5, ''ab123'')"
  using IOExecGetStats_extent [of "''ab''" "[''12345'']" 6] IOExecGetStats_extent [of "''ab''" "[''123'']" 6]
  by (simp add: no_nul_def)

section \<open>Starting the service\<close>

definition cores_ok :: "core_env \<Rightarrow> bool" where
  "cores_ok cenv \<longleftrightarrow> (\<forall>core. fst (cenv core) \<and> fst (snd (cenv core)) \<ge> 0)"

lemma init_cores_ok:
  assumes "cores_ok cenv"
  shows "\<exists>vec'. init_cores cenv config cores vec = Inr (0, vec @ vec') \<and> length vec' = length cores \<and>
    (\<forall>x\<in>set vec'. ix_config x = config)"
proof (induction cores arbitrary: vec)
  case (Cons core cores)
  obtain epollFD qret evfd ctl ok where e: "cenv core = (True, epollFD, qret, evfd, ctl, ok)" "epollFD \<ge> 0"
    using assms by (cases "cenv core") (auto simp: cores_ok_def dest!: spec [of _ core])
  then obtain x where x: "IOExecutor_new epollFD qret evfd ctl ok config = Inr x" "ix_config x = config"
    by (simp add: IOExecutor_new_def)
  obtain vec' where "init_cores cenv config cores (vec @ [x]) = Inr (0, (vec @ [x]) @ vec')" "length vec' = length cores"
      "\<forall>x\<in>set vec'. ix_config x = config"
    using Cons.IH by blast
  with e(1) x show ?case by (intro exI [of _ "x # vec'"]) simp
qed simp

text \<open>
  C29. When the system can give every core its executor, \<open>IOExecFileServiceInit\<close> returns a service with
  one executor per core, each with the queue depth asked for; a count or depth of zero, or a
  negative count, gives null. The limit of the request queues, however, does not follow the depth:
  it stays at the 40 derived from the default depth of 200.
\<close>

theorem IOExecFileServiceInit_executors:
  assumes "cores_ok cenv"
  shows "(0 < n \<and> d \<noteq> 0 \<longrightarrow>
      (\<exists>sv. IOExecFileServiceInit cenv n d f = Inr (Some sv) \<and> length (sv_ioexecVec sv) = nat n \<and>
        (\<forall>x\<in>set (sv_ioexecVec sv). cf_queueDepth (ix_config x) = word_of_int d \<and>
           cf_maxRequestQueueSize (ix_config x) = 40))) \<and>
    (n \<le> 0 \<or> d = 0 \<longrightarrow> IOExecFileServiceInit cenv n d f = Inr None)"
proof (intro conjI impI)
  assume n: "0 < n \<and> d \<noteq> 0"
  let ?cores = "map (\<lambda>idx. sint (word_of_int idx :: 16 word)) [0..n - 1]"
  let ?config = "Config_default\<lparr>cf_cpuCores := ?cores, cf_queueDepth := word_of_int d\<rparr>"
  obtain vec where v: "init_cores cenv ?config ?cores [] = Inr (0, vec)" "length vec = length ?cores"
      "\<forall>x\<in>set vec. ix_config x = ?config"
    using init_cores_ok [OF assms, of ?config ?cores "[]"] by auto
  have m: "cf_maxRequestQueueSize ?config = 40" "cf_cpuCores Config_default = []"
    by (simp_all add: Config_default_def Config_depth_def setDerivedParam_def)
  have ne: "?cores \<noteq> []" using n by simp
  show "\<exists>sv. IOExecFileServiceInit cenv n d f = Inr (Some sv) \<and> length (sv_ioexecVec sv) = nat n \<and>
      (\<forall>x\<in>set (sv_ioexecVec sv). cf_queueDepth (ix_config x) = word_of_int d \<and> cf_maxRequestQueueSize (ix_config x) = 40)"
    using n v m ne by (simp add: IOExecFileServiceInit_def IOExecService_new_def doCommonInit_def Let_def)
next
  assume "n \<le> 0 \<or> d = 0"
  then show "IOExecFileServiceInit cenv n d f = Inr None"
    by (auto simp: IOExecFileServiceInit_def IOExecService_new_def doCommonInit_def Let_def Config_default_def
        Config_depth_def setDerivedParam_def)
qed

theorem IOExecFileServiceInit_executors_witness:
  "\<exists>sv. IOExecFileServiceInit (\<lambda>_. (True, 3, 0, 4, 0, True)) 2 1000 None = Inr (Some sv) \<and> length (sv_ioexecVec sv) = 2 \<and>
     (\<forall>x\<in>set (sv_ioexecVec sv). cf_maxRequestQueueSize (ix_config x) = 40)"
  using IOExecFileServiceInit_executors [of "\<lambda>_. (True, 3, 0, 4, 0, True)" 2 1000 None] by (auto simp: cores_ok_def)

section \<open>Names in hexadecimal\<close>

definition hex_value :: "char \<Rightarrow> nat" where
  "hex_value ch = length (takeWhile (\<lambda>d. d \<noteq> ch) ''0123456789ABCDEF'')"

fun hex_unbyte :: "string \<Rightarrow> (char \<times> string) option" where
  "hex_unbyte (a # b # rest) = Some (char_of (hex_value a * 16 + hex_value b), rest)"
| "hex_unbyte _ = None"

fun hex_decode :: "string \<Rightarrow> string option" where
  "hex_decode (a # b # rest) =
     (case hex_decode rest of None \<Rightarrow> None | Some s \<Rightarrow> Some (fst (the (hex_unbyte [a, b])) # s))"
| "hex_decode [] = Some []"
| "hex_decode [a] = None"

lemma hex_value_digit: "n < 16 \<Longrightarrow> hex_value (hex_digit n) = n"
proof -
  assume "n < 16"
  then have "n \<in> set [0..<16]" by simp
  then show ?thesis by (auto simp: upt_rec hex_value_def hex_digit_def)
qed

interpretation hexc: prefix_codec hex_byte hex_unbyte "\<lambda>_. True"
proof unfold_locales
  fix v :: char and rest
  have "of_char v < (256 :: nat)" by simp
  then have "hex_value (hex_digit (of_char v div 16)) = of_char v div 16"
      "hex_value (hex_digit (of_char v mod 16)) = of_char v mod 16"
    by (intro hex_value_digit; linarith | simp)+
  then show "hex_unbyte (hex_byte v @ rest) = Some (v, rest)" by (simp add: hex_byte_def)
qed

text \<open>
  C31. \<open>string_to_hex\<close> loses nothing: it prints two digits per byte, and the bytes can be read back from
  them, null characters included.
\<close>

theorem string_to_hex_roundtrip:
  "hex_decode (string_to_hex s) = Some s \<and> length (string_to_hex s) = 2 * length s"
proof (induction s)
  case (Cons ch s)
  then show ?case
    using hexc.dec_enc [of ch "[]"] by (simp add: string_to_hex_def hex_byte_def)
qed (simp add: string_to_hex_def)

end
