(* ===== verification/MsgPack.thy ===== *)
theory MsgPack
  imports Gobjfs_Prelude
begin

text \<open>
  The part of the vendored msgpack library that the network protocol uses
  (\<open>thirdparty/msgpack/include/msgpack\<close>: \<open>pack.hpp\<close>, \<open>unpack.hpp\<close>, \<open>adaptor/int.hpp\<close>,
  \<open>adaptor/string.hpp\<close>): packing of integers, strings and array headers, and the unpacker with its
  stack of open containers. The zone from which the unpacker allocates always has memory, and the
  limits on sizes and depth, all \<open>0xffffffff\<close>, are not reached.
\<close>

type_synonym bytes = "8 word list"

section \<open>Big-endian numbers\<close>

fun store :: "nat \<Rightarrow> nat \<Rightarrow> bytes" where
  "store 0 n = []"
| "store (Suc k) n = store k (n div 256) @ [of_nat n]"

definition load :: "bytes \<Rightarrow> nat" where
  "load bs = foldl (\<lambda>a b. a * 256 + unat b) 0 bs"

lemma length_store [simp]: "length (store k n) = k"
  by (induction k arbitrary: n) simp_all

lemma load_snoc: "load (bs @ [b]) = load bs * 256 + unat b"
  by (simp add: load_def)

lemma load_store: "load (store k n) = n mod 256 ^ k"
proof (induction k arbitrary: n)
  case 0
  then show ?case by (simp add: load_def)
next
  case (Suc k)
  have "load (store (Suc k) n) = (n div 256) mod 256 ^ k * 256 + n mod 256"
    by (simp add: load_snoc Suc.IH unat_of_nat)
  also have "\<dots> = n mod (256 * 256 ^ k)"
    by (simp add: mod_mult2_eq)
  finally show ?case by simp
qed

lemma load_store_small: "n < 256 ^ k \<Longrightarrow> load (store k n) = n"
  by (simp add: load_store)

text \<open>Reading \<open>k\<close> bytes as a two's complement number.\<close>

definition signed_load :: "bytes \<Rightarrow> int" where
  "signed_load bs = (let n = load bs in if n < 2 ^ (8 * length bs - 1) then int n else int n - 2 ^ (8 * length bs))"

lemma signed_load_store:
  assumes "k > 0" "- (2 ^ (8 * k - 1)) \<le> d" "d < 2 ^ (8 * k - 1)"
  shows "signed_load (store k (nat (d mod 2 ^ (8 * k)))) = d"
proof -
  have p: "(2 :: int) ^ (8 * k) = 2 * 2 ^ (8 * k - 1)" using assms(1) by (simp flip: power_Suc)
  have b: "(256 :: nat) ^ k = 2 ^ (8 * k)" by (simp add: power_mult)
  have "nat (d mod 2 ^ (8 * k)) < 2 ^ (8 * k)"
    by (metis nat_less_iff pos_mod_bound pos_mod_sign zero_less_numeral zero_less_power of_nat_numeral of_nat_power)
  then have l: "load (store k (nat (d mod 2 ^ (8 * k)))) = nat (d mod 2 ^ (8 * k))"
    by (intro load_store_small) (simp add: b)
  show ?thesis
  proof (cases "d \<ge> 0")
    case True
    then have "d mod 2 ^ (8 * k) = d" using assms(3) p by (intro mod_pos_pos_trivial) simp_all
    with True assms(3) l show ?thesis
      by (simp add: signed_load_def Let_def nat_less_iff)
  next
    case False
    have "(d + 2 ^ (8 * k)) mod 2 ^ (8 * k) = d + 2 ^ (8 * k)"
      using False assms(2) p by (intro mod_pos_pos_trivial) simp_all
    then have m: "d mod 2 ^ (8 * k) = d + 2 ^ (8 * k)" by simp
    have "\<not> nat (d + 2 ^ (8 * k)) < 2 ^ (8 * k - 1)"
      using assms(2) p by (simp add: nat_less_iff)
    with l m False assms(2) p show ?thesis
      by (simp add: signed_load_def Let_def)
  qed
qed

section \<open>Packing\<close>

text \<open>\<open>pack_imp_uint64\<close>.\<close>

definition pack_uint64 :: "64 word \<Rightarrow> bytes" where
  "pack_uint64 w =
     (let d = unat w in
      if d < 2 ^ 8 then (if d < 2 ^ 7 then store 1 d else 0xcc # store 1 d)
      else if d < 2 ^ 16 then 0xcd # store 2 d
      else if d < 2 ^ 32 then 0xce # store 4 d
      else 0xcf # store 8 d)"

definition store_signed :: "nat \<Rightarrow> int \<Rightarrow> bytes" where
  "store_signed k d = store k (nat (d mod 2 ^ (8 * k)))"

text \<open>\<open>pack_imp_int32\<close>.\<close>

definition pack_int32 :: "int \<Rightarrow> bytes" where
  "pack_int32 d =
     (if d < - (2 ^ 5) then
        (if d < - (2 ^ 15) then 0xd2 # store_signed 4 d
         else if d < - (2 ^ 7) then 0xd1 # store_signed 2 d
         else 0xd0 # store_signed 1 d)
      else if d < 2 ^ 7 then store_signed 1 d
      else if d < 2 ^ 8 then 0xcc # store_signed 1 d
      else if d < 2 ^ 16 then 0xcd # store_signed 2 d
      else 0xce # store_signed 4 d)"

text \<open>\<open>pack_imp_int64\<close>.\<close>

definition pack_int64 :: "int \<Rightarrow> bytes" where
  "pack_int64 d =
     (if d < - (2 ^ 5) then
        (if d < - (2 ^ 15) then
           (if d < - (2 ^ 31) then 0xd3 # store_signed 8 d else 0xd2 # store_signed 4 d)
         else (if d < - (2 ^ 7) then 0xd1 # store_signed 2 d else 0xd0 # store_signed 1 d))
      else if d < 2 ^ 7 then store_signed 1 d
      else if d < 2 ^ 16 then
        (if d < 2 ^ 8 then 0xcc # store_signed 1 d else 0xcd # store_signed 2 d)
      else (if d < 2 ^ 32 then 0xce # store_signed 4 d else 0xcf # store_signed 8 d))"

definition pack_array :: "nat \<Rightarrow> bytes" where
  "pack_array n =
     (if n < 16 then [0x90 OR of_nat n]
      else if n < 65536 then 0xdc # store 2 n else 0xdd # store 4 n)"

definition pack_str :: "nat \<Rightarrow> bytes" where
  "pack_str l =
     (if l < 32 then [0xa0 OR of_nat l]
      else if l < 256 then 0xd9 # store 1 l
      else if l < 65536 then 0xda # store 2 l else 0xdb # store 4 l)"

definition byte_of_char :: "char \<Rightarrow> 8 word" where
  "byte_of_char ch = of_nat (of_char ch)"

definition char_of_byte :: "8 word \<Rightarrow> char" where
  "char_of_byte b = char_of (unat b)"

lemma char_byte [simp]: "char_of_byte (byte_of_char ch) = ch"
  by (simp add: char_of_byte_def byte_of_char_def unat_of_nat)

text \<open>\<open>pack\<close> of a string: a header and the characters.\<close>

definition pack_string :: "string \<Rightarrow> bytes" where
  "pack_string s = pack_str (length s) @ map byte_of_char s"

section \<open>Unpacking one header\<close>

datatype mobj =
    MNil
  | MBool bool
  | MPos "64 word"
  | MNeg int
  | MFloat bytes
  | MStr string
  | MBin string
  | MExt bytes
  | MArr "mobj list"
  | MMap "(mobj \<times> mobj) list"

datatype token = Item mobj | OpenArray nat | OpenMap nat

datatype lexed = Token token bytes | NeedMore | BadByte

definition mint :: "int \<Rightarrow> mobj" where
  "mint d = (if d \<ge> 0 then MPos (word_of_int d) else MNeg d)"

text \<open>Continue with the next \<open>k\<close> bytes, or wait for more input.\<close>

definition with_bytes :: "nat \<Rightarrow> bytes \<Rightarrow> (bytes \<Rightarrow> bytes \<Rightarrow> lexed) \<Rightarrow> lexed" where
  "with_bytes k bs f = (if length bs < k then NeedMore else f (take k bs) (drop k bs))"

definition sized :: "nat \<Rightarrow> bytes \<Rightarrow> (bytes \<Rightarrow> mobj) \<Rightarrow> lexed" where
  "sized k bs mk = with_bytes k bs (\<lambda>n rest. with_bytes (load n) rest (\<lambda>body rest'. Token (Item (mk body)) rest'))"

definition mstr :: "bytes \<Rightarrow> mobj" where
  "mstr body = MStr (map char_of_byte body)"

text \<open>The header byte selects the case, as in \<open>context::execute\<close>.\<close>

fun lex :: "bytes \<Rightarrow> lexed" where
  "lex [] = NeedMore"
| "lex (b # bs) =
     (let s = unat b; fixed = (\<lambda>k mk. with_bytes k bs (\<lambda>n rest. Token (Item (mk n)) rest)) in
      if s \<le> 0x7f then Token (Item (MPos (ucast b))) bs
      else if 0xe0 \<le> s then Token (Item (mint (sint b))) bs
      else if s = 0xc4 then sized 1 bs (\<lambda>body. MBin (map char_of_byte body))
      else if s = 0xc5 then sized 2 bs (\<lambda>body. MBin (map char_of_byte body))
      else if s = 0xc6 then sized 4 bs (\<lambda>body. MBin (map char_of_byte body))
      else if s = 0xc7 then with_bytes 1 bs (\<lambda>n rest. with_bytes (load n + 1) rest (\<lambda>body rest'. Token (Item (MExt body)) rest'))
      else if s = 0xc8 then with_bytes 2 bs (\<lambda>n rest. with_bytes (load n + 1) rest (\<lambda>body rest'. Token (Item (MExt body)) rest'))
      else if s = 0xc9 then with_bytes 4 bs (\<lambda>n rest. with_bytes (load n + 1) rest (\<lambda>body rest'. Token (Item (MExt body)) rest'))
      else if s = 0xca then fixed 4 MFloat
      else if s = 0xcb then fixed 8 MFloat
      else if s = 0xcc then fixed 1 (\<lambda>n. MPos (of_nat (load n)))
      else if s = 0xcd then fixed 2 (\<lambda>n. MPos (of_nat (load n)))
      else if s = 0xce then fixed 4 (\<lambda>n. MPos (of_nat (load n)))
      else if s = 0xcf then fixed 8 (\<lambda>n. MPos (of_nat (load n)))
      else if s = 0xd0 then fixed 1 (\<lambda>n. mint (signed_load n))
      else if s = 0xd1 then fixed 2 (\<lambda>n. mint (signed_load n))
      else if s = 0xd2 then fixed 4 (\<lambda>n. mint (signed_load n))
      else if s = 0xd3 then fixed 8 (\<lambda>n. mint (signed_load n))
      else if s = 0xd4 then fixed 2 MExt
      else if s = 0xd5 then fixed 3 MExt
      else if s = 0xd6 then fixed 5 MExt
      else if s = 0xd7 then fixed 9 MExt
      else if s = 0xd8 then fixed 17 MExt
      else if s = 0xd9 then sized 1 bs mstr
      else if s = 0xda then sized 2 bs mstr
      else if s = 0xdb then sized 4 bs mstr
      else if s = 0xdc then with_bytes 2 bs (\<lambda>n rest. Token (OpenArray (load n)) rest)
      else if s = 0xdd then with_bytes 4 bs (\<lambda>n rest. Token (OpenArray (load n)) rest)
      else if s = 0xde then with_bytes 2 bs (\<lambda>n rest. Token (OpenMap (load n)) rest)
      else if s = 0xdf then with_bytes 4 bs (\<lambda>n rest. Token (OpenMap (load n)) rest)
      else if 0xa0 \<le> s \<and> s \<le> 0xbf then with_bytes (s - 0xa0) bs (\<lambda>body rest. Token (Item (mstr body)) rest)
      else if 0x90 \<le> s \<and> s \<le> 0x9f then Token (OpenArray (s - 0x90)) bs
      else if 0x80 \<le> s \<and> s \<le> 0x8f then Token (OpenMap (s - 0x80)) bs
      else if s = 0xc2 then Token (Item (MBool False)) bs
      else if s = 0xc3 then Token (Item (MBool True)) bs
      else if s = 0xc0 then Token (Item MNil) bs
      else BadByte)"

section \<open>The unpacker\<close>

text \<open>The stack of open containers: what has been read and how much is missing.\<close>

datatype frame = FArray "mobj list" nat | FKey "(mobj \<times> mobj) list" nat | FValue "(mobj \<times> mobj) list" mobj nat

fun push_item :: "mobj \<Rightarrow> frame list \<Rightarrow> mobj + frame list" where
  "push_item obj [] = Inl obj"
| "push_item obj (FArray xs n # st) =
     (if n = 1 then push_item (MArr (xs @ [obj])) st else Inr (FArray (xs @ [obj]) (n - 1) # st))"
| "push_item obj (FKey xs n # st) = Inr (FValue xs obj n # st)"
| "push_item obj (FValue xs k n # st) =
     (if n = 1 then push_item (MMap (xs @ [(k, obj)])) st else Inr (FKey (xs @ [(k, obj)]) (n - 1) # st))"

datatype unpack_return = UNPACK_SUCCESS mobj bytes | UNPACK_CONTINUE | UNPACK_PARSE_ERROR

lemma with_bytes_shorter:
  "with_bytes k bs f = Token t rest \<Longrightarrow> (\<And>n r. f n r = Token t rest \<Longrightarrow> length rest \<le> length r) \<Longrightarrow> length rest \<le> length bs"
  by (fastforce simp: with_bytes_def split: if_splits)

lemma lex_shorter: "lex bs = Token t rest \<Longrightarrow> length rest < length bs"
proof (cases bs)
  case (Cons b cs)
  assume l: "lex bs = Token t rest"
  have "length rest \<le> length cs"
    using l unfolding Cons lex.simps Let_def sized_def
    by (auto split: if_splits elim!: with_bytes_shorter)
  then show ?thesis by (simp add: Cons)
qed simp

text \<open>An item is stored, an aggregate is opened; an empty one is complete at once (\<open>push_aggregate\<close>).\<close>

definition push_token :: "token \<Rightarrow> frame list \<Rightarrow> mobj + frame list" where
  "push_token t st =
     (case t of
        Item obj \<Rightarrow> push_item obj st
      | OpenArray n \<Rightarrow> if n = 0 then push_item (MArr []) st else Inr (FArray [] n # st)
      | OpenMap n \<Rightarrow> if n = 0 then push_item (MMap []) st else Inr (FKey [] n # st))"

function execute :: "frame list \<Rightarrow> bytes \<Rightarrow> unpack_return" where
  "execute st bs =
     (case lex bs of
        NeedMore \<Rightarrow> UNPACK_CONTINUE
      | BadByte \<Rightarrow> UNPACK_PARSE_ERROR
      | Token t rest \<Rightarrow>
          (case push_token t st of Inl obj \<Rightarrow> UNPACK_SUCCESS obj rest | Inr st' \<Rightarrow> execute st' rest))"
  by pat_completeness auto
termination by (relation "measure (length \<circ> snd)") (auto dest: lex_shorter)

declare execute.simps [simp del]

section \<open>Conversion to C++ types\<close>

text \<open>\<open>None\<close> is the exception \<open>type_error\<close>.\<close>

fun convert_uint64 :: "mobj \<Rightarrow> 64 word option" where
  "convert_uint64 (MPos w) = Some w"
| "convert_uint64 _ = None"

fun convert_signed :: "nat \<Rightarrow> mobj \<Rightarrow> int option" where
  "convert_signed bits (MPos w) = (if uint w > 2 ^ (bits - 1) - 1 then None else Some (uint w))"
| "convert_signed bits (MNeg d) = (if d < - (2 ^ (bits - 1)) then None else Some d)"
| "convert_signed bits _ = None"

fun convert_string :: "mobj \<Rightarrow> string option" where
  "convert_string (MBin s) = Some s"
| "convert_string (MStr s) = Some s"
| "convert_string _ = None"

section \<open>Packed values are read back\<close>

lemma with_bytes_exact [simp]: "length xs = k \<Longrightarrow> with_bytes k (xs @ ys) f = f xs ys"
  by (simp add: with_bytes_def)

lemma with_bytes_store [simp]: "with_bytes k (store k n @ ys) f = f (store k n) ys"
  by simp

lemma lex_store1: "n < 128 \<Longrightarrow> lex (store 1 n @ rest) = Token (Item (MPos (of_nat n))) rest"
proof -
  assume n: "n < 128"
  then have "unat (of_nat n :: 8 word) = n" by (simp add: unat_of_nat)
  with n show ?thesis by (simp add: unsigned_of_nat take_bit_nat_eq_self)
qed

lemma lex_uint64: "lex (pack_uint64 w @ rest) = Token (Item (MPos w)) rest"
proof -
  have w: "of_nat (unat w) = w" by simp
  have l: "unat w < 256 ^ k \<Longrightarrow> (of_nat (load (store k (unat w))) :: 64 word) = w" for k
    by (simp add: load_store_small)
  have "unat w < 2 ^ 64" by (rule order_less_le_trans [OF unsigned_less]) simp
  then show ?thesis
    using l [of 1] l [of 2] l [of 4] l [of 8] lex_store1 [of "unat w" rest] w
    by (auto simp: pack_uint64_def Let_def simp del: store.simps)
qed

lemma mint_pos: "0 \<le> d \<Longrightarrow> mint d = MPos (word_of_int d)"
  by (simp add: mint_def)

lemma lex_signed1: "- 32 \<le> d \<Longrightarrow> d < 128 \<Longrightarrow> lex (store_signed 1 d @ rest) = Token (Item (mint d)) rest"
proof -
  assume d: "- 32 \<le> d" "d < 128"
  show ?thesis
  proof (cases "d \<ge> 0")
    case True
    then have "store_signed 1 d = store 1 (nat d)" using d by (simp add: store_signed_def)
    then show ?thesis using lex_store1 [of "nat d" rest] True d by (simp add: mint_pos)
  next
    case False
    define n where "n = nat (d + 256)"
    have n: "224 \<le> n" "n < 256" "int n = d + 256" using d False by (auto simp: n_def)
    have "d mod 256 = (d + 256) mod 256" by simp
    also have "\<dots> = int n" using n by (subst mod_pos_pos_trivial) simp_all
    finally have m: "nat (d mod 256) = n" by simp
    have u: "unat (of_nat n :: 8 word) = n" using n(2) by (simp add: unat_of_nat)
    have "(of_nat n :: 8 word) = word_of_int (d + 256)" using n(3) by (metis of_int_of_nat_eq)
    also have "\<dots> = word_of_int d" by (simp add: word_of_int_eq_iff take_bit_eq_mod)
    finally have i: "sint (of_nat n :: 8 word) = d" using d False by (simp add: signed_take_bit_int_eq_self sint_sbintrunc')
    have "store_signed 1 d = [of_nat n]" by (simp add: store_signed_def m)
    then show ?thesis using u i n by simp
  qed
qed

lemma lex_signed:
  assumes "k \<in> {1, 2, 4, 8}" "- (2 ^ (8 * k - 1)) \<le> d" "d < 2 ^ (8 * k - 1)"
    and "tag = (if k = 1 then 0xd0 else if k = 2 then 0xd1 else if k = 4 then 0xd2 else 0xd3)"
  shows "lex (tag # store_signed k d @ rest) = Token (Item (mint d)) rest"
proof -
  have "signed_load (store_signed k d) = d"
    unfolding store_signed_def using assms(1-3) by (intro signed_load_store) auto
  then show ?thesis using assms(1,4) by (auto simp: store_signed_def simp del: store.simps)
qed

lemma lex_unsigned:
  assumes "k \<in> {1, 2, 4, 8}" "0 \<le> d" "d < 2 ^ (8 * k)"
    and "tag = (if k = 1 then 0xcc else if k = 2 then 0xcd else if k = 4 then 0xce else 0xcf)"
  shows "lex (tag # store_signed k d @ rest) = Token (Item (mint d)) rest"
proof -
  have "nat d < 256 ^ k" using assms(2,3) by (simp add: nat_less_iff power_mult)
  then have "(of_nat (load (store k (nat d))) :: 64 word) = word_of_int d"
    using assms(2) by (simp add: load_store_small)
  moreover have "store_signed k d = store k (nat d)" using assms(2,3) by (simp add: store_signed_def)
  ultimately show ?thesis using assms(1,2,4) by (auto simp: mint_pos simp del: store.simps)
qed

lemma lex_int64:
  assumes "- (2 ^ 63) \<le> d" "d < 2 ^ 63"
  shows "lex (pack_int64 d @ rest) = Token (Item (mint d)) rest"
  using assms lex_signed1 [of d rest] lex_signed [of 1 d _ rest] lex_signed [of 2 d _ rest] lex_signed [of 4 d _ rest]
    lex_signed [of 8 d _ rest] lex_unsigned [of 1 d _ rest] lex_unsigned [of 2 d _ rest] lex_unsigned [of 4 d _ rest]
    lex_unsigned [of 8 d _ rest]
  by (simp add: pack_int64_def del: lex.simps)

lemma lex_int32:
  assumes "- (2 ^ 31) \<le> d" "d < 2 ^ 31"
  shows "lex (pack_int32 d @ rest) = Token (Item (mint d)) rest"
  using assms lex_signed1 [of d rest] lex_signed [of 1 d _ rest] lex_signed [of 2 d _ rest] lex_signed [of 4 d _ rest]
    lex_unsigned [of 1 d _ rest] lex_unsigned [of 2 d _ rest] lex_unsigned [of 4 d _ rest]
  by (simp add: pack_int32_def del: lex.simps)

lemma unat_or_tag:
  "m < 32 \<Longrightarrow> unat (0xa0 OR of_nat m :: 8 word) = 0xa0 + m"
  "m < 16 \<Longrightarrow> unat (0x90 OR of_nat m :: 8 word) = 0x90 + m"
proof -
  have "\<forall>m\<in>set [0..<32]. unat (0xa0 OR of_nat m :: 8 word) = 0xa0 + m" by (simp add: upt_rec)
  then show "m < 32 \<Longrightarrow> unat (0xa0 OR of_nat m :: 8 word) = 0xa0 + m" by simp
  have "\<forall>m\<in>set [0..<16]. unat (0x90 OR of_nat m :: 8 word) = 0x90 + m" by (simp add: upt_rec)
  then show "m < 16 \<Longrightarrow> unat (0x90 OR of_nat m :: 8 word) = 0x90 + m" by simp
qed

lemma mstr_body [simp]: "mstr (map byte_of_char s) = MStr s"
  by (simp add: mstr_def comp_def)

lemma sized_exact: "load n = length body \<Longrightarrow> length n = k \<Longrightarrow> sized k (n @ body @ rest) mk = Token (Item (mk body)) rest"
  by (simp add: sized_def)

lemma lex_string:
  assumes "length s < 2 ^ 32"
  shows "lex (pack_string s @ rest) = Token (Item (MStr s)) rest"
proof -
  have z: "length s < 256 ^ k \<Longrightarrow> sized k (store k (length s) @ map byte_of_char s @ rest) mstr = Token (Item (MStr s)) rest" for k
    by (subst sized_exact) (simp_all add: load_store_small del: store.simps)
  show ?thesis
    using assms z [of 1] z [of 2] z [of 4] unat_or_tag(1) [of "length s"]
    by (auto simp: pack_string_def pack_str_def simp del: store.simps)
qed

lemma lex_array:
  assumes "n < 2 ^ 32"
  shows "lex (pack_array n @ rest) = Token (OpenArray n) rest"
  using assms unat_or_tag(2) [of n] load_store_small [of n 2] load_store_small [of n 4]
  by (auto simp: pack_array_def simp del: store.simps)

text \<open>A reader of one value: the next token must be an item that converts.\<close>

definition read_item :: "(mobj \<Rightarrow> 'a option) \<Rightarrow> bytes \<Rightarrow> ('a \<times> bytes) option" where
  "read_item conv bs = (case lex bs of Token (Item obj) rest \<Rightarrow> map_option (\<lambda>v. (v, rest)) (conv obj) | _ \<Rightarrow> None)"

definition int_range :: "nat \<Rightarrow> int \<Rightarrow> bool" where
  "int_range bits d \<longleftrightarrow> - (2 ^ (bits - 1)) \<le> d \<and> d < 2 ^ (bits - 1)"

lemma convert_mint: "bits \<in> {32, 64} \<Longrightarrow> int_range bits d \<Longrightarrow> convert_signed bits (mint d) = Some d"
  by (auto simp: mint_def int_range_def uint_word_of_int)

interpretation u64: prefix_codec pack_uint64 "read_item convert_uint64" "\<lambda>_. True"
  by unfold_locales (simp add: read_item_def lex_uint64)

interpretation i64: prefix_codec pack_int64 "read_item (convert_signed 64)" "int_range 64"
proof unfold_locales
  fix v rest assume v: "int_range 64 v"
  have "lex (pack_int64 v @ rest) = Token (Item (mint v)) rest" using v by (intro lex_int64) (auto simp: int_range_def)
  with convert_mint [OF _ v] show "read_item (convert_signed 64) (pack_int64 v @ rest) = Some (v, rest)" by (simp add: read_item_def)
qed

interpretation i32: prefix_codec pack_int32 "read_item (convert_signed 32)" "int_range 32"
proof unfold_locales
  fix v rest assume v: "int_range 32 v"
  have "lex (pack_int32 v @ rest) = Token (Item (mint v)) rest" using v by (intro lex_int32) (auto simp: int_range_def)
  with convert_mint [OF _ v] show "read_item (convert_signed 32) (pack_int32 v @ rest) = Some (v, rest)" by (simp add: read_item_def)
qed

interpretation strc: prefix_codec pack_string "read_item convert_string" "\<lambda>s. length s < 2 ^ 32"
  by unfold_locales (simp add: read_item_def lex_string)

section \<open>The unpacker does not look ahead\<close>

lemma with_bytes_mono:
  assumes "with_bytes k bs f = Token t r" "\<And>n r'. f n r' = Token t r \<Longrightarrow> f n (r' @ xs) = Token t (r @ xs)"
  shows "with_bytes k (bs @ xs) f = Token t (r @ xs)"
  using assms by (auto simp: with_bytes_def split: if_splits)

lemma lex_mono: "lex bs = Token t r \<Longrightarrow> lex (bs @ xs) = Token t (r @ xs)"
proof (cases bs)
  case (Cons b cs)
  assume "lex bs = Token t r"
  then show ?thesis
    unfolding Cons lex.simps Let_def sized_def append_Cons
    by (auto split: if_splits elim!: with_bytes_mono)
qed simp

text \<open>Whether a header byte is illegal does not depend on what follows it.\<close>

lemma with_bytes_not_bad [simp]: "(\<And>n r. f n r \<noteq> BadByte) \<Longrightarrow> with_bytes k bs f \<noteq> BadByte"
  by (simp add: with_bytes_def)

lemma if_bad: "x \<noteq> BadByte \<Longrightarrow> (if c then x else y) = BadByte \<longleftrightarrow> \<not> c \<and> y = BadByte"
  by simp

lemma lex_bad_iff: "lex (b # cs) = BadByte \<longleftrightarrow> lex (b # ds) = BadByte"
  unfolding lex.simps Let_def sized_def by (simp only: if_bad with_bytes_not_bad lexed.distinct not_False_eq_True)

lemma lex_bad: "lex bs = BadByte \<Longrightarrow> lex (bs @ xs) = BadByte"
  using lex_bad_iff [of _ "tl bs" "tl bs @ xs"] by (cases bs) (simp_all del: lex.simps(2))

end
