(* ===== verification/Xio_Protocol.thy ===== *)
theory Xio_Protocol
  imports MsgPack
begin

text \<open>
  The messages between client and server (\<open>src/networkxio/NetworkXioProtocol.h\<close>, opcodes in
  \<open>NetworkXioCommon.h\<close>): a record of eight fields, packed as a msgpack array in the order of
  \<open>MSGPACK_DEFINE\<close>.
\<close>

section \<open>Opcodes\<close>

text \<open>
  The conversion from an integer is a \<open>static_cast\<close>: a number outside the enumeration is kept.
\<close>

datatype NetworkXioMsgOpcode =
    Noop | OpenReq | OpenRsp | CloseReq | CloseRsp | ReadReq | ReadRsp | ErrorRsp | ShutdownRsp
  | OtherOpcode int

fun opcode_number :: "NetworkXioMsgOpcode \<Rightarrow> int" where
  "opcode_number Noop = 0"
| "opcode_number OpenReq = 1"
| "opcode_number OpenRsp = 2"
| "opcode_number CloseReq = 3"
| "opcode_number CloseRsp = 4"
| "opcode_number ReadReq = 5"
| "opcode_number ReadRsp = 6"
| "opcode_number ErrorRsp = 7"
| "opcode_number ShutdownRsp = 8"
| "opcode_number (OtherOpcode n) = n"

definition opcode_cast :: "int \<Rightarrow> NetworkXioMsgOpcode" where
  "opcode_cast n =
     (if n = 0 then Noop else if n = 1 then OpenReq else if n = 2 then OpenRsp else if n = 3 then CloseReq
      else if n = 4 then CloseRsp else if n = 5 then ReadReq else if n = 6 then ReadRsp else if n = 7 then ErrorRsp
      else if n = 8 then ShutdownRsp else OtherOpcode n)"

section \<open>Messages\<close>

record NetworkXioMsg =
  nm_opcode :: NetworkXioMsgOpcode
  nm_filename :: string
  nm_size :: "64 word"
  nm_offset :: "64 word"
  nm_retval :: int
  nm_errval :: int
  nm_opaque :: "64 word"
  nm_timeout :: int

definition NetworkXioMsg_new :: "NetworkXioMsgOpcode \<Rightarrow> NetworkXioMsg" where
  "NetworkXioMsg_new opcode = \<lparr>nm_opcode = opcode, nm_filename = [], nm_size = 0, nm_offset = 0, nm_retval = 0,
     nm_errval = 0, nm_opaque = 0, nm_timeout = 0\<rparr>"

definition msg_clear :: "NetworkXioMsg \<Rightarrow> NetworkXioMsg" where
  "msg_clear m = \<lparr>nm_opcode = Noop, nm_filename = [], nm_size = 0, nm_offset = 0, nm_retval = 0,
     nm_errval = 0, nm_opaque = 0, nm_timeout = 0\<rparr>"

definition pack_msg :: "NetworkXioMsg \<Rightarrow> bytes" where
  "pack_msg m =
     pack_array 8 @ pack_int32 (opcode_number (nm_opcode m)) @ pack_string (nm_filename m) @ pack_uint64 (nm_size m) @
     pack_uint64 (nm_offset m) @ pack_int64 (nm_retval m) @ pack_int32 (nm_errval m) @ pack_uint64 (nm_opaque m) @
     pack_int64 (nm_timeout m)"

text \<open>The exceptions of unpacking.\<close>

datatype unpack_error = insufficient_bytes | parse_error | type_error

text \<open>
  The conversion assigns one field after the other; the fields an array is too short for keep their
  values, and elements beyond the eighth are ignored.
\<close>

definition assign_field :: "('a option) \<Rightarrow> ('a \<Rightarrow> NetworkXioMsg \<Rightarrow> NetworkXioMsg) \<Rightarrow> NetworkXioMsg \<Rightarrow> unpack_error + NetworkXioMsg" where
  "assign_field v upd m = (case v of None \<Rightarrow> Inl type_error | Some x \<Rightarrow> Inr (upd x m))"

definition convert_field :: "nat \<Rightarrow> mobj \<Rightarrow> NetworkXioMsg \<Rightarrow> unpack_error + NetworkXioMsg" where
  "convert_field i obj m =
     (if i = 0 then assign_field (convert_signed 32 obj) (\<lambda>v. nm_opcode_update (\<lambda>_. opcode_cast v)) m
      else if i = 1 then assign_field (convert_string obj) (\<lambda>v. nm_filename_update (\<lambda>_. v)) m
      else if i = 2 then assign_field (convert_uint64 obj) (\<lambda>v. nm_size_update (\<lambda>_. v)) m
      else if i = 3 then assign_field (convert_uint64 obj) (\<lambda>v. nm_offset_update (\<lambda>_. v)) m
      else if i = 4 then assign_field (convert_signed 64 obj) (\<lambda>v. nm_retval_update (\<lambda>_. v)) m
      else if i = 5 then assign_field (convert_signed 32 obj) (\<lambda>v. nm_errval_update (\<lambda>_. v)) m
      else if i = 6 then assign_field (convert_uint64 obj) (\<lambda>v. nm_opaque_update (\<lambda>_. v)) m
      else if i = 7 then assign_field (convert_signed 64 obj) (\<lambda>v. nm_timeout_update (\<lambda>_. v)) m
      else Inr m)"

fun convert_fields :: "nat \<Rightarrow> mobj list \<Rightarrow> NetworkXioMsg \<Rightarrow> unpack_error + NetworkXioMsg" where
  "convert_fields i [] m = Inr m"
| "convert_fields i (obj # objs) m =
     (case convert_field i obj m of Inl e \<Rightarrow> Inl e | Inr m' \<Rightarrow> convert_fields (Suc i) objs m')"

definition convert_msg :: "mobj \<Rightarrow> NetworkXioMsg \<Rightarrow> unpack_error + NetworkXioMsg" where
  "convert_msg obj m = (case obj of MArr objs \<Rightarrow> convert_fields 0 objs m | _ \<Rightarrow> Inl type_error)"

text \<open>\<open>unpack_msg\<close>; bytes after the first object are accepted and ignored.\<close>

definition unpack_msg :: "bytes \<Rightarrow> NetworkXioMsg \<Rightarrow> unpack_error + NetworkXioMsg" where
  "unpack_msg sbuf m =
     (case execute [] sbuf of
        UNPACK_SUCCESS obj _ \<Rightarrow> convert_msg obj m
      | UNPACK_CONTINUE \<Rightarrow> Inl insufficient_bytes
      | UNPACK_PARSE_ERROR \<Rightarrow> Inl parse_error)"

section \<open>The round trip\<close>

text \<open>The values the fields of the C++ class can have.\<close>

definition opcode_ok :: "NetworkXioMsgOpcode \<Rightarrow> bool" where
  "opcode_ok op \<longleftrightarrow> (case op of OtherOpcode n \<Rightarrow> int_range 32 n \<and> (n < 0 \<or> n > 8) | _ \<Rightarrow> True)"

definition msg_ok :: "NetworkXioMsg \<Rightarrow> bool" where
  "msg_ok m \<longleftrightarrow> opcode_ok (nm_opcode m) \<and> length (nm_filename m) < 2 ^ 32 \<and> int_range 64 (nm_retval m) \<and>
     int_range 32 (nm_errval m) \<and> int_range 64 (nm_timeout m)"

lemma opcode_cast_number: "opcode_ok op \<Longrightarrow> opcode_cast (opcode_number op) = op \<and> int_range 32 (opcode_number op)"
  by (cases op) (auto simp: opcode_ok_def opcode_cast_def int_range_def)

text \<open>Reading one element of an array that is not the last, and the last.\<close>

lemma execute_item:
  "lex (bs @ rest) = Token (Item obj) rest \<Longrightarrow> n > 1 \<Longrightarrow>
    execute [FArray xs n] (bs @ rest) = execute [FArray (xs @ [obj]) (n - 1)] rest"
  by (subst execute.simps) (simp add: push_token_def)

lemma execute_last:
  "lex (bs @ rest) = Token (Item obj) rest \<Longrightarrow> execute [FArray xs 1] (bs @ rest) = UNPACK_SUCCESS (MArr (xs @ [obj])) rest"
  by (subst execute.simps) (simp add: push_token_def)

definition msg_objects :: "NetworkXioMsg \<Rightarrow> mobj list" where
  "msg_objects m = [mint (opcode_number (nm_opcode m)), MStr (nm_filename m), MPos (nm_size m), MPos (nm_offset m),
     mint (nm_retval m), mint (nm_errval m), MPos (nm_opaque m), mint (nm_timeout m)]"

lemma execute_pack_msg:
  assumes "msg_ok m"
  shows "execute [] (pack_msg m @ rest) = UNPACK_SUCCESS (MArr (msg_objects m)) rest"
proof -
  have op: "int_range 32 (opcode_number (nm_opcode m))" using assms opcode_cast_number by (auto simp: msg_ok_def)
  have i32: "lex (pack_int32 d @ r) = Token (Item (mint d)) r" if "int_range 32 d" for d r
    using that by (intro lex_int32) (auto simp: int_range_def)
  have i64: "lex (pack_int64 d @ r) = Token (Item (mint d)) r" if "int_range 64 d" for d r
    using that by (intro lex_int64) (auto simp: int_range_def)
  have hd: "execute [] (pack_array 8 @ r) = execute [FArray [] 8] r" for r
    using lex_array [of 8 r] by (subst execute.simps) (simp add: push_token_def)
  show ?thesis
    using assms op
    by (simp add: pack_msg_def hd execute_item execute_last i32 i64 lex_string lex_uint64 msg_ok_def msg_objects_def
        execute_last [unfolded One_nat_def] del: lex.simps)
qed

lemma convert_msg_objects: "msg_ok m \<Longrightarrow> convert_msg (MArr (msg_objects m)) m0 = Inr m"
  by (simp add: convert_msg_def msg_objects_def convert_field_def assign_field_def msg_ok_def convert_mint opcode_cast_number)

lemma unpack_pack_msg: "msg_ok m \<Longrightarrow> unpack_msg (pack_msg m @ rest) m0 = Inr m"
  by (simp add: unpack_msg_def execute_pack_msg convert_msg_objects)

text \<open>
  C13. A message survives the network: whatever message a client or server packs, the other side
  unpacks the same eight fields, whatever the message object held before and whatever bytes follow.
\<close>

theorem msg_roundtrip:
  assumes "msg_ok m"
  shows "unpack_msg (pack_msg m @ rest) m0 = Inr m"
  using assms by (rule unpack_pack_msg)

theorem msg_roundtrip_witness:
  "unpack_msg (pack_msg ((NetworkXioMsg_new ReadReq)\<lparr>nm_filename := ''obj'', nm_size := 4096, nm_errval := -5\<rparr>))
     (NetworkXioMsg_new Noop) = Inr ((NetworkXioMsg_new ReadReq)\<lparr>nm_filename := ''obj'', nm_size := 4096, nm_errval := -5\<rparr>)"
  using msg_roundtrip [of "(NetworkXioMsg_new ReadReq)\<lparr>nm_filename := ''obj'', nm_size := 4096, nm_errval := -5\<rparr>" "[]"]
  by (simp add: msg_ok_def opcode_ok_def int_range_def NetworkXioMsg_new_def)

section \<open>Truncated messages\<close>

lemma execute_mono:
  "execute st bs = UNPACK_SUCCESS obj r \<Longrightarrow> execute st (bs @ xs) = UNPACK_SUCCESS obj (r @ xs)"
proof (induction st bs rule: execute.induct)
  case (1 st bs)
  from "1.prems" obtain t rest where l: "lex bs = Token t rest"
    by (subst (asm) execute.simps) (auto split: lexed.splits)
  from lex_mono [OF l] have l': "lex (bs @ xs) = Token t (rest @ xs)" .
  show ?case
  proof (cases "push_token t st")
    case (Inl obj')
    with "1.prems" l have "obj' = obj" "rest = r" by (simp_all add: execute.simps [of st bs])
    with Inl l' show ?thesis by (simp add: execute.simps [of st "bs @ xs"])
  next
    case (Inr st')
    with "1.prems" l have "execute st' rest = UNPACK_SUCCESS obj r" by (simp add: execute.simps [of st bs])
    from "1.IH" [OF l Inr this] Inr l' show ?thesis by (simp add: execute.simps [of st "bs @ xs"])
  qed
qed

lemma execute_mono_error: "execute st bs = UNPACK_PARSE_ERROR \<Longrightarrow> execute st (bs @ xs) = UNPACK_PARSE_ERROR"
proof (induction st bs rule: execute.induct)
  case (1 st bs)
  show ?case
  proof (cases "lex bs")
    case (Token t rest)
    from lex_mono [OF this] have l': "lex (bs @ xs) = Token t (rest @ xs)" .
    obtain st' where st': "push_token t st = Inr st'" "execute st' rest = UNPACK_PARSE_ERROR"
      using "1.prems" Token by (cases "push_token t st") (simp_all add: execute.simps [of st bs])
    from "1.IH" [OF Token st'] st'(1) l' show ?thesis by (simp add: execute.simps [of st "bs @ xs"])
  next
    case NeedMore
    with "1.prems" show ?thesis by (simp add: execute.simps [of st bs])
  next
    case BadByte
    then have "lex (bs @ xs) = BadByte" by (rule lex_bad)
    then show ?thesis by (simp add: execute.simps [of st "bs @ xs"])
  qed
qed

text \<open>
  C19. A message that arrives cut short is refused: unpacking any proper prefix of a packed message
  raises \<open>insufficient_bytes\<close>; it is never taken for another message.
\<close>

theorem truncated_msg_refused:
  assumes "msg_ok m" "k < length (pack_msg m)"
  shows "unpack_msg (take k (pack_msg m)) m0 = Inl insufficient_bytes"
proof -
  let ?p = "take k (pack_msg m)" and ?q = "drop k (pack_msg m)"
  have full: "execute [] (?p @ ?q) = UNPACK_SUCCESS (MArr (msg_objects m)) []"
    using execute_pack_msg [OF assms(1), of "[]"] by simp
  have "?q \<noteq> []" using assms(2) by simp
  show ?thesis
  proof (cases "execute [] ?p")
    case (UNPACK_SUCCESS obj r)
    from execute_mono [OF this, of ?q] full \<open>?q \<noteq> []\<close> show ?thesis by simp
  next
    case UNPACK_CONTINUE
    then show ?thesis by (simp add: unpack_msg_def)
  next
    case UNPACK_PARSE_ERROR
    from execute_mono_error [OF this, of ?q] full show ?thesis by simp
  qed
qed

theorem truncated_msg_refused_witness:
  "unpack_msg (take 5 (pack_msg (NetworkXioMsg_new OpenReq))) (NetworkXioMsg_new Noop) = Inl insufficient_bytes"
proof -
  have "5 < length (pack_msg (NetworkXioMsg_new OpenReq))"
    by (simp add: pack_msg_def NetworkXioMsg_new_def pack_array_def pack_int32_def pack_string_def pack_str_def pack_uint64_def
        pack_int64_def store_signed_def)
  then show ?thesis
    by (intro truncated_msg_refused) (simp_all add: msg_ok_def opcode_ok_def int_range_def NetworkXioMsg_new_def)
qed

end
