(* ===== verification/Xio_WorkQueue.thy ===== *)
theory Xio_WorkQueue
  imports Sync
begin

text \<open>
  The pool of worker threads of the server (\<open>src/networkxio/NetworkXioWorkQueue.h\<close>): a queue of
  requests to process, a queue of finished requests, and the rules by which the pool grows and
  shrinks. Requests are addresses; clock readings in milliseconds, the number of hardware threads and
  whether a thread can be created are arguments.
\<close>

section \<open>State\<close>

record workqueue =
  wq_nr_threads :: "64 word"
  wq_inflight :: "nat list"
  wq_finished :: "nat list"
  wq_nr_queued_work :: "64 word"
  wq_thread_life_period :: int
  wq_protection_period :: int
  wq_stopping :: bool
  wq_stopped :: bool
  wq_evfd :: nat

definition workqueue_blank :: workqueue where
  "workqueue_blank = \<lparr>wq_nr_threads = 0, wq_inflight = [], wq_finished = [], wq_nr_queued_work = 0,
     wq_thread_life_period = 0, wq_protection_period = 5000, wq_stopping = False, wq_stopped = False, wq_evfd = 0\<rparr>"

section \<open>Growing and shrinking\<close>

definition need_to_grow :: "64 word \<Rightarrow> int \<Rightarrow> workqueue \<Rightarrow> bool \<times> workqueue" where
  "need_to_grow hw_threads now wq =
     (if wq_nr_threads wq < wq_nr_queued_work wq \<and> wq_nr_threads wq * 2 \<le> hw_threads
      then (True, wq\<lparr>wq_thread_life_period := now + wq_protection_period wq\<rparr>)
      else (False, wq))"

definition need_to_shrink :: "int \<Rightarrow> workqueue \<Rightarrow> bool \<times> workqueue" where
  "need_to_shrink now wq =
     (if wq_nr_queued_work wq < wq_nr_threads wq div 2
      then (wq_thread_life_period wq \<le> now, wq)
      else (False, wq\<lparr>wq_thread_life_period := now + wq_protection_period wq\<rparr>))"

lemma unat_word_Suc: "w < v \<Longrightarrow> unat (w + 1) = Suc (unat w)" for w v :: "64 word"
proof -
  assume "w < v"
  then have "unat w < unat v" by (simp add: word_less_nat_alt)
  moreover have "unat v < 2 ^ 64" by (rule order_less_le_trans [OF unsigned_less]) simp
  ultimately have "unat w + 1 < 2 ^ 64" by linarith
  then show ?thesis by (simp add: unat_word_ariths)
qed

text \<open>\<open>spawn n\<close> says whether thread number \<open>n\<close> can be created.\<close>

function create_workqueue_threads :: "(nat \<Rightarrow> bool) \<Rightarrow> 64 word \<Rightarrow> workqueue \<Rightarrow> int \<times> workqueue" where
  "create_workqueue_threads spawn requested wq =
     (if wq_nr_threads wq < requested then
        (if spawn (unat (wq_nr_threads wq))
         then create_workqueue_threads spawn requested (wq\<lparr>wq_nr_threads := wq_nr_threads wq + 1\<rparr>)
         else (-1, wq))
      else (0, wq))"
  by pat_completeness auto

termination
  by (relation "measure (\<lambda>(spawn, requested, wq). unat requested - unat (wq_nr_threads wq))")
    (auto simp: unat_word_Suc word_less_nat_alt)

declare create_workqueue_threads.simps [simp del]

text \<open>The constructor; \<open>None\<close> is the exception \<open>WorkQueueThreadsException\<close>.\<close>

definition NetworkXioWorkQueue_new :: "(nat \<Rightarrow> bool) \<Rightarrow> int \<Rightarrow> workqueue option" where
  "NetworkXioWorkQueue_new spawn numCoresForIO =
     (let (ret, wq) = create_workqueue_threads spawn (word_of_int numCoresForIO) workqueue_blank
      in if ret < 0 then None else Some wq)"

section \<open>Scheduling\<close>

definition queued_work_inc :: "workqueue \<Rightarrow> workqueue" where
  "queued_work_inc wq = wq\<lparr>wq_nr_queued_work := wq_nr_queued_work wq + 1\<rparr>"

definition queued_work_dec :: "workqueue \<Rightarrow> workqueue" where
  "queued_work_dec wq = wq\<lparr>wq_nr_queued_work := wq_nr_queued_work wq - 1\<rparr>"

definition work_schedule :: "(nat \<Rightarrow> bool) \<Rightarrow> 64 word \<Rightarrow> int \<Rightarrow> nat \<Rightarrow> workqueue \<Rightarrow> workqueue" where
  "work_schedule spawn hw_threads now req wq0 =
     (let (grow, wq1) = need_to_grow hw_threads now (queued_work_inc wq0);
          wq2 = (if grow then snd (create_workqueue_threads spawn (wq_nr_threads wq1 * 2) wq1) else wq1)
      in wq2\<lparr>wq_inflight := list_push req (wq_inflight wq2)\<rparr>)"

section \<open>Workers\<close>

text \<open>\<open>xstop_loop\<close> writes 1 to the eventfd that ends the event loop of the server.\<close>

definition xstop_loop :: "workqueue \<Rightarrow> workqueue" where
  "xstop_loop wq = wq\<lparr>wq_evfd := wq_evfd wq + 1\<rparr>"

definition worker_bottom_half :: "nat \<Rightarrow> workqueue \<Rightarrow> workqueue" where
  "worker_bottom_half req wq = xstop_loop (wq\<lparr>wq_finished := list_push req (wq_finished wq)\<rparr>)"

text \<open>
  What a worker does with the lock held: at the top of its loop, and at the label \<open>retry\<close>; and after
  it has been woken from the wait on \<open>inflight_cond\<close>.
\<close>

datatype worker_next = WorkerExits | WorkerWaits | WorkerTakes nat

definition worker_retry :: "workqueue \<Rightarrow> worker_next \<times> workqueue" where
  "worker_retry wq =
     (case list_pop (wq_inflight wq) of
        None \<Rightarrow> (WorkerWaits, wq)
      | Some (req, rest) \<Rightarrow> (WorkerTakes req, wq\<lparr>wq_inflight := rest\<rparr>))"

definition worker_top :: "int \<Rightarrow> workqueue \<Rightarrow> worker_next \<times> workqueue" where
  "worker_top now wq =
     (let (shrink, wq1) = need_to_shrink now wq
      in if shrink then (WorkerExits, wq1\<lparr>wq_nr_threads := wq_nr_threads wq1 - 1\<rparr>) else worker_retry wq1)"

definition worker_woken :: "workqueue \<Rightarrow> worker_next \<times> workqueue" where
  "worker_woken wq =
     (if wq_stopping wq then (WorkerExits, wq\<lparr>wq_nr_threads := wq_nr_threads wq - 1\<rparr>) else worker_retry wq)"

text \<open>After the work item has run.\<close>

definition worker_done :: "bool \<Rightarrow> nat \<Rightarrow> workqueue \<Rightarrow> workqueue" where
  "worker_done finishNow req wq =
     (if finishNow then xstop_loop (wq\<lparr>wq_finished := list_push req (wq_finished wq)\<rparr>) else wq)"

section \<open>The server's side\<close>

definition is_finished_empty :: "workqueue \<Rightarrow> bool" where
  "is_finished_empty wq \<longleftrightarrow> wq_finished wq = []"

definition get_finished :: "workqueue \<Rightarrow> (nat \<times> workqueue) res" where
  "get_finished wq =
     (case list_pop (wq_finished wq) of
        None \<Rightarrow> Inl (UndefinedBehaviour ''front of an empty queue'')
      | Some (req, rest) \<Rightarrow> Inr (req, wq\<lparr>wq_finished := rest\<rparr>))"

text \<open>
  \<open>shutdown\<close>: the loop waits until no thread is left; \<open>quiesce\<close> stands for what the workers do while
  it runs.
\<close>

definition workqueue_shutdown :: "(workqueue \<Rightarrow> workqueue) \<Rightarrow> workqueue \<Rightarrow> workqueue res" where
  "workqueue_shutdown quiesce wq =
     (if wq_stopped wq then Inr wq
      else let wq1 = quiesce (wq\<lparr>wq_stopping := True\<rparr>) in
           if wq_nr_threads wq1 \<noteq> 0 then Inl (Blocked ''shutdown of the work queue'')
           else Inr (wq1\<lparr>wq_stopped := True\<rparr>))"

section \<open>The size of the pool\<close>

lemma create_threads_frame:
  "wq_inflight (snd (create_workqueue_threads spawn r wq)) = wq_inflight wq \<and>
   wq_finished (snd (create_workqueue_threads spawn r wq)) = wq_finished wq \<and>
   wq_nr_queued_work (snd (create_workqueue_threads spawn r wq)) = wq_nr_queued_work wq \<and>
   wq_nr_threads wq \<le> wq_nr_threads (snd (create_workqueue_threads spawn r wq)) \<and>
   wq_nr_threads (snd (create_workqueue_threads spawn r wq)) \<le> max r (wq_nr_threads wq)"
proof (induction spawn r wq rule: create_workqueue_threads.induct)
  case (1 spawn r wq)
  show ?case
  proof (cases "wq_nr_threads wq < r \<and> spawn (unat (wq_nr_threads wq))")
    case True
    then have lt: "wq_nr_threads wq < r" by simp
    have le: "wq_nr_threads wq + 1 \<le> r" "wq_nr_threads wq \<le> wq_nr_threads wq + 1"
      using unat_word_Suc [OF lt] lt by (auto simp: word_le_nat_alt word_less_nat_alt)
    show ?thesis
      using "1.IH" True le lt
      by (subst (1 2 3 4 5) create_workqueue_threads.simps) (auto simp: max_def)
  next
    case False
    then show ?thesis by (subst (1 2 3 4 5) create_workqueue_threads.simps) auto
  qed
qed

text \<open>
  The pool with its threads as a transition system: \<open>ws_live\<close> counts the threads that exist,
  \<open>ws_scheduled\<close> the requests scheduled so far. A worker acts only while it is alive.
\<close>

record wq_sys =
  ws_wq :: workqueue
  ws_live :: nat
  ws_scheduled :: nat

definition after_worker :: "worker_next \<times> workqueue \<Rightarrow> wq_sys \<Rightarrow> wq_sys" where
  "after_worker r s = s\<lparr>ws_wq := snd r, ws_live := (if fst r = WorkerExits then ws_live s - 1 else ws_live s)\<rparr>"

inductive wq_step :: "64 word \<Rightarrow> wq_sys \<Rightarrow> wq_sys \<Rightarrow> bool" for hw where
  wq_schedule: "Suc (ws_scheduled s) < 2 ^ 64 \<Longrightarrow> wq = work_schedule spawn hw now req (ws_wq s) \<Longrightarrow>
     wq_step hw s \<lparr>ws_wq = wq, ws_live = ws_live s + unat (wq_nr_threads wq) - unat (wq_nr_threads (ws_wq s)),
                   ws_scheduled = Suc (ws_scheduled s)\<rparr>"
| wq_top: "ws_live s > 0 \<Longrightarrow> wq_step hw s (after_worker (worker_top now (ws_wq s)) s)"
| wq_woken: "ws_live s > 0 \<Longrightarrow> wq_step hw s (after_worker (worker_woken (ws_wq s)) s)"
| wq_done: "ws_live s > 0 \<Longrightarrow> wq_step hw s (s\<lparr>ws_wq := worker_done fin req (ws_wq s)\<rparr>)"
| wq_bottom: "wq_step hw s (s\<lparr>ws_wq := worker_bottom_half req (ws_wq s)\<rparr>)"
| wq_fetch: "get_finished (ws_wq s) = Inr (req, wq) \<Longrightarrow> wq_step hw s (s\<lparr>ws_wq := wq\<rparr>)"
| wq_stop: "wq_step hw s (s\<lparr>ws_wq := (ws_wq s)\<lparr>wq_stopping := True\<rparr>\<rparr>)"

definition wq_init :: "64 word \<Rightarrow> wq_sys \<Rightarrow> bool" where
  "wq_init hw s \<longleftrightarrow> (\<exists>spawn cores wq. NetworkXioWorkQueue_new spawn cores = Some wq \<and> wq_nr_threads wq \<le> hw \<and>
     s = \<lparr>ws_wq = wq, ws_live = unat (wq_nr_threads wq), ws_scheduled = 0\<rparr>)"

definition wq_inv :: "64 word \<Rightarrow> wq_sys \<Rightarrow> bool" where
  "wq_inv hw s \<longleftrightarrow> ws_live s = unat (wq_nr_threads (ws_wq s)) \<and> wq_nr_threads (ws_wq s) \<le> hw \<and>
     ws_scheduled s < 2 ^ 64 \<and> wq_nr_queued_work (ws_wq s) = of_nat (ws_scheduled s)"

lemma work_schedule_size:
  assumes "wq_nr_threads wq \<le> hw"
  shows "wq_nr_threads wq \<le> wq_nr_threads (work_schedule spawn hw now req wq) \<and>
    wq_nr_threads (work_schedule spawn hw now req wq) \<le> hw \<and>
    wq_nr_queued_work (work_schedule spawn hw now req wq) = wq_nr_queued_work wq + 1 \<and>
    wq_inflight (work_schedule spawn hw now req wq) = wq_inflight wq @ [req] \<and>
    wq_finished (work_schedule spawn hw now req wq) = wq_finished wq"
proof -
  obtain grow wq1 where g: "need_to_grow hw now (queued_work_inc wq) = (grow, wq1)" by fastforce
  then have w: "wq_nr_threads wq1 = wq_nr_threads wq" "wq_nr_queued_work wq1 = wq_nr_queued_work wq + 1"
      "wq_inflight wq1 = wq_inflight wq" "wq_finished wq1 = wq_finished wq" "grow \<Longrightarrow> wq_nr_threads wq1 * 2 \<le> hw"
    by (auto simp: need_to_grow_def queued_work_inc_def split: if_splits)
  show ?thesis
    using create_threads_frame [of spawn "wq_nr_threads wq1 * 2" wq1] w assms
    by (cases grow) (auto simp: work_schedule_def g Let_def max_def split: if_splits)
qed

lemma worker_frame:
  "wq_nr_queued_work (snd (worker_retry wq)) = wq_nr_queued_work wq" "wq_nr_threads (snd (worker_retry wq)) = wq_nr_threads wq"
  "fst (worker_retry wq) \<noteq> WorkerExits"
  by (auto simp: worker_retry_def split: option.splits)

lemma worker_top_frame:
  "wq_nr_queued_work (snd (worker_top now wq)) = wq_nr_queued_work wq \<and>
   wq_nr_threads (snd (worker_top now wq)) = (if fst (worker_top now wq) = WorkerExits then wq_nr_threads wq - 1 else wq_nr_threads wq)"
  by (auto simp: worker_top_def need_to_shrink_def worker_frame Let_def split: if_splits)

lemma worker_woken_frame:
  "wq_nr_queued_work (snd (worker_woken wq)) = wq_nr_queued_work wq \<and>
   wq_nr_threads (snd (worker_woken wq)) = (if fst (worker_woken wq) = WorkerExits then wq_nr_threads wq - 1 else wq_nr_threads wq)"
  by (auto simp: worker_woken_def worker_frame)

lemma unat_word_pred: "unat w > 0 \<Longrightarrow> unat (w - 1) = unat w - 1 \<and> w - 1 \<le> w" for w :: "64 word"
  by (metis One_nat_def Suc_leI diff_le_self unat_1 unat_sub word_le_nat_alt)

lemma after_worker_inv:
  assumes "wq_inv hw s" "ws_live s > 0"
    and "wq_nr_queued_work (snd r) = wq_nr_queued_work (ws_wq s) \<and>
      wq_nr_threads (snd r) = (if fst r = WorkerExits then wq_nr_threads (ws_wq s) - 1 else wq_nr_threads (ws_wq s))"
  shows "wq_inv hw (after_worker r s)"
  using assms unat_word_pred [of "wq_nr_threads (ws_wq s)"] by (auto simp: wq_inv_def after_worker_def)

interpretation wqs: invariant_system "wq_init hw" "wq_step hw" "wq_inv hw" for hw
proof unfold_locales
  fix s assume "wq_init hw s"
  then obtain spawn cores wq where n: "NetworkXioWorkQueue_new spawn cores = Some wq" "wq_nr_threads wq \<le> hw"
      "s = \<lparr>ws_wq = wq, ws_live = unat (wq_nr_threads wq), ws_scheduled = 0\<rparr>"
    by (auto simp: wq_init_def)
  have "wq_nr_queued_work wq = 0"
    using n(1) create_threads_frame [of spawn "word_of_int cores" workqueue_blank]
    by (auto simp: NetworkXioWorkQueue_new_def workqueue_blank_def split: prod.splits if_splits)
  with n(2,3) show "wq_inv hw s" by (simp add: wq_inv_def)
next
  fix s t assume i: "wq_inv hw s" and st: "wq_step hw s t"
  from st show "wq_inv hw t"
  proof cases
    case (wq_schedule wq spawn now req)
    have "unat (wq_nr_threads (ws_wq s)) \<le> unat (wq_nr_threads wq)"
      using work_schedule_size [of "ws_wq s" hw spawn now req] i wq_schedule(3) by (simp add: wq_inv_def word_le_nat_alt)
    then show ?thesis
      using wq_schedule work_schedule_size [of "ws_wq s" hw spawn now req] i by (auto simp: wq_inv_def)
  next
    case (wq_top now)
    then show ?thesis using after_worker_inv [OF i] worker_top_frame by simp
  next
    case wq_woken
    then show ?thesis using after_worker_inv [OF i] worker_woken_frame by simp
  next
    case (wq_done fin req)
    then show ?thesis using i by (simp add: wq_inv_def worker_done_def xstop_loop_def)
  next
    case (wq_bottom req)
    then show ?thesis using i by (simp add: wq_inv_def worker_bottom_half_def xstop_loop_def)
  next
    case (wq_fetch req wq)
    then show ?thesis using i by (auto simp: wq_inv_def get_finished_def split: option.splits)
  next
    case wq_stop
    then show ?thesis using i by (simp add: wq_inv_def)
  qed
qed



end
