(* ===== verification/Xio_IOHandler.thy ===== *)
theory Xio_IOHandler
  imports Xio_Protocol Xio_WorkQueue IO_Exec_File
begin

text \<open>
  The handler of the requests of one connection (\<open>src/networkxio/NetworkXioIOHandler.cpp\<close>, requests
  in \<open>NetworkXioRequest.h\<close>): it decodes a request, opens, closes or starts a read, and turns the
  status records of finished reads into replies. What libxio's allocators return is an argument, and
  so is what a read of the file service does, until it is instantiated with that service.
\<close>

section \<open>Requests\<close>

text \<open>
  \<open>rq_header\<close> is the header of the incoming message, \<open>rq_reg_mem\<close> the address of the registered buffer.
\<close>

record NetworkXioRequest =
  rq_op :: NetworkXioMsgOpcode
  rq_data :: "64 word"
  rq_data_len :: "32 word"
  rq_size :: "64 word"
  rq_offset :: "64 word"
  rq_retval :: int
  rq_errval :: int
  rq_opaque :: "64 word"
  rq_header :: bytes
  rq_reg_mem :: "64 word"
  rq_from_pool :: bool
  rq_client :: nat
  rq_s_msg :: bytes

definition NetworkXioRequest_new :: "nat \<Rightarrow> bytes \<Rightarrow> NetworkXioRequest" where
  "NetworkXioRequest_new client header = \<lparr>rq_op = Noop, rq_data = 0, rq_data_len = 0, rq_size = 0, rq_offset = 0,
     rq_retval = 0, rq_errval = 0, rq_opaque = 0, rq_header = header, rq_reg_mem = 0, rq_from_pool = False,
     rq_client = client, rq_s_msg = []\<rparr>"

text \<open>\<open>pack_msg\<close> of the handler: the reply of a request.\<close>

definition reply_msg :: "NetworkXioRequest \<Rightarrow> NetworkXioMsg" where
  "reply_msg req = (NetworkXioMsg_new (rq_op req))\<lparr>nm_retval := rq_retval req, nm_errval := rq_errval req,
     nm_opaque := rq_opaque req\<rparr>"

definition pack_reply :: "NetworkXioRequest \<Rightarrow> NetworkXioRequest" where
  "pack_reply req = req\<lparr>rq_s_msg := pack_msg (reply_msg req)\<rparr>"

section \<open>Life of the handler\<close>

record IOHandler =
  ih_eventHandle :: "IOExecEventFd option"
  ih_epollfd :: int
  ih_shutdown :: notifier_fd
  ih_thread :: bool

definition IOHandler_blank :: IOHandler where
  "IOHandler_blank = \<lparr>ih_eventHandle = None, ih_epollfd = -1, ih_shutdown = \<lparr>nf_fd = -1\<rparr>, ih_thread = False\<rparr>"

text \<open>
  The constructor catches its own exceptions: what had been set up stays, and the completion thread
  is started only when every step succeeded.
\<close>

definition NetworkXioIOHandler_new ::
  "int \<times> int \<times> int \<Rightarrow> int \<Rightarrow> int \<Rightarrow> int \<Rightarrow> int \<Rightarrow> IOExecService option \<Rightarrow> IOHandler res" where
  "NetworkXioIOHandler_new pipe epoll_ret ctl_ret sd_evfd sd_ctl svh =
     rbind (IOExecEventFdOpen pipe svh) (\<lambda>evh.
     let h = IOHandler_blank\<lparr>ih_eventHandle := evh\<rparr> in
     if evh = None \<or> IOExecEventFdGetReadFd evh = -1 then Inr h
     else let h1 = h\<lparr>ih_epollfd := epoll_ret\<rparr> in
       if epoll_ret < 0 \<or> ctl_ret \<noteq> 0 then Inr h1
       else let (err, n) = ShutdownNotifier_init sd_evfd sd_ctl (ih_shutdown h1) in
         Inr (h1\<lparr>ih_shutdown := n, ih_thread := (err = 0)\<rparr>))"

text \<open>
  The destructor: the result lists the descriptors closed. The completion thread is joined when it
  could be notified; \<open>send\<close> is the result of the notification.
\<close>

definition NetworkXioIOHandler_destroy :: "int \<Rightarrow> int \<Rightarrow> IOHandler \<Rightarrow> IOHandler \<times> int list" where
  "NetworkXioIOHandler_destroy send close_ret h =
     (let (_, closed0, n) = notifier_destroy close_ret (ih_shutdown h);
          closed1 = snd (IOExecEventFdClose (ih_eventHandle h));
          closed2 = (if ih_epollfd h \<noteq> -1 then [ih_epollfd h] else [])
      in (h\<lparr>ih_shutdown := n, ih_thread := (ih_thread h \<and> send \<noteq> 0), ih_eventHandle := None, ih_epollfd := -1\<rparr>,
          closed0 @ closed1 @ closed2))"

section \<open>Commands\<close>

definition handle_open :: "NetworkXioRequest \<Rightarrow> NetworkXioRequest" where
  "handle_open req = pack_reply (req\<lparr>rq_op := OpenRsp, rq_retval := 0, rq_errval := 0\<rparr>)"

definition handle_close :: "bool \<Rightarrow> NetworkXioRequest \<Rightarrow> NetworkXioRequest" where
  "handle_close has_service req =
     pack_reply (if \<not> has_service then req\<lparr>rq_op := CloseRsp, rq_retval := -1, rq_errval := EIO\<rparr>
                 else req\<lparr>rq_op := CloseRsp, rq_retval := 0, rq_errval := 0\<rparr>)"

definition handle_error :: "int \<Rightarrow> NetworkXioRequest \<Rightarrow> NetworkXioRequest" where
  "handle_error errval req = pack_reply (req\<lparr>rq_op := ErrorRsp, rq_retval := -1, rq_errval := errval\<rparr>)"

text \<open>What \<open>IOExecFileRead\<close> does: it returns a code, or an exception leaves it.\<close>

datatype read_outcome = ReadReturned int | ReadThrew

text \<open>
  Memory: the results of \<open>xio_mempool_alloc\<close> and \<open>xio_mem_alloc\<close>, each with the address of the
  buffer.
\<close>

record xio_mem =
  xm_pool :: "int \<times> 64 word"
  xm_mem :: "int \<times> 64 word"

definition alloc_buffer :: "xio_mem \<Rightarrow> NetworkXioRequest \<Rightarrow> int \<times> NetworkXioRequest" where
  "alloc_buffer xm req =
     (if fst (xm_pool xm) < 0
      then (if fst (xm_mem xm) < 0 then (fst (xm_mem xm), req)
            else (fst (xm_mem xm), req\<lparr>rq_reg_mem := snd (xm_mem xm), rq_from_pool := False\<rparr>))
      else (fst (xm_pool xm), req\<lparr>rq_reg_mem := snd (xm_pool xm), rq_from_pool := True\<rparr>))"

definition read_batch :: "64 word \<Rightarrow> NetworkXioRequest \<Rightarrow> 64 word \<Rightarrow> int \<Rightarrow> gIOBatch" where
  "read_batch baddr req sz off = [\<lparr>fr_completionId = baddr, fr_offset = off, fr_size = sz, fr_addr = rq_reg_mem req\<rparr>]"

text \<open>Freeing the batch after its fragment's address has been set to null.\<close>

definition free_batch :: "gIOBatch \<Rightarrow> unit res" where
  "free_batch batch = rbind (gIOBatchFree (Some (map (\<lambda>f. f\<lparr>fr_addr := 0\<rparr>) batch)) None) (\<lambda>_. Inr ())"

text \<open>
  \<open>handle_read\<close>: the return code, the request, and the batch that is left to the completion thread.
  \<open>baddr\<close> is the address of the batch, which is also its completion id. When an exception leaves the
  read, \<open>ret\<close> still holds the result of the allocation.
\<close>

definition handle_read ::
  "bool \<Rightarrow> xio_mem \<Rightarrow> (gIOBatch \<Rightarrow> read_outcome) \<Rightarrow> 64 word \<Rightarrow> 64 word \<Rightarrow> int \<Rightarrow> NetworkXioRequest \<Rightarrow>
    (int \<times> NetworkXioRequest \<times> gIOBatch option) res" where
  "handle_read has_service xm read baddr sz off req0 =
     (let req = req0\<lparr>rq_op := ReadRsp\<rparr> in
      if \<not> has_service then Inr (-1, pack_reply (req\<lparr>rq_retval := -1, rq_errval := EIO\<rparr>), None)
      else let (aret, req1) = alloc_buffer xm req in
        if aret < 0 then Inr (aret, pack_reply (req1\<lparr>rq_retval := -1, rq_errval := ENOMEM\<rparr>), None)
        else
          let req2 = req1\<lparr>rq_data := rq_reg_mem req1, rq_data_len := ucast sz, rq_size := sz, rq_offset := word_of_int off\<rparr>;
              batch = read_batch baddr req2 sz off
          in case read batch of
               ReadThrew \<Rightarrow>
                 let req3 = req2\<lparr>rq_retval := -1, rq_errval := EIO\<rparr> in
                 Inr (aret, if aret \<noteq> 0 then pack_reply req3 else req3, None)
             | ReadReturned ret \<Rightarrow>
                 if ret \<noteq> 0 then
                   rbind (free_batch batch) (\<lambda>_. Inr (ret, pack_reply (req2\<lparr>rq_retval := -1, rq_errval := EIO\<rparr>), None))
                 else Inr (ret, req2, Some batch))"

text \<open>
  \<open>process_request\<close>: whether the reply can be sent at once, the request, and the batch left to the
  completion thread.
\<close>

definition process_request ::
  "bool \<Rightarrow> xio_mem \<Rightarrow> (string \<Rightarrow> gIOBatch \<Rightarrow> read_outcome) \<Rightarrow> 64 word \<Rightarrow> NetworkXioRequest \<Rightarrow>
    (bool \<times> NetworkXioRequest \<times> gIOBatch option) res" where
  "process_request has_service xm read baddr req0 =
     (case unpack_msg (rq_header req0) (NetworkXioMsg_new Noop) of
        Inl _ \<Rightarrow> Inr (True, handle_error EBADMSG req0, None)
      | Inr i_msg \<Rightarrow>
          let req = req0\<lparr>rq_opaque := nm_opaque i_msg\<rparr> in
          (case nm_opcode i_msg of
             OpenReq \<Rightarrow> Inr (True, handle_open req, None)
           | CloseReq \<Rightarrow> Inr (True, handle_close has_service req, None)
           | ReadReq \<Rightarrow>
               rbind (handle_read has_service xm (read (nm_filename i_msg)) baddr (nm_size i_msg) (sint (nm_offset i_msg)) req)
                 (\<lambda>(ret, req', b). Inr (ret \<noteq> 0, req', b))
           | _ \<Rightarrow> Inr (True, handle_error EIO req, None)))"

section \<open>Completions\<close>

text \<open>
  What the completion thread does with a status record, given the batch at its completion id: the
  batch is freed, the reply of a read is packed; \<open>None\<close> when the request is not a read.
\<close>

definition completion_reply :: "gIOStatus \<Rightarrow> gIOBatch \<Rightarrow> NetworkXioRequest \<Rightarrow> NetworkXioRequest option res" where
  "completion_reply iostatus batch req =
     rbind (free_batch batch) (\<lambda>_.
     Inr (if rq_op req = ReadRsp then
            Some (pack_reply (if st_errorCode iostatus = 0
                              then req\<lparr>rq_retval := sint (rq_size req), rq_errval := 0\<rparr>
                              else req\<lparr>rq_retval := -1, rq_errval := st_errorCode iostatus\<rparr>))
          else None))"

text \<open>\<open>handle_request\<close> gives the request to the work queue.\<close>

definition handle_request :: "(nat \<Rightarrow> bool) \<Rightarrow> 64 word \<Rightarrow> int \<Rightarrow> nat \<Rightarrow> workqueue \<Rightarrow> workqueue" where
  "handle_request spawn hw now p wq = work_schedule spawn hw now p wq"

section \<open>Reading through the file service\<close>

text \<open>The read of the handler on the file service: a fault of the service is a crash of the server.\<close>

definition service_read ::
  "sysenv \<Rightarrow> (nat \<Rightarrow> nat \<Rightarrow> iocb list \<Rightarrow> int) \<Rightarrow> (nat \<Rightarrow> nat) \<Rightarrow> (string \<Rightarrow> 64 word) \<Rightarrow> (string \<Rightarrow> int \<Rightarrow> int) \<Rightarrow>
    IOExecEventFd option \<Rightarrow> IOExecService option \<Rightarrow> string \<Rightarrow> gIOBatch \<Rightarrow> (int \<times> IOExecService option) res" where
  "service_read E io addr hasher open_file evh svh filename batch =
     IOExecFileRead_name E io addr hasher open_file filename (length filename) batch evh svh"

end
