(* ===== verification/Xio_IOHandler_Props.thy ===== *)
theory Xio_IOHandler_Props
  imports Xio_IOHandler IO_Exec_File_Props
begin

text \<open>
  What a client can rely on in the replies of the handler, and the requests that get none.
\<close>

lemma reply_unpacks:
  assumes "opcode_ok (rq_op req)" "int_range 64 (rq_retval req)" "int_range 32 (rq_errval req)"
  shows "unpack_msg (rq_s_msg (pack_reply req)) m0 = Inr (reply_msg req)"
  using unpack_pack_msg [of "reply_msg req" "[]" m0] assms
  by (simp add: pack_reply_def reply_msg_def msg_ok_def NetworkXioMsg_new_def int_range_def)

text \<open>A reply that says whether the command succeeded, with the opaque value \<open>q\<close>.\<close>

definition answers :: "NetworkXioRequest \<Rightarrow> 64 word \<Rightarrow> bool" where
  "answers req q \<longleftrightarrow> (\<forall>m0. \<exists>m. unpack_msg (rq_s_msg req) m0 = Inr m \<and> nm_opaque m = q \<and>
     nm_opcode m \<in> {OpenRsp, CloseRsp, ReadRsp, ErrorRsp} \<and>
     (nm_retval m = 0 \<and> nm_errval m = 0 \<or> nm_retval m = -1 \<and> nm_errval m \<in> {EIO, ENOMEM, EBADMSG}))"

lemma answers_pack:
  assumes "rq_op req \<in> {OpenRsp, CloseRsp, ReadRsp, ErrorRsp}"
    and "rq_retval req = 0 \<and> rq_errval req = 0 \<or> rq_retval req = -1 \<and> rq_errval req \<in> {EIO, ENOMEM, EBADMSG}"
  shows "answers (pack_reply req) (rq_opaque req)"
proof -
  have "unpack_msg (rq_s_msg (pack_reply req)) m0 = Inr (reply_msg req)" for m0
    using assms by (intro reply_unpacks) (auto simp: opcode_ok_def int_range_def)
  then show ?thesis using assms unfolding answers_def by (auto simp: reply_msg_def NetworkXioMsg_new_def)
qed

lemma alloc_buffer_frame:
  "rq_opaque (snd (alloc_buffer xm req)) = rq_opaque req \<and> rq_op (snd (alloc_buffer xm req)) = rq_op req \<and>
   rq_s_msg (snd (alloc_buffer xm req)) = rq_s_msg req \<and> rq_client (snd (alloc_buffer xm req)) = rq_client req"
  by (simp add: alloc_buffer_def)

lemma handle_read_answers:
  assumes "handle_read has xm read baddr sz off req = Inr (ret, req', b)" "ret \<noteq> 0"
  shows "b = None \<and> answers req' (rq_opaque req)"
proof -
  obtain aret req1 where a: "alloc_buffer xm (req\<lparr>rq_op := ReadRsp\<rparr>) = (aret, req1)" by fastforce
  then have f: "rq_opaque req1 = rq_opaque req" "rq_op req1 = ReadRsp"
    using alloc_buffer_frame [of xm "req\<lparr>rq_op := ReadRsp\<rparr>"] by simp_all
  let ?req2 = "req1\<lparr>rq_data := rq_reg_mem req1, rq_data_len := ucast sz, rq_size := sz, rq_offset := word_of_int off\<rparr>"
  have an: "answers (pack_reply (r\<lparr>rq_retval := -1, rq_errval := e\<rparr>)) (rq_opaque r)"
    if "rq_op r = ReadRsp" "e = EIO \<or> e = ENOMEM" for r e
    using answers_pack [of "r\<lparr>rq_retval := -1, rq_errval := e\<rparr>"] that by auto
  show ?thesis
    using assms an [of "req\<lparr>rq_op := ReadRsp\<rparr>" EIO] an [of req1 ENOMEM] an [of ?req2 EIO] f
    by (auto simp: handle_read_def a Let_def rbind_eq_Inr split: if_splits read_outcome.splits)
qed

text \<open>
  C18. Every request that \<open>process_request\<close> finishes at once carries a reply the client can unpack: an
  open, close, read or error response with the opaque value of the request (that of the request
  object when the message could not be unpacked), and either success or minus one with an error
  number. No batch is then left to the completion thread.
\<close>

theorem process_request_reply:
  assumes "process_request has xm read baddr req = Inr (True, req', b)"
  shows "b = None \<and> answers req' (case unpack_msg (rq_header req) (NetworkXioMsg_new Noop) of
    Inl _ \<Rightarrow> rq_opaque req | Inr i_msg \<Rightarrow> nm_opaque i_msg)"
proof (cases "unpack_msg (rq_header req) (NetworkXioMsg_new Noop)")
  case (Inl e)
  with assms answers_pack [of "req\<lparr>rq_op := ErrorRsp, rq_retval := -1, rq_errval := EBADMSG\<rparr>"] show ?thesis
    by (auto simp: process_request_def handle_error_def)
next
  case (Inr i_msg)
  let ?r = "req\<lparr>rq_opaque := nm_opaque i_msg\<rparr>"
  have err: "answers (handle_error EIO ?r) (nm_opaque i_msg)"
    using answers_pack [of "?r\<lparr>rq_op := ErrorRsp, rq_retval := -1, rq_errval := EIO\<rparr>"] by (simp add: handle_error_def)
  have op: "answers (handle_open ?r) (nm_opaque i_msg)"
    using answers_pack [of "?r\<lparr>rq_op := OpenRsp, rq_retval := 0, rq_errval := 0\<rparr>"] by (simp add: handle_open_def)
  have cl: "answers (handle_close has ?r) (nm_opaque i_msg)"
    using answers_pack [of "?r\<lparr>rq_op := CloseRsp, rq_retval := 0, rq_errval := 0\<rparr>"]
      answers_pack [of "?r\<lparr>rq_op := CloseRsp, rq_retval := -1, rq_errval := EIO\<rparr>"] by (simp add: handle_close_def)
  show ?thesis
  proof (cases "nm_opcode i_msg = ReadReq")
    case True
    then obtain ret where "handle_read has xm (read (nm_filename i_msg)) baddr (nm_size i_msg) (sint (nm_offset i_msg)) ?r =
        Inr (ret, req', b)" "ret \<noteq> 0"
      using assms Inr by (auto simp: process_request_def Let_def rbind_eq_Inr)
    from handle_read_answers [OF this] Inr show ?thesis by simp
  next
    case False
    then show ?thesis using assms Inr err op cl
      by (cases "nm_opcode i_msg") (auto simp: process_request_def Let_def)
  qed
qed

definition demo_open :: NetworkXioRequest where
  "demo_open = NetworkXioRequest_new 1 (pack_msg ((NetworkXioMsg_new OpenReq)\<lparr>nm_opaque := 42\<rparr>))"

lemma demo_msg_unpack:
  "op = OpenReq \<or> op = ReadReq \<Longrightarrow> unpack_msg (pack_msg ((NetworkXioMsg_new op)\<lparr>nm_opaque := q, nm_size := n\<rparr>)) m0 =
     Inr ((NetworkXioMsg_new op)\<lparr>nm_opaque := q, nm_size := n\<rparr>)"
  using unpack_pack_msg [of "(NetworkXioMsg_new op)\<lparr>nm_opaque := q, nm_size := n\<rparr>" "[]" m0]
  by (auto simp: msg_ok_def opcode_ok_def int_range_def NetworkXioMsg_new_def)

theorem process_request_reply_witness:
  "\<exists>req'. process_request True \<lparr>xm_pool = (0, 8), xm_mem = (0, 8)\<rparr> (\<lambda>_ _. ReadThrew) 16 demo_open = Inr (True, req', None) \<and>
     answers req' 42"
proof -
  have u: "unpack_msg (rq_header demo_open) (NetworkXioMsg_new Noop) = Inr ((NetworkXioMsg_new OpenReq)\<lparr>nm_opaque := 42\<rparr>)"
    using demo_msg_unpack [of OpenReq 0 42] by (simp add: demo_open_def NetworkXioRequest_new_def NetworkXioMsg_new_def)
  then obtain req' where p: "process_request True \<lparr>xm_pool = (0, 8), xm_mem = (0, 8)\<rparr> (\<lambda>_ _. ReadThrew) 16 demo_open = Inr (True, req', None)"
    by (simp add: process_request_def NetworkXioMsg_new_def)
  from process_request_reply [OF p] p u show ?thesis by simp
qed

section \<open>Requests that get no reply\<close>

text \<open>
  C39. A read is never answered when an exception leaves the file service, or when the size is zero and
  the file can be opened: in both cases \<open>process_request\<close> leaves the reply to the completion thread,
  but no batch (an exception), or no job (a size of zero), will ever produce a status record for it.
\<close>

theorem read_without_reply:
  assumes "unpack_msg (rq_header req) (NetworkXioMsg_new Noop) = Inr i_msg" "nm_opcode i_msg = ReadReq"
    and "fst (xm_pool xm) = 0"
  shows "(\<exists>req'. process_request True xm (\<lambda>_ _. ReadThrew) baddr req = Inr (False, req', None) \<and> rq_s_msg req' = rq_s_msg req) \<and>
    (nm_size i_msg = 0 \<and> ev_fd1 ev \<noteq> FD_INVALID \<and> length (sv_ioexecVec sv) \<le> 2 ^ 15 \<and>
     IOExecFileOpen E hasher open_file (nm_filename i_msg) (length (nm_filename i_msg)) 0x4000 svh = Inr (Some h, Some sv) \<longrightarrow>
      (let batch = read_batch baddr (req\<lparr>rq_reg_mem := snd (xm_pool xm)\<rparr>) 0 (sint (nm_offset i_msg)) in
       service_read E io addr hasher open_file (Some ev) svh (nm_filename i_msg) batch = Inr (0, Some sv) \<and>
       (\<exists>req'. process_request True xm (\<lambda>_ _. ReadReturned 0) baddr req = Inr (False, req', Some batch) \<and>
          rq_s_msg req' = rq_s_msg req)))"
proof (intro conjI impI)
  show "\<exists>req'. process_request True xm (\<lambda>_ _. ReadThrew) baddr req = Inr (False, req', None) \<and> rq_s_msg req' = rq_s_msg req"
    using assms by (simp add: process_request_def handle_read_def alloc_buffer_def Let_def)
next
  assume z: "nm_size i_msg = 0 \<and> ev_fd1 ev \<noteq> FD_INVALID \<and> length (sv_ioexecVec sv) \<le> 2 ^ 15 \<and>
     IOExecFileOpen E hasher open_file (nm_filename i_msg) (length (nm_filename i_msg)) 0x4000 svh = Inr (Some h, Some sv)"
  let ?b = "read_batch baddr (req\<lparr>rq_reg_mem := snd (xm_pool xm)\<rparr>) 0 (sint (nm_offset i_msg))"
  have w: "wanted ?b = []" by (simp add: wanted_def read_batch_def skipped_def)
  have "service_read E io addr hasher open_file (Some ev) svh (nm_filename i_msg) ?b = Inr (0, Some sv)"
    using z named_read_no_job [OF _ _ _ w] unfolding service_read_def by blast
  moreover have "\<exists>req'. process_request True xm (\<lambda>_ _. ReadReturned 0) baddr req = Inr (False, req', Some ?b) \<and> rq_s_msg req' = rq_s_msg req"
    using assms z by (simp add: process_request_def handle_read_def alloc_buffer_def Let_def read_batch_def)
  ultimately show "let batch = ?b in service_read E io addr hasher open_file (Some ev) svh (nm_filename i_msg) batch = Inr (0, Some sv) \<and>
       (\<exists>req'. process_request True xm (\<lambda>_ _. ReadReturned 0) baddr req = Inr (False, req', Some batch) \<and>
          rq_s_msg req' = rq_s_msg req)"
    by (simp add: Let_def)
qed

theorem read_without_reply_witness:
  "\<exists>req'. process_request True \<lparr>xm_pool = (0, 8), xm_mem = (0, 8)\<rparr> (\<lambda>_ _. ReadThrew) 16
     (NetworkXioRequest_new 1 (pack_msg ((NetworkXioMsg_new ReadReq)\<lparr>nm_opaque := 42, nm_size := 4096\<rparr>))) = Inr (False, req', None) \<and>
     rq_s_msg req' = []"
  using read_without_reply [of "NetworkXioRequest_new 1 (pack_msg ((NetworkXioMsg_new ReadReq)\<lparr>nm_opaque := 42, nm_size := 4096\<rparr>))"
      "(NetworkXioMsg_new ReadReq)\<lparr>nm_opaque := 42, nm_size := 4096\<rparr>" "\<lparr>xm_pool = (0, 8), xm_mem = (0, 8)\<rparr>" 16]
    demo_msg_unpack [of ReadReq 4096 42]
  by (auto simp: NetworkXioRequest_new_def NetworkXioMsg_new_def)



end
