(* ===== verification/Xio_Server.thy ===== *)
theory Xio_Server
  imports Xio_IOHandler
begin

text \<open>
  The server (\<open>src/networkxio/NetworkXioServer.cpp\<close>): connections with their reference counts, and
  the life of a request from its arrival to the confirmation that its reply was sent. Requests and the
  data of connections live in heaps; an access to a deleted one is a fault. The callbacks of libxio
  all run in the thread of the event loop.
\<close>

section \<open>State\<close>

record NetworkXioClientData =
  cd_disconnected :: bool
  cd_refcnt :: "64 word"
  cd_done_reqs :: "nat list"

text \<open>
  After the members come the effects on libxio: connections destroyed, registered buffers freed (and
  whether they came from the pool), messages cancelled, and the replies handed over, each with its
  connection, header and data.
\<close>

record xserver =
  sr_reqs :: "nat \<rightharpoonup> NetworkXioRequest"
  sr_clients :: "nat \<rightharpoonup> NetworkXioClientData"
  sr_wq :: workqueue
  sr_destroyed :: "nat list"
  sr_freed :: "(bool \<times> 64 word) list"
  sr_cancelled :: nat
  sr_sent :: "(nat \<times> bytes \<times> (64 word \<times> 32 word) option) list"

definition get_req :: "nat \<Rightarrow> xserver \<Rightarrow> NetworkXioRequest res" where
  "get_req p s = (case sr_reqs s p of None \<Rightarrow> Inl (UseAfterFree p) | Some r \<Rightarrow> Inr r)"

definition get_client :: "nat \<Rightarrow> xserver \<Rightarrow> NetworkXioClientData res" where
  "get_client c s = (case sr_clients s c of None \<Rightarrow> Inl (UseAfterFree c) | Some cd \<Rightarrow> Inr cd)"

section \<open>Connections\<close>

definition allocate_client_data :: "bool \<Rightarrow> NetworkXioClientData option" where
  "allocate_client_data alloc_ok =
     (if alloc_ok then Some \<lparr>cd_disconnected = False, cd_refcnt = 0, cd_done_reqs = []\<rparr> else None)"

definition create_session_connection :: "bool \<Rightarrow> bool \<Rightarrow> nat \<Rightarrow> xserver \<Rightarrow> int \<times> xserver" where
  "create_session_connection alloc_ok handler_ok c s =
     (case allocate_client_data alloc_ok of
        None \<Rightarrow> (-1, s)
      | Some cd \<Rightarrow> if handler_ok then (0, s\<lparr>sr_clients := (sr_clients s)(c \<mapsto> cd)\<rparr>) else (-1, s))"

text \<open>Destroying the connection, its handler and its data.\<close>

definition destroy_client :: "nat \<Rightarrow> xserver \<Rightarrow> xserver" where
  "destroy_client c s = s\<lparr>sr_clients := (sr_clients s)(c := None), sr_destroyed := sr_destroyed s @ [c]\<rparr>"

definition destroy_session_connection :: "nat \<Rightarrow> xserver \<Rightarrow> xserver res" where
  "destroy_session_connection c s =
     rbind (get_client c s) (\<lambda>cd.
     Inr (if cd_refcnt cd = 0 then destroy_client c s
          else s\<lparr>sr_clients := (sr_clients s)(c \<mapsto> cd\<lparr>cd_disconnected := True\<rparr>)\<rparr>))"

datatype session_event = NewConnection | ConnectionTeardown | SessionTeardown | OtherEvent

definition on_session_event :: "bool \<Rightarrow> bool \<Rightarrow> session_event \<Rightarrow> nat \<Rightarrow> xserver \<Rightarrow> xserver res" where
  "on_session_event alloc_ok handler_ok ev c s =
     (case ev of
        NewConnection \<Rightarrow> Inr (snd (create_session_connection alloc_ok handler_ok c s))
      | ConnectionTeardown \<Rightarrow> destroy_session_connection c s
      | SessionTeardown \<Rightarrow> Inr s
      | OtherEvent \<Rightarrow> Inr s)"

section \<open>Requests\<close>

text \<open>\<open>None\<close> when no memory could be allocated at \<open>p\<close>.\<close>

definition allocate_request :: "bool \<Rightarrow> nat \<Rightarrow> nat \<Rightarrow> bytes \<Rightarrow> xserver \<Rightarrow> (nat option \<times> xserver) res" where
  "allocate_request alloc_ok p c header s =
     (if \<not> alloc_ok then Inr (None, s)
      else rbind (get_client c s) (\<lambda>cd.
           Inr (Some p, s\<lparr>sr_reqs := (sr_reqs s)(p \<mapsto> (NetworkXioRequest_new c header)\<lparr>rq_from_pool := True\<rparr>),
                           sr_clients := (sr_clients s)(c \<mapsto> cd\<lparr>cd_refcnt := cd_refcnt cd + 1\<rparr>)\<rparr>)))"

definition free_request :: "nat \<Rightarrow> xserver \<Rightarrow> xserver res" where
  "free_request p s =
     rbind (get_req p s) (\<lambda>req.
     rbind (get_client (rq_client req) s) (\<lambda>cd.
     let cd' = cd\<lparr>cd_refcnt := cd_refcnt cd - 1\<rparr>;
         s1 = s\<lparr>sr_clients := (sr_clients s)(rq_client req \<mapsto> cd')\<rparr>;
         s2 = (if cd_disconnected cd' \<and> cd_refcnt cd' = 0 then destroy_client (rq_client req) s1 else s1)
     in Inr (s2\<lparr>sr_reqs := (sr_reqs s2)(p := None)\<rparr>)))"

definition deallocate_request :: "nat \<Rightarrow> xserver \<Rightarrow> xserver res" where
  "deallocate_request p s =
     rbind (get_req p s) (\<lambda>req.
     free_request p (if rq_op req = ReadRsp \<and> rq_data req \<noteq> 0
                     then s\<lparr>sr_freed := sr_freed s @ [(rq_from_pool req, rq_reg_mem req)]\<rparr> else s))"

definition on_request ::
  "bool \<Rightarrow> (nat \<Rightarrow> bool) \<Rightarrow> 64 word \<Rightarrow> int \<Rightarrow> nat \<Rightarrow> nat \<Rightarrow> bytes \<Rightarrow> xserver \<Rightarrow> xserver res" where
  "on_request alloc_ok spawn hw now p c header s =
     rbind (allocate_request alloc_ok p c header s) (\<lambda>(req, s1).
     case req of
       Some q \<Rightarrow> Inr (s1\<lparr>sr_wq := handle_request spawn hw now q (sr_wq s1)\<rparr>)
     | None \<Rightarrow> Inr (s1\<lparr>sr_cancelled := Suc (sr_cancelled s1)\<rparr>))"

section \<open>Replies\<close>

definition xio_send_reply :: "int \<Rightarrow> nat \<Rightarrow> xserver \<Rightarrow> xserver res" where
  "xio_send_reply send_ret p s =
     rbind (get_req p s) (\<lambda>req.
     if send_ret \<noteq> 0 then deallocate_request p s
     else rbind (get_client (rq_client req) s) (\<lambda>cd.
          Inr (s\<lparr>sr_sent := sr_sent s @ [(rq_client req, rq_s_msg req,
                   if rq_op req = ReadRsp \<and> rq_data req \<noteq> 0 then Some (rq_data req, rq_data_len req) else None)],
                 sr_clients := (sr_clients s)(rq_client req \<mapsto> cd\<lparr>cd_done_reqs := cd_done_reqs cd @ [p]\<rparr>)\<rparr>)))"

definition on_msg_send_complete :: "nat \<Rightarrow> xserver \<Rightarrow> xserver res" where
  "on_msg_send_complete c s =
     rbind (get_client c s) (\<lambda>cd.
     case cd_done_reqs cd of
       [] \<Rightarrow> Inl (UndefinedBehaviour ''front of an empty list'')
     | p # rest \<Rightarrow> deallocate_request p (s\<lparr>sr_clients := (sr_clients s)(c \<mapsto> cd\<lparr>cd_done_reqs := rest\<rparr>)\<rparr>))"

text \<open>One pass of the inner loop of \<open>run\<close>: the next finished request is answered.\<close>

definition send_finished :: "int \<Rightarrow> xserver \<Rightarrow> xserver res" where
  "send_finished send_ret s =
     rbind (get_finished (sr_wq s)) (\<lambda>(p, wq). xio_send_reply send_ret p (s\<lparr>sr_wq := wq\<rparr>))"

section \<open>Workers and completions on the server's heap\<close>

definition put_req :: "nat \<Rightarrow> NetworkXioRequest \<Rightarrow> xserver \<Rightarrow> xserver" where
  "put_req p r s = s\<lparr>sr_reqs := (sr_reqs s)(p \<mapsto> r)\<rparr>"

text \<open>A worker runs the work item of the request it took.\<close>

definition worker_run ::
  "bool \<Rightarrow> xio_mem \<Rightarrow> (string \<Rightarrow> gIOBatch \<Rightarrow> read_outcome) \<Rightarrow> 64 word \<Rightarrow> nat \<Rightarrow> xserver \<Rightarrow>
    (bool \<times> gIOBatch option \<times> xserver) res" where
  "worker_run has xm read baddr p s =
     rbind (get_req p s) (\<lambda>req.
     rbind (process_request has xm read baddr req) (\<lambda>(finishNow, req', b).
     let s1 = put_req p req' s in
     Inr (finishNow, b, s1\<lparr>sr_wq := worker_done finishNow p (sr_wq s1)\<rparr>)))"

text \<open>
  The completion thread handles the status record of a batch whose \<open>opaque\<close> is the request \<open>p\<close>.
\<close>

definition completion_run :: "gIOStatus \<Rightarrow> gIOBatch \<Rightarrow> nat \<Rightarrow> xserver \<Rightarrow> xserver res" where
  "completion_run iostatus batch p s =
     rbind (get_req p s) (\<lambda>req.
     rbind (completion_reply iostatus batch req) (\<lambda>reply.
     case reply of
       None \<Rightarrow> Inr s
     | Some req' \<Rightarrow> let s1 = put_req p req' s in Inr (s1\<lparr>sr_wq := worker_bottom_half p (sr_wq s1)\<rparr>)))"

end
