(* ===== verification/Xio_Client.thy ===== *)
theory Xio_Client
  imports Xio_Protocol Stats
begin

text \<open>
  The client side of the network (\<open>src/networkxio/NetworkXioClient.cpp\<close>, data in
  \<open>gobjfs_client_common.h\<close>): messages, requests, notifiers and completions live in heaps; an access
  to a deleted one is a fault. What libxio returns is an argument.
\<close>

section \<open>Data\<close>

datatype RequestOp = NoopOp | ReadOp | OpenOp | CloseOp

datatype TransportType = TransportError | SharedMemory | TCP | RDMA

record client_ctx_attr =
  ca_transport :: TransportType
  ca_host :: string
  ca_port :: int

record giocb =
  gb_buf :: "64 word"
  gb_offset :: int
  gb_nbytes :: "64 word"
  gb_request :: "nat option"

record completion =
  cm_on_wait :: bool
  cm_calling :: bool
  cm_signaled :: bool
  cm_failed :: bool
  cm_rv :: int

record notifier =
  nt_count :: int

record aio_request =
  ar_giocbp :: "nat option"
  ar_cptr :: "nat option"
  ar_op :: RequestOp
  ar_on_suspend :: bool
  ar_canceled :: bool
  ar_completed :: bool
  ar_signaled :: bool
  ar_failed :: bool
  ar_errno :: int
  ar_rv :: int
  ar_cvp :: nat
  ar_rtt_nanosec :: int
  ar_timer :: int

text \<open>
  A message with its address as the opaque value of its header; \<open>xq_in\<close> is the buffer for the data
  of the reply.
\<close>

record xio_msg_s =
  xq_opaque :: "nat option"
  xq_msg :: NetworkXioMsg
  xq_s_msg :: bytes
  xq_in :: "(64 word \<times> 64 word) option"

text \<open>
  The members of the client, with its statistics; the last two count calls of libxio: connections
  destroyed and event loops stopped.
\<close>

record NetworkXioClient =
  nc_inflight_reqs :: "nat list"
  nc_nr_req_queue :: int
  nc_stopping :: bool
  nc_stopped :: bool
  nc_disconnected :: bool
  nc_disconnecting :: bool
  nc_evfd :: "64 word"
  nc_num_queued :: "64 word"
  nc_num_completed :: "64 word"
  nc_num_failed :: "64 word"
  nc_rtt_hist :: Histogram
  nc_rtt_stats :: StatsCounter
  nc_conn_destroyed :: nat
  nc_loop_stops :: nat

text \<open>
  The heaps; the client; the number of the next reading of the clock; \<open>errno\<close>; the completions whose
  callback was called; the messages libxio has, and how many replies were given back to it.
\<close>

record cworld =
  cw_msgs :: "nat \<rightharpoonup> xio_msg_s"
  cw_reqs :: "nat \<rightharpoonup> aio_request"
  cw_notifs :: "nat \<rightharpoonup> notifier"
  cw_compls :: "nat \<rightharpoonup> completion"
  cw_giocbs :: "nat \<rightharpoonup> giocb"
  cw_nc :: NetworkXioClient
  cw_tick :: nat
  cw_errno :: int
  cw_calls :: "nat list"
  cw_sent :: "nat list"
  cw_released :: nat

definition at_addr :: "(nat \<rightharpoonup> 'a) \<Rightarrow> nat \<Rightarrow> 'a res" where
  "at_addr heap p = (case heap p of None \<Rightarrow> Inl (UseAfterFree p) | Some x \<Rightarrow> Inr x)"

definition upd_nc :: "(NetworkXioClient \<Rightarrow> NetworkXioClient) \<Rightarrow> cworld \<Rightarrow> cworld" where
  "upd_nc f w = w\<lparr>cw_nc := f (cw_nc w)\<rparr>"

section \<open>Notifiers and completions\<close>

definition notifier_new :: "int \<Rightarrow> notifier" where
  "notifier_new c = \<lparr>nt_count = c\<rparr>"

definition notifier_signal :: "nat \<Rightarrow> cworld \<Rightarrow> cworld res" where
  "notifier_signal n w =
     rbind (at_addr (cw_notifs w) n) (\<lambda>nt.
     rbind (rassert ''count'' (nt_count nt \<noteq> 0)) (\<lambda>_.
     Inr (w\<lparr>cw_notifs := (cw_notifs w)(n \<mapsto> nt\<lparr>nt_count := nt_count nt - 1\<rparr>)\<rparr>)))"

text \<open>\<open>wait\<close> returns when the count is zero.\<close>

definition notifier_wait :: "nat \<Rightarrow> cworld \<Rightarrow> unit res" where
  "notifier_wait n w =
     rbind (at_addr (cw_notifs w) n) (\<lambda>nt.
     if nt_count nt \<noteq> 0 then Inl (Blocked ''notifier'') else Inr ())"

definition aio_signal_completion :: "nat option \<Rightarrow> cworld \<Rightarrow> (int \<times> cworld) res" where
  "aio_signal_completion cptr w =
     (case cptr of
        None \<Rightarrow> Inr (-1, w\<lparr>cw_errno := EINVAL\<rparr>)
      | Some c \<Rightarrow> rbind (at_addr (cw_compls w) c) (\<lambda>cm.
          Inr (0, w\<lparr>cw_compls := (cw_compls w)(c \<mapsto>
            (if cm_on_wait cm then cm\<lparr>cm_signaled := True\<rparr> else cm\<lparr>cm_on_wait := True\<rparr>))\<rparr>)))"

definition wake_up_suspended_aiocb :: "nat \<Rightarrow> cworld \<Rightarrow> cworld res" where
  "wake_up_suspended_aiocb a w =
     rbind (at_addr (cw_reqs w) a) (\<lambda>r.
     notifier_signal (ar_cvp r) (w\<lparr>cw_reqs := (cw_reqs w)(a \<mapsto> r\<lparr>ar_signaled := True\<rparr>)\<rparr>))"

section \<open>Completing a request\<close>

definition ovs_xio_aio_complete_request :: "nat option \<Rightarrow> int \<Rightarrow> int \<Rightarrow> cworld \<Rightarrow> cworld res" where
  "ovs_xio_aio_complete_request opaque retval errval w =
     (case opaque of
        None \<Rightarrow> Inl (NullDeref ''request'')
      | Some a \<Rightarrow>
          rbind (at_addr (cw_reqs w) a) (\<lambda>r.
          rbind (wake_up_suspended_aiocb a (w\<lparr>cw_reqs := (cw_reqs w)(a \<mapsto>
            r\<lparr>ar_errno := errval, ar_rv := retval, ar_failed := (retval < 0), ar_completed := True\<rparr>)\<rparr>)) (\<lambda>w1.
          case ar_cptr r of
            None \<Rightarrow> Inr w1
          | Some c \<Rightarrow>
              rbind (at_addr (cw_compls w1) c) (\<lambda>cm.
              rbind (aio_signal_completion (Some c)
                (w1\<lparr>cw_compls := (cw_compls w1)(c \<mapsto> cm\<lparr>cm_rv := retval, cm_failed := (retval = -1)\<rparr>),
                    cw_calls := cw_calls w1 @ [c]\<rparr>)) (\<lambda>(_, w2). Inr w2)))))"

definition ovs_xio_complete_request_control :: "nat option \<Rightarrow> int \<Rightarrow> int \<Rightarrow> cworld \<Rightarrow> cworld res" where
  "ovs_xio_complete_request_control opaque retval errval w =
     (case opaque of
        None \<Rightarrow> Inr w
      | Some a \<Rightarrow> rbind (at_addr (cw_reqs w) a) (\<lambda>r.
          Inr (w\<lparr>cw_reqs := (cw_reqs w)(a \<mapsto> r\<lparr>ar_errno := errval, ar_rv := retval\<rparr>)\<rparr>)))"

text \<open>The timer of a request that was never reset stands at the epoch of the clock.\<close>

definition update_stats :: "sysenv \<Rightarrow> nat option \<Rightarrow> bool \<Rightarrow> cworld \<Rightarrow> cworld res" where
  "update_stats E void_req req_failed w =
     (case void_req of
        None \<Rightarrow> Inr (upd_nc (\<lambda>nc. nc\<lparr>nc_num_failed := nc_num_failed nc + 1\<rparr>) w)
      | Some a \<Rightarrow>
          rbind (at_addr (cw_reqs w) a) (\<lambda>r.
          let rtt = clock E (cw_tick w) - ar_timer r;
              w1 = w\<lparr>cw_tick := Suc (cw_tick w), cw_reqs := (cw_reqs w)(a \<mapsto> r\<lparr>ar_rtt_nanosec := rtt\<rparr>)\<rparr>
          in rbind (h_updateStats E rtt (nc_rtt_hist (cw_nc w))) (\<lambda>h.
             rbind (sc_updateStats E rtt (nc_rtt_stats (cw_nc w))) (\<lambda>st.
             Inr (upd_nc (\<lambda>nc. nc\<lparr>nc_num_failed := (if req_failed then nc_num_failed nc + 1 else nc_num_failed nc),
               nc_num_completed := nc_num_completed nc + 1, nc_rtt_hist := h, nc_rtt_stats := st\<rparr>) w1)))))"

section \<open>The queue of requests\<close>

definition is_queue_empty :: "cworld \<Rightarrow> bool" where
  "is_queue_empty w \<longleftrightarrow> nc_inflight_reqs (cw_nc w) = []"

definition pop_request :: "cworld \<Rightarrow> (nat \<times> cworld) res" where
  "pop_request w =
     (case list_pop (nc_inflight_reqs (cw_nc w)) of
        None \<Rightarrow> Inl (UndefinedBehaviour ''front of an empty queue'')
      | Some (p, rest) \<Rightarrow> Inr (p, upd_nc (\<lambda>nc. nc\<lparr>nc_inflight_reqs := rest\<rparr>) w))"

definition push_request :: "nat \<Rightarrow> cworld \<Rightarrow> cworld" where
  "push_request p w = upd_nc (\<lambda>nc. nc\<lparr>nc_inflight_reqs := list_push p (nc_inflight_reqs nc),
     nc_num_queued := nc_num_queued nc + 1\<rparr>) w"

definition client_xstop_loop :: "cworld \<Rightarrow> cworld" where
  "client_xstop_loop w = upd_nc (\<lambda>nc. nc\<lparr>nc_evfd := nc_evfd nc + 1\<rparr>) w"

definition client_evfd_stop_loop :: "cworld \<Rightarrow> cworld" where
  "client_evfd_stop_loop w = upd_nc (\<lambda>nc. nc\<lparr>nc_evfd := 0, nc_loop_stops := Suc (nc_loop_stops nc)\<rparr>) w"

definition delete_msg :: "nat \<Rightarrow> cworld \<Rightarrow> cworld" where
  "delete_msg p w = w\<lparr>cw_msgs := (cw_msgs w)(p := None)\<rparr>"

text \<open>
  A caller takes a slot and waits up to a minute when there was none left; \<open>others\<close> is what the other
  threads do meanwhile. The result is false when the wait timed out: then the message is deleted and
  an exception thrown.
\<close>

definition req_queue_enter :: "cworld \<Rightarrow> cworld" where
  "req_queue_enter w = upd_nc (\<lambda>nc. nc\<lparr>nc_nr_req_queue := nc_nr_req_queue nc - 1\<rparr>) w"

definition req_queue_ready :: "cworld \<Rightarrow> bool" where
  "req_queue_ready w \<longleftrightarrow> nc_nr_req_queue (cw_nc w) \<ge> 0"

definition req_queue_wait_until :: "(cworld \<Rightarrow> cworld) \<Rightarrow> nat \<Rightarrow> cworld \<Rightarrow> bool \<times> cworld" where
  "req_queue_wait_until others p w =
     (let w1 = req_queue_enter w in
      if nc_nr_req_queue (cw_nc w1) \<le> 0 then
        let w2 = (if req_queue_ready w1 then w1 else others w1) in
        if req_queue_ready w2 then (True, w2) else (False, delete_msg p w2)
      else (True, w1))"

definition req_queue_release :: "cworld \<Rightarrow> cworld" where
  "req_queue_release w = upd_nc (\<lambda>nc. nc\<lparr>nc_nr_req_queue := nc_nr_req_queue nc + 1\<rparr>) w"

section \<open>Sending\<close>

definition xio_msg_new :: "nat option \<Rightarrow> xio_msg_s" where
  "xio_msg_new opaque = \<lparr>xq_opaque = opaque, xq_msg = NetworkXioMsg_new Noop, xq_s_msg = [], xq_in = None\<rparr>"

definition xio_msg_prepare :: "xio_msg_s \<Rightarrow> xio_msg_s" where
  "xio_msg_prepare x = x\<lparr>xq_s_msg := pack_msg (xq_msg x), xq_in := None\<rparr>"

text \<open>How a call that sends a request ends: it returns, or one of two exceptions leaves it.\<close>

datatype send_outcome = SendQueued | SendBadAlloc | SendQueueBusy

definition queue_msg :: "(cworld \<Rightarrow> cworld) \<Rightarrow> nat \<Rightarrow> cworld \<Rightarrow> send_outcome \<times> cworld" where
  "queue_msg others p w =
     (let (ok, w1) = req_queue_wait_until others p w in
      if ok then (SendQueued, client_xstop_loop (push_request p w1)) else (SendQueueBusy, w1))"

definition open_msg :: "nat \<Rightarrow> nat option \<Rightarrow> xio_msg_s" where
  "open_msg p opaque = (let x = xio_msg_new opaque in
     xio_msg_prepare (x\<lparr>xq_msg := (xq_msg x)\<lparr>nm_opcode := OpenReq, nm_opaque := of_nat p\<rparr>\<rparr>))"

definition close_msg :: "nat \<Rightarrow> nat option \<Rightarrow> xio_msg_s" where
  "close_msg p opaque = (let x = xio_msg_new opaque in
     xio_msg_prepare (x\<lparr>xq_msg := (xq_msg x)\<lparr>nm_opcode := CloseReq, nm_opaque := of_nat p\<rparr>\<rparr>))"

definition read_msg :: "nat \<Rightarrow> string \<Rightarrow> 64 word \<Rightarrow> 64 word \<Rightarrow> 64 word \<Rightarrow> nat option \<Rightarrow> xio_msg_s" where
  "read_msg p filename buf size_in_bytes offset_in_bytes opaque = (let x = xio_msg_new opaque in
     (xio_msg_prepare (x\<lparr>xq_msg := (xq_msg x)\<lparr>nm_opcode := ReadReq, nm_opaque := of_nat p, nm_size := size_in_bytes,
        nm_offset := offset_in_bytes, nm_filename := filename\<rparr>\<rparr>))\<lparr>xq_in := Some (buf, size_in_bytes)\<rparr>)"

definition new_msg :: "nat \<Rightarrow> xio_msg_s \<Rightarrow> cworld \<Rightarrow> cworld" where
  "new_msg p x w = w\<lparr>cw_msgs := (cw_msgs w)(p \<mapsto> x)\<rparr>"

text \<open>\<open>p\<close> is the address of the new message, unless memory is exhausted.\<close>

definition xio_send_open_request :: "bool \<Rightarrow> (cworld \<Rightarrow> cworld) \<Rightarrow> nat \<Rightarrow> nat option \<Rightarrow> cworld \<Rightarrow> send_outcome \<times> cworld" where
  "xio_send_open_request alloc_ok others p opaque w =
     (if \<not> alloc_ok then (SendBadAlloc, w) else queue_msg others p (new_msg p (open_msg p opaque) w))"

definition xio_send_close_request :: "bool \<Rightarrow> (cworld \<Rightarrow> cworld) \<Rightarrow> nat \<Rightarrow> nat option \<Rightarrow> cworld \<Rightarrow> send_outcome \<times> cworld" where
  "xio_send_close_request alloc_ok others p opaque w =
     (if \<not> alloc_ok then (SendBadAlloc, w) else queue_msg others p (new_msg p (close_msg p opaque) w))"

definition xio_send_read_request ::
  "bool \<Rightarrow> (cworld \<Rightarrow> cworld) \<Rightarrow> nat \<Rightarrow> string \<Rightarrow> 64 word \<Rightarrow> 64 word \<Rightarrow> 64 word \<Rightarrow> nat option \<Rightarrow> cworld \<Rightarrow> send_outcome \<times> cworld" where
  "xio_send_read_request alloc_ok others p filename buf size_in_bytes offset_in_bytes opaque w =
     (if \<not> alloc_ok then (SendBadAlloc, w)
      else queue_msg others p (new_msg p (read_msg p filename buf size_in_bytes offset_in_bytes opaque) w))"

section \<open>The event loop\<close>

text \<open>One pass of the inner loop of \<open>xio_run_loop_worker\<close>; \<open>r\<close> is the result of \<open>xio_send_request\<close>.\<close>

definition send_next :: "sysenv \<Rightarrow> int \<Rightarrow> cworld \<Rightarrow> cworld res" where
  "send_next E r w =
     rbind (pop_request w) (\<lambda>(p, w1).
     rbind (at_addr (cw_msgs w1) p) (\<lambda>x.
     if r < 0 then
       rbind (update_stats E (xq_opaque x) True (req_queue_release w1)) (\<lambda>w2.
       rbind (ovs_xio_aio_complete_request (xq_opaque x) (-1) EIO w2) (\<lambda>w3.
       Inr (delete_msg p w3)))
     else Inr (w1\<lparr>cw_sent := cw_sent w1 @ [p]\<rparr>)))"

text \<open>What follows the loop.\<close>

definition run_loop_exit :: "cworld \<Rightarrow> cworld" where
  "run_loop_exit w = upd_nc (\<lambda>nc. if \<not> nc_disconnected nc then nc\<lparr>nc_disconnecting := True\<rparr>
     else nc\<lparr>nc_conn_destroyed := Suc (nc_conn_destroyed nc)\<rparr>) w"

definition release_response :: "cworld \<Rightarrow> cworld" where
  "release_response w = w\<lparr>cw_released := Suc (cw_released w)\<rparr>"

text \<open>
  The opaque value of a header is the address of the message it answers. libxio no longer has a
  message that it reported.
\<close>

definition on_response :: "sysenv \<Rightarrow> bytes \<Rightarrow> cworld \<Rightarrow> cworld res" where
  "on_response E header w =
     (case unpack_msg header (NetworkXioMsg_new Noop) of
        Inl _ \<Rightarrow> Inr (release_response w)
      | Inr imsg \<Rightarrow>
          let p = unat (nm_opaque imsg) in
          rbind (at_addr (cw_msgs w) p) (\<lambda>x.
          rbind (update_stats E (xq_opaque x) (nm_retval imsg < 0) w) (\<lambda>w1.
          rbind (ovs_xio_aio_complete_request (xq_opaque x) (nm_retval imsg) (nm_errval imsg) w1) (\<lambda>w2.
          let w3 = delete_msg p (req_queue_release (release_response w2)) in
          Inr (w3\<lparr>cw_sent := remove1 p (cw_sent w3)\<rparr>)))))"

datatype xio_msg_direction = DirectionOut | DirectionIn

definition client_on_msg_error :: "sysenv \<Rightarrow> xio_msg_direction \<Rightarrow> bytes \<Rightarrow> cworld \<Rightarrow> cworld res" where
  "client_on_msg_error E direction header w =
     (let w0 = (if direction = DirectionIn then release_response w else w) in
      case unpack_msg header (NetworkXioMsg_new Noop) of
        Inl _ \<Rightarrow> Inr w0
      | Inr imsg \<Rightarrow>
          let p = unat (nm_opaque imsg) in
          rbind (at_addr (cw_msgs w0) p) (\<lambda>x.
          rbind (update_stats E (xq_opaque x) True w0) (\<lambda>w1.
          rbind (ovs_xio_aio_complete_request (xq_opaque x) (-1) EIO w1) (\<lambda>w2.
          let w3 = delete_msg p (req_queue_release w2) in
          Inr (w3\<lparr>cw_sent := remove1 p (cw_sent w3)\<rparr>)))))"

datatype client_event = ClientConnTeardown | ClientSessionTeardown | ClientOtherEvent

definition client_on_session_event :: "client_event \<Rightarrow> cworld \<Rightarrow> cworld" where
  "client_on_session_event ev w =
     (case ev of
        ClientConnTeardown \<Rightarrow> upd_nc (\<lambda>nc. nc\<lparr>nc_disconnected := True,
          nc_conn_destroyed := (if nc_disconnecting nc then Suc (nc_conn_destroyed nc) else nc_conn_destroyed nc)\<rparr>) w
      | ClientSessionTeardown \<Rightarrow> upd_nc (\<lambda>nc. nc\<lparr>nc_loop_stops := Suc (nc_loop_stops nc)\<rparr>) w
      | ClientOtherEvent \<Rightarrow> w)"

text \<open>
  The handlers for a control session; they are not registered anywhere. \<open>session_data\<close> carries the
  two flags and counts the effects on libxio.
\<close>

record session_data =
  sd_disconnected :: bool
  sd_disconnecting :: bool
  sd_conn_destroyed :: nat
  sd_session_destroyed :: nat
  sd_loop_stops :: nat

definition on_msg_error_control ::
  "xio_msg_direction \<Rightarrow> bytes \<Rightarrow> session_data \<Rightarrow> cworld \<Rightarrow> (session_data \<times> cworld) res" where
  "on_msg_error_control direction header sd w =
     (let w0 = (if direction = DirectionIn then release_response w else w) in
      case unpack_msg header (NetworkXioMsg_new Noop) of
        Inl _ \<Rightarrow> Inr (sd, w0)
      | Inr imsg \<Rightarrow>
          rbind (at_addr (cw_msgs w0) (unat (nm_opaque imsg))) (\<lambda>x.
          rbind (ovs_xio_complete_request_control (xq_opaque x) (-1) EIO w0) (\<lambda>w1.
          Inr (sd\<lparr>sd_loop_stops := Suc (sd_loop_stops sd)\<rparr>, w1))))"

definition on_session_event_control :: "client_event \<Rightarrow> session_data \<Rightarrow> session_data" where
  "on_session_event_control ev sd =
     (case ev of
        ClientConnTeardown \<Rightarrow> sd\<lparr>sd_disconnected := True, sd_loop_stops := Suc (sd_loop_stops sd),
          sd_conn_destroyed := (if sd_disconnecting sd then Suc (sd_conn_destroyed sd) else sd_conn_destroyed sd)\<rparr>
      | ClientSessionTeardown \<Rightarrow> sd\<lparr>sd_session_destroyed := Suc (sd_session_destroyed sd), sd_loop_stops := Suc (sd_loop_stops sd)\<rparr>
      | ClientOtherEvent \<Rightarrow> sd)"

section \<open>Life of the client\<close>

text \<open>
  The process counts its users of libxio: \<open>xio_init\<close> is called for the first, \<open>xio_shutdown\<close> after the
  last.
\<close>

record xio_refs =
  rf_count :: int
  rf_inits :: nat
  rf_shutdowns :: nat

definition xrefcnt_init :: "xio_refs \<Rightarrow> xio_refs" where
  "xrefcnt_init r = r\<lparr>rf_count := rf_count r + 1, rf_inits := (if rf_count r = 0 then Suc (rf_inits r) else rf_inits r)\<rparr>"

definition xrefcnt_shutdown :: "xio_refs \<Rightarrow> xio_refs" where
  "xrefcnt_shutdown r = r\<lparr>rf_count := rf_count r - 1,
     rf_shutdowns := (if rf_count r = 1 then Suc (rf_shutdowns r) else rf_shutdowns r)\<rparr>"

text \<open>
  How the steps of the set-up end: starting the thread; creating the context, where memory may be
  exhausted before the context exists or for the control block of its shared pointer (whose
  constructor then calls the deleter); adding the event handler, creating the session, connecting;
  and creating the memory pool.
\<close>

datatype ctx_result = CtxCreated | CtxNull | CtxBadAllocBefore | CtxBadAllocPtr

record xio_setup =
  xs_thread :: bool
  xs_ctx :: ctx_result
  xs_handler :: bool
  xs_session :: bool
  xs_connect :: bool
  xs_mpool :: bool

text \<open>\<open>run\<close> until its promise is set: whether it gets there.\<close>

definition client_run :: "xio_setup \<Rightarrow> xio_refs \<Rightarrow> bool \<times> xio_refs" where
  "client_run su r =
     (case xs_ctx su of
        CtxBadAllocBefore \<Rightarrow> (False, xrefcnt_shutdown r)
      | CtxBadAllocPtr \<Rightarrow> (False, xrefcnt_shutdown (xrefcnt_shutdown r))
      | CtxNull \<Rightarrow> (False, r)
      | CtxCreated \<Rightarrow> (xs_handler su \<and> xs_session su \<and> xs_connect su, r))"

definition client_blank :: "64 word \<Rightarrow> NetworkXioClient" where
  "client_blank qd = \<lparr>nc_inflight_reqs = [], nc_nr_req_queue = sint qd, nc_stopping = False, nc_stopped = False,
     nc_disconnected = False, nc_disconnecting = False, nc_evfd = 0, nc_num_queued = 0, nc_num_completed = 0, nc_num_failed = 0,
     nc_rtt_hist = Histogram_reset, nc_rtt_stats = StatsCounter_init, nc_conn_destroyed = 0, nc_loop_stops = 0\<rparr>"

text \<open>
  The constructor. When it throws, its members are destroyed: the shared pointer to the context, once
  assigned, calls its deleter even when the context is null.
\<close>

definition NetworkXioClient_new :: "xio_setup \<Rightarrow> 64 word \<Rightarrow> xio_refs \<Rightarrow> NetworkXioClient option \<times> xio_refs" where
  "NetworkXioClient_new su qd r0 =
     (let r = xrefcnt_init r0 in
      if \<not> xs_thread su then (None, r)
      else let (ok, r1) = client_run su r;
               unwind = (if xs_ctx su = CtxNull \<or> xs_ctx su = CtxCreated then xrefcnt_shutdown r1 else r1)
           in if \<not> ok \<or> \<not> xs_mpool su then (None, unwind) else (Some (client_blank qd), r1))"

text \<open>
  \<open>shutdown\<close>: \<open>finish\<close> is what the thread still does before it is joined; then the messages left in the
  queue are deleted.
\<close>

definition drop_queued :: "cworld \<Rightarrow> cworld" where
  "drop_queued w = upd_nc (\<lambda>nc. nc\<lparr>nc_inflight_reqs := []\<rparr>) (fold delete_msg (nc_inflight_reqs (cw_nc w)) w)"

definition client_shutdown :: "(cworld \<Rightarrow> cworld) \<Rightarrow> cworld \<Rightarrow> cworld" where
  "client_shutdown finish w =
     (if nc_stopped (cw_nc w) then w
      else let w1 = finish (upd_nc (\<lambda>nc. nc\<lparr>nc_stopping := True, nc_loop_stops := Suc (nc_loop_stops nc)\<rparr>) w)
           in upd_nc (\<lambda>nc. nc\<lparr>nc_stopped := True\<rparr>) (drop_queued w1))"

text \<open>
  The count of users is kept by every outcome of the constructor but two: a thread that cannot be
  started leaves it one too high, a control block that cannot be allocated leaves it one too low.
\<close>

lemma client_refs_balance:
  "rf_count (snd (NetworkXioClient_new su qd r)) = rf_count r +
     (if fst (NetworkXioClient_new su qd r) \<noteq> None then 1
      else if \<not> xs_thread su then 1 else if xs_ctx su = CtxBadAllocPtr then -1 else 0)"
  by (cases "xs_ctx su") (auto simp: NetworkXioClient_new_def client_run_def xrefcnt_init_def xrefcnt_shutdown_def Let_def)

end
