(* ===== verification/Gobjfs_Client.thy ===== *)
theory Gobjfs_Client
  imports Xio_Client
begin

text \<open>
  The client interface (\<open>src/networkxio/gobjfs_client.cpp\<close>, \<open>context.h\<close>): contexts, asynchronous
  reads, waiting, completions and the synchronous read. A pointer that may be null is an option.
  The macro \<open>XXDone\<close> is empty, as in every build without \<open>FUNC_TRACE\<close>.
\<close>

section \<open>Contexts\<close>

record client_ctx =
  cc_transport :: TransportType
  cc_host :: string
  cc_port :: int
  cc_uri :: string
  cc_net_client :: bool

text \<open>Functions without access to the client return the new \<open>errno\<close> last.\<close>

definition ctx_attr_new :: "bool \<Rightarrow> int \<Rightarrow> client_ctx_attr option \<times> int" where
  "ctx_attr_new alloc_ok err =
     (if alloc_ok then (Some \<lparr>ca_transport = TransportError, ca_host = [], ca_port = 0\<rparr>, err) else (None, ENOMEM))"

definition ctx_attr_set_transport ::
  "client_ctx_attr option \<Rightarrow> string \<Rightarrow> string \<Rightarrow> int \<Rightarrow> int \<Rightarrow> int \<times> client_ctx_attr option \<times> int" where
  "ctx_attr_set_transport attr transport host port err =
     (case attr of
        None \<Rightarrow> (-1, None, EINVAL)
      | Some a \<Rightarrow>
          if transport = ''tcp'' \<and> host \<noteq> [] then (0, Some (a\<lparr>ca_transport := TCP, ca_host := host, ca_port := port\<rparr>), err)
          else if transport = ''rdma'' \<and> host \<noteq> [] then (0, Some (a\<lparr>ca_transport := RDMA, ca_host := host, ca_port := port\<rparr>), err)
          else (-1, Some a, EINVAL))"

text \<open>\<open>std::to_string\<close> of an integer.\<close>

fun nat_to_string :: "nat \<Rightarrow> string" where
  "nat_to_string n = (if n < 10 then [char_of (48 + n)] else nat_to_string (n div 10) @ [char_of (48 + n mod 10)])"

definition int_to_string :: "int \<Rightarrow> string" where
  "int_to_string i = (if i < 0 then ''-'' @ nat_to_string (nat (- i)) else nat_to_string (nat i))"

definition ctx_new :: "bool \<Rightarrow> client_ctx_attr option \<Rightarrow> int \<Rightarrow> client_ctx option \<times> int" where
  "ctx_new alloc_ok attr err =
     (case attr of
        None \<Rightarrow> (None, EINVAL)
      | Some a \<Rightarrow>
          if ca_transport a \<noteq> TCP \<and> ca_transport a \<noteq> RDMA then (None, EINVAL)
          else if \<not> alloc_ok then (None, ENOMEM)
          else let scheme = (if ca_transport a = TCP then ''tcp://'' else ''rdma://'') in
            (Some \<lparr>cc_transport = ca_transport a, cc_host = ca_host a, cc_port = ca_port a,
               cc_uri = scheme @ ca_host a @ '':'' @ int_to_string (ca_port a), cc_net_client = False\<rparr>, err))"

section \<open>Waiting for a request\<close>

text \<open>The request of a control block, \<open>None\<close> when the pointer was never set.\<close>

definition request_of :: "giocb \<Rightarrow> cworld \<Rightarrow> (nat \<times> aio_request) res" where
  "request_of g w =
     (case gb_request g of
        None \<Rightarrow> Inl (NullDeref ''request_'')
      | Some a \<Rightarrow> rbind (at_addr (cw_reqs w) a) (\<lambda>r. Inr (a, r)))"

definition set_errno :: "int \<Rightarrow> cworld \<Rightarrow> cworld" where
  "set_errno e w = w\<lparr>cw_errno := e\<rparr>"

text \<open>
  \<open>aio_suspend\<close>: without a timeout it returns when the count of the notifier is zero. \<open>meanwhile\<close> is
  what the other threads do until the wait ends, and \<open>timed_out\<close> the result of a wait with a timeout
  (which does not look at the count).
\<close>

definition await :: "bool \<Rightarrow> bool \<Rightarrow> nat \<Rightarrow> cworld \<Rightarrow> bool res" where
  "await has_timeout timed_out n w =
     (if has_timeout then rbind (at_addr (cw_notifs w) n) (\<lambda>_. Inr timed_out)
      else rbind (notifier_wait n w) (\<lambda>_. Inr False))"

definition aio_suspend ::
  "bool \<Rightarrow> bool \<Rightarrow> (cworld \<Rightarrow> cworld) \<Rightarrow> client_ctx option \<Rightarrow> nat option \<Rightarrow> cworld \<Rightarrow> (int \<times> cworld) res" where
  "aio_suspend has_timeout timed_out meanwhile ctx giocbp w =
     (case (ctx, giocbp) of
        (Some _, Some gp) \<Rightarrow>
          rbind (at_addr (cw_giocbs w) gp) (\<lambda>g.
          rbind (request_of g w) (\<lambda>(_, r0).
          let w1 = meanwhile w in
          rbind (await has_timeout timed_out (ar_cvp r0) w1) (\<lambda>late.
          if late then Inr (-1, set_errno EAGAIN w1)
          else rbind (request_of g w1) (\<lambda>(_, r).
               if ar_failed r then Inr (-1, set_errno (ar_errno r) w1) else Inr (0, w1)))))
      | _ \<Rightarrow> Inr (-1, set_errno EINVAL w))"

text \<open>The loop of \<open>aio_suspendv\<close> over the control blocks: the error of the first request that failed.\<close>

fun first_failed :: "nat list \<Rightarrow> cworld \<Rightarrow> int option res" where
  "first_failed [] w = Inr None"
| "first_failed (gp # gps) w =
     rbind (at_addr (cw_giocbs w) gp) (\<lambda>g.
     rbind (request_of g w) (\<lambda>(_, r).
     if ar_failed r then Inr (Some (ar_errno r)) else first_failed gps w))"

definition aio_suspendv ::
  "bool \<Rightarrow> bool \<Rightarrow> (cworld \<Rightarrow> cworld) \<Rightarrow> client_ctx option \<Rightarrow> nat list \<Rightarrow> cworld \<Rightarrow> (int \<times> cworld) res" where
  "aio_suspendv has_timeout timed_out meanwhile ctx giocbp_vec w =
     (case (ctx, giocbp_vec) of
        (Some _, gp # _) \<Rightarrow>
          rbind (at_addr (cw_giocbs w) gp) (\<lambda>g.
          rbind (request_of g w) (\<lambda>(_, r0).
          let w1 = meanwhile w in
          rbind (await has_timeout timed_out (ar_cvp r0) w1) (\<lambda>late.
          let (r, w2) = (if late then (-1, set_errno EAGAIN w1) else (0, w1)) in
          rbind (first_failed giocbp_vec w2) (\<lambda>fe.
          case fe of Some e \<Rightarrow> Inr (-1, set_errno e w2) | None \<Rightarrow> Inr (r, w2)))))
      | _ \<Rightarrow> Inr (-1, set_errno EINVAL w))"

section \<open>Results of a request\<close>

definition aio_error :: "client_ctx option \<Rightarrow> nat option \<Rightarrow> cworld \<Rightarrow> (int \<times> cworld) res" where
  "aio_error ctx giocbp w =
     (case (ctx, giocbp) of
        (Some _, Some gp) \<Rightarrow>
          rbind (at_addr (cw_giocbs w) gp) (\<lambda>g.
          rbind (request_of g w) (\<lambda>(_, r).
          Inr (if ar_canceled r then ECANCELED else if \<not> ar_completed r then EINPROGRESS
               else if ar_failed r then ar_errno r else 0, w)))
      | _ \<Rightarrow> Inr (-1, set_errno EINVAL w))"

definition GetNegative :: "int \<Rightarrow> int" where
  "GetNegative err = (if err > 0 then - err else err)"

text \<open>The result is an \<open>int\<close>, although the number of bytes read is 64 bits wide.\<close>

definition to_int32 :: "int \<Rightarrow> int" where
  "to_int32 i = sint (word_of_int i :: 32 word)"

definition aio_return :: "client_ctx option \<Rightarrow> nat option \<Rightarrow> cworld \<Rightarrow> (int \<times> cworld) res" where
  "aio_return ctx giocbp w =
     (case (ctx, giocbp) of
        (Some _, Some gp) \<Rightarrow>
          rbind (at_addr (cw_giocbs w) gp) (\<lambda>g.
          rbind (request_of g w) (\<lambda>(_, r).
          Inr (if \<not> ar_failed r then to_int32 (ar_rv r) else GetNegative (ar_errno r), set_errno (ar_errno r) w)))
      | _ \<Rightarrow> Inr (- EINVAL, w))"

definition aio_finish :: "client_ctx option \<Rightarrow> nat option \<Rightarrow> cworld \<Rightarrow> (int \<times> cworld) res" where
  "aio_finish ctx giocbp w =
     (case (ctx, giocbp) of
        (Some _, Some gp) \<Rightarrow>
          rbind (at_addr (cw_giocbs w) gp) (\<lambda>g.
          rbind (request_of g w) (\<lambda>(a, _).
          Inr (0, w\<lparr>cw_reqs := (cw_reqs w)(a := None)\<rparr>)))
      | _ \<Rightarrow> Inr (-1, set_errno EINVAL w))"

definition aio_cancel :: "cworld \<Rightarrow> int \<times> cworld" where
  "aio_cancel w = (-1, set_errno ENOSYS w)"

section \<open>Buffers\<close>

text \<open>A buffer is the memory \<open>malloc\<close> returned: \<open>None\<close> is an indeterminate member.\<close>

record gbuffer =
  gf_buf :: "64 word option"
  gf_size :: "64 word option"

definition gbuffer_allocate :: "bool \<Rightarrow> 64 word \<Rightarrow> int \<Rightarrow> gbuffer option \<times> int" where
  "gbuffer_allocate malloc_ok sz err =
     (if malloc_ok then (Some \<lparr>gf_buf = None, gf_size = None\<rparr>, err) else (None, ENOMEM))"

definition read_member :: "'a option \<Rightarrow> 'a res" where
  "read_member x = (case x of None \<Rightarrow> Inl (UndefinedBehaviour ''indeterminate value'') | Some v \<Rightarrow> Inr v)"

definition gbuffer_data :: "gbuffer option \<Rightarrow> int \<Rightarrow> (64 word \<times> int) res" where
  "gbuffer_data ptr err =
     (case ptr of None \<Rightarrow> Inr (0, EINVAL) | Some b \<Rightarrow> rbind (read_member (gf_buf b)) (\<lambda>v. Inr (v, err)))"

definition gbuffer_size :: "gbuffer option \<Rightarrow> int \<Rightarrow> (64 word \<times> int) res" where
  "gbuffer_size ptr err =
     (case ptr of None \<Rightarrow> Inr (-1, EINVAL) | Some b \<Rightarrow> rbind (read_member (gf_size b)) (\<lambda>v. Inr (v, err)))"

definition gbuffer_deallocate :: "gbuffer option \<Rightarrow> int" where
  "gbuffer_deallocate ptr = 0"

section \<open>Completions\<close>

definition completion_blank :: completion where
  "completion_blank = \<lparr>cm_on_wait = False, cm_calling = False, cm_signaled = False, cm_failed = False, cm_rv = 0\<rparr>"

definition aio_create_completion :: "bool \<Rightarrow> bool \<Rightarrow> nat \<Rightarrow> cworld \<Rightarrow> nat option \<times> cworld" where
  "aio_create_completion has_cb alloc_ok c w =
     (if \<not> has_cb then (None, set_errno EINVAL w)
      else if \<not> alloc_ok then (None, set_errno ENOMEM w)
      else (Some c, w\<lparr>cw_compls := (cw_compls w)(c \<mapsto> completion_blank)\<rparr>))"

definition aio_return_completion :: "nat option \<Rightarrow> cworld \<Rightarrow> (int \<times> cworld) res" where
  "aio_return_completion cptr w =
     (case cptr of
        None \<Rightarrow> Inr (-1, set_errno EINVAL w)
      | Some c \<Rightarrow> rbind (at_addr (cw_compls w) c) (\<lambda>cm.
          Inr (if \<not> cm_calling cm then (-1, w) else if \<not> cm_failed cm then (cm_rv cm, w) else (-1, set_errno EIO w))))"

text \<open>
  The first caller waits until the completion is signalled; without a timeout a wait that ends is not
  repeated. A later caller, or one that comes after the signal, does not wait.
\<close>

definition aio_wait_completion ::
  "bool \<Rightarrow> (cworld \<Rightarrow> cworld) \<Rightarrow> nat option \<Rightarrow> cworld \<Rightarrow> (int \<times> cworld) res" where
  "aio_wait_completion has_timeout meanwhile cptr w =
     (case cptr of
        None \<Rightarrow> Inr (-1, set_errno EINVAL w)
      | Some c \<Rightarrow> rbind (at_addr (cw_compls w) c) (\<lambda>cm.
          if cm_on_wait cm then Inr (0, w)
          else let w1 = meanwhile (w\<lparr>cw_compls := (cw_compls w)(c \<mapsto> cm\<lparr>cm_on_wait := True\<rparr>)\<rparr>) in
               rbind (at_addr (cw_compls w1) c) (\<lambda>cm1.
               if cm_signaled cm1 then Inr (0, w1)
               else if has_timeout then Inr (-1, set_errno EAGAIN w1) else Inl (Blocked ''completion''))))"

definition aio_release_completion :: "nat option \<Rightarrow> cworld \<Rightarrow> (int \<times> cworld) res" where
  "aio_release_completion cptr w =
     (case cptr of
        None \<Rightarrow> Inr (-1, set_errno EINVAL w)
      | Some c \<Rightarrow> rbind (at_addr (cw_compls w) c) (\<lambda>_. Inr (0, w\<lparr>cw_compls := (cw_compls w)(c := None)\<rparr>)))"

section \<open>Submission\<close>

text \<open>
  What the environment does during one submission: the addresses of the new request and message and
  whether memory could be allocated, what other threads do while the caller waits for a slot, and
  what they do between the sending and the start of the timer.
\<close>

record submit_env =
  se_req_ok :: bool
  se_req :: nat
  se_msg_ok :: bool
  se_msg :: nat
  se_others :: "cworld \<Rightarrow> cworld"
  se_after :: "cworld \<Rightarrow> cworld"

definition aio_request_new :: "RequestOp \<Rightarrow> nat option \<Rightarrow> nat \<Rightarrow> nat option \<Rightarrow> aio_request" where
  "aio_request_new op aio cvp cptr = \<lparr>ar_giocbp = aio, ar_cptr = cptr, ar_op = op, ar_on_suspend = False, ar_canceled = False,
     ar_completed = False, ar_signaled = False, ar_failed = False, ar_errno = 0, ar_rv = 0, ar_cvp = cvp,
     ar_rtt_nanosec = 0, ar_timer = 0\<rparr>"

definition create_new_request ::
  "submit_env \<Rightarrow> RequestOp \<Rightarrow> nat option \<Rightarrow> nat \<Rightarrow> nat option \<Rightarrow> cworld \<Rightarrow> (nat option \<times> cworld) res" where
  "create_new_request se op aio cvp cptr w =
     (if \<not> se_req_ok se then Inr (None, w)
      else let w1 = w\<lparr>cw_reqs := (cw_reqs w)(se_req se \<mapsto> aio_request_new op aio cvp cptr)\<rparr> in
        case aio of
          None \<Rightarrow> Inr (Some (se_req se), w1)
        | Some gp \<Rightarrow>
            if op = NoopOp then Inr (Some (se_req se), w1)
            else rbind (at_addr (cw_giocbs w1) gp) (\<lambda>g.
                 Inr (Some (se_req se), w1\<lparr>cw_giocbs := (cw_giocbs w1)(gp \<mapsto> g\<lparr>gb_request := Some (se_req se)\<rparr>)\<rparr>)))"

definition timer_reset :: "sysenv \<Rightarrow> nat \<Rightarrow> cworld \<Rightarrow> cworld res" where
  "timer_reset E a w =
     rbind (at_addr (cw_reqs w) a) (\<lambda>r.
     Inr (w\<lparr>cw_tick := Suc (cw_tick w), cw_reqs := (cw_reqs w)(a \<mapsto> r\<lparr>ar_timer := clock E (cw_tick w)\<rparr>)\<rparr>))"

definition delete_request :: "nat \<Rightarrow> cworld \<Rightarrow> cworld" where
  "delete_request a w = w\<lparr>cw_reqs := (cw_reqs w)(a := None)\<rparr>"

text \<open>The context is dereferenced before it is compared with null.\<close>

definition submit_aio_request ::
  "sysenv \<Rightarrow> submit_env \<Rightarrow> client_ctx option \<Rightarrow> string \<Rightarrow> nat option \<Rightarrow> nat \<Rightarrow> nat option \<Rightarrow> RequestOp \<Rightarrow> cworld \<Rightarrow>
    (int \<times> cworld) res" where
  "submit_aio_request E se ctx filename giocbp cvp cptr op w =
     (case ctx of
        None \<Rightarrow> Inl (NullDeref ''ctx'')
      | Some c \<Rightarrow> (case giocbp of
          None \<Rightarrow> Inr (-1, set_errno EINVAL w)
        | Some gp \<Rightarrow>
            rbind (at_addr (cw_giocbs w) gp) (\<lambda>g.
            if gb_nbytes g = 0 \<or> gb_offset g < 0 then Inr (-1, set_errno EINVAL w)
            else if op \<noteq> ReadOp then Inr (-1, set_errno EBADF w)
            else rbind (create_new_request se op giocbp cvp cptr w) (\<lambda>(request, w1).
              case request of
                None \<Rightarrow> Inr (-1, set_errno ENOMEM w1)
              | Some a \<Rightarrow>
                  if \<not> cc_net_client c then Inl (NullDeref ''net_client'')
                  else let (out, w2) = xio_send_read_request (se_msg_ok se) (se_others se) (se_msg se) filename (gb_buf g)
                             (gb_nbytes g) (word_of_int (gb_offset g)) (Some a) w1
                       in (case out of
                             SendQueued \<Rightarrow> rbind (timer_reset E a (se_after se w2)) (\<lambda>w3. Inr (0, w3))
                           | SendBadAlloc \<Rightarrow> Inr (-1, delete_request a (set_errno ENOMEM w2))
                           | SendQueueBusy \<Rightarrow> Inr (-1, delete_request a (set_errno EIO w2)))))))"

definition new_notifier :: "nat \<Rightarrow> int \<Rightarrow> cworld \<Rightarrow> cworld" where
  "new_notifier n c w = w\<lparr>cw_notifs := (cw_notifs w)(n \<mapsto> notifier_new c)\<rparr>"

text \<open>\<open>n\<close> is the address of the notifier.\<close>

definition aio_read ::
  "sysenv \<Rightarrow> submit_env \<Rightarrow> nat \<Rightarrow> client_ctx option \<Rightarrow> string \<Rightarrow> nat option \<Rightarrow> cworld \<Rightarrow> (int \<times> cworld) res" where
  "aio_read E se n ctx filename giocbp w = submit_aio_request E se ctx filename giocbp n None ReadOp (new_notifier n 1 w)"

definition aio_readcb ::
  "sysenv \<Rightarrow> submit_env \<Rightarrow> nat \<Rightarrow> client_ctx option \<Rightarrow> string \<Rightarrow> nat option \<Rightarrow> nat option \<Rightarrow> cworld \<Rightarrow> (int \<times> cworld) res" where
  "aio_readcb E se n ctx filename giocbp cptr w =
     submit_aio_request E se ctx filename giocbp n cptr ReadOp (new_notifier n 1 w)"

fun readv_loop ::
  "sysenv \<Rightarrow> client_ctx option \<Rightarrow> nat \<Rightarrow> (submit_env \<times> string \<times> nat option) list \<Rightarrow> int \<Rightarrow> cworld \<Rightarrow> (int \<times> cworld) res" where
  "readv_loop E ctx n [] err w = Inr (err, w)"
| "readv_loop E ctx n ((se, filename, elem) # rest) err w =
     rbind (submit_aio_request E se ctx filename elem n None ReadOp w) (\<lambda>(r, w1). readv_loop E ctx n rest (err OR r) w1)"

definition aio_readv ::
  "sysenv \<Rightarrow> submit_env list \<Rightarrow> nat \<Rightarrow> client_ctx option \<Rightarrow> string list \<Rightarrow> nat option list \<Rightarrow> cworld \<Rightarrow> (int \<times> cworld) res" where
  "aio_readv E ses n ctx filename_vec giocbp_vec w =
     (if length filename_vec \<noteq> length giocbp_vec then Inr (-1, set_errno EINVAL w)
      else readv_loop E ctx n (zip ses (zip filename_vec giocbp_vec)) 0 (new_notifier n (int (length giocbp_vec)) w))"

text \<open>The control block of the synchronous read is a local variable at \<open>gp\<close>.\<close>

definition leave_scope :: "nat \<Rightarrow> int \<times> cworld \<Rightarrow> int \<times> cworld" where
  "leave_scope gp = (\<lambda>(r, w). (r, w\<lparr>cw_giocbs := (cw_giocbs w)(gp := None)\<rparr>))"

definition read_sync ::
  "sysenv \<Rightarrow> submit_env \<Rightarrow> nat \<Rightarrow> (cworld \<Rightarrow> cworld) \<Rightarrow> nat \<Rightarrow> client_ctx option \<Rightarrow> string \<Rightarrow> 64 word \<Rightarrow> 64 word \<Rightarrow> int \<Rightarrow>
    cworld \<Rightarrow> (int \<times> cworld) res" where
  "read_sync E se n meanwhile gp ctx filename buf nbytes offset w =
     (if ctx = None then Inr (-1, set_errno EINVAL w)
      else let w0 = w\<lparr>cw_giocbs := (cw_giocbs w)(gp \<mapsto> \<lparr>gb_buf = buf, gb_offset = offset, gb_nbytes = nbytes, gb_request = None\<rparr>)\<rparr> in
        rbind (aio_read E se n ctx filename (Some gp) w0) (\<lambda>(r, w1).
        if r < 0 then Inr (leave_scope gp (r, w1))
        else rbind (aio_suspend False False meanwhile ctx (Some gp) w1) (\<lambda>(r1, w2).
             rbind (if r1 = 0 then aio_return ctx (Some gp) w2 else Inr (r1, w2)) (\<lambda>(r2, w3).
             rbind (aio_finish ctx (Some gp) w3) (\<lambda>(_, w4). Inr (leave_scope gp (r2, w4)))))))"

section \<open>Opening\<close>

definition ovs_xio_open_device ::
  "submit_env \<Rightarrow> nat \<Rightarrow> (cworld \<Rightarrow> cworld) \<Rightarrow> nat \<Rightarrow> client_ctx \<Rightarrow> cworld \<Rightarrow> (int \<times> cworld) res" where
  "ovs_xio_open_device se n meanwhile gp ctx w =
     (let w0 = new_notifier n 1 (w\<lparr>cw_giocbs := (cw_giocbs w)(gp \<mapsto> \<lparr>gb_buf = 0, gb_offset = 0, gb_nbytes = 0, gb_request = None\<rparr>)\<rparr>) in
      rbind (create_new_request se OpenOp (Some gp) n None w0) (\<lambda>(request, w1).
      case request of
        None \<Rightarrow> Inr (leave_scope gp (-1, set_errno ENOMEM w1))
      | Some a \<Rightarrow>
          if \<not> cc_net_client ctx then Inl (NullDeref ''net_client'')
          else let (out, w2) = xio_send_open_request (se_msg_ok se) (se_others se) (se_msg se) (Some a) w1 in
            (case out of
               SendBadAlloc \<Rightarrow> Inr (leave_scope gp (-1, set_errno ENOMEM w2))
             | SendQueueBusy \<Rightarrow> Inr (leave_scope gp (-1, set_errno EIO w2))
             | SendQueued \<Rightarrow>
                 rbind (aio_suspend False False meanwhile (Some ctx) (Some gp) w2) (\<lambda>(r, w3).
                 if r < 0 then Inr (leave_scope gp (r, w3))
                 else rbind (aio_return (Some ctx) (Some gp) w3) (\<lambda>(r1, w4).
                      rbind (aio_finish (Some ctx) (Some gp) w4) (\<lambda>(fr, w5).
                      Inr (leave_scope gp (if fr < 0 then -1 else r1, w5))))))))"

text \<open>
  \<open>ctx_init\<close>: when the client cannot be created the function goes on, because \<open>XXDone\<close> is empty.
\<close>

definition ctx_init ::
  "xio_setup \<Rightarrow> submit_env \<Rightarrow> nat \<Rightarrow> (cworld \<Rightarrow> cworld) \<Rightarrow> nat \<Rightarrow> client_ctx option \<Rightarrow> xio_refs \<Rightarrow> cworld \<Rightarrow>
    (int \<times> client_ctx option \<times> xio_refs \<times> cworld) res" where
  "ctx_init su se n meanwhile gp ctx refs w =
     (case ctx of
        None \<Rightarrow> Inr (-1, None, refs, set_errno EINVAL w)
      | Some c \<Rightarrow>
          if cc_transport c = RDMA \<or> cc_transport c = TCP then
            let (made, refs1) = NetworkXioClient_new su 256 refs;
                (c1, w1) = (case made of Some nc \<Rightarrow> (c\<lparr>cc_net_client := True\<rparr>, w\<lparr>cw_nc := nc\<rparr>) | None \<Rightarrow> (c, w))
            in rbind (ovs_xio_open_device se n meanwhile gp c1 w1) (\<lambda>(err, w2). Inr (err, Some c1, refs1, w2))
          else Inr (0, Some c, refs, w))"

definition ctx_is_disconnected :: "client_ctx option \<Rightarrow> cworld \<Rightarrow> bool" where
  "ctx_is_disconnected ctx w =
     (case ctx of None \<Rightarrow> True | Some c \<Rightarrow> if cc_net_client c then nc_disconnected (cw_nc w) else True)"

end
