(* ===== verification/Xio_Server_Life.thy ===== *)
theory Xio_Server_Life
  imports Xio_Server Gobjfs_Client
begin

text \<open>
  Start and stop of the server (\<open>NetworkXioServer::run\<close> and \<open>shutdown\<close>, \<open>src/networkxio/gobjfs_server.cpp\<close>),
  the settings read from the environment, and the loop of the completion thread. The results of the
  calls into libxio and of thread creation are arguments.
\<close>

section \<open>Settings and logging\<close>

text \<open>\<open>lexical_cast\<close> is boost's conversion, \<open>None\<close> when it throws; \<open>val\<close> the value of the variable.\<close>

definition getenv_with_default :: "(string \<Rightarrow> 'a option) \<Rightarrow> string option \<Rightarrow> 'a \<Rightarrow> 'a" where
  "getenv_with_default lexical_cast val default_value =
     (case val of
        None \<Rightarrow> default_value
      | Some v \<Rightarrow> (case lexical_cast v of Some x \<Rightarrow> x | None \<Rightarrow> default_value))"

datatype gobjfs_log_level = TRACE | DEBUG | INFO | WARNING | ERROR | FATAL

datatype severity_level = sev_trace | sev_debug | sev_info | sev_warning | sev_error | sev_fatal

fun log_level_number :: "gobjfs_log_level \<Rightarrow> nat" where
  "log_level_number TRACE = 0"
| "log_level_number DEBUG = 1"
| "log_level_number INFO = 2"
| "log_level_number WARNING = 3"
| "log_level_number ERROR = 4"
| "log_level_number FATAL = 5"

text \<open>The severity from which messages pass the filter.\<close>

definition gobjfs_init_logging :: "gobjfs_log_level \<Rightarrow> severity_level" where
  "gobjfs_init_logging level = [sev_trace, sev_debug, sev_info, sev_warning, sev_error, sev_fatal] ! log_level_number level"

section \<open>The life of a server\<close>

record server_life =
  sv_uri :: string
  sv_numCores :: int
  sv_serviceHandle :: bool
  sv_ctx :: bool
  sv_server :: bool
  sv_ev_handler :: bool
  sv_wq :: "workqueue option"
  sv_xio_mpool :: bool
  sv_stopping :: bool
  sv_stopped :: bool
  sv_promise :: bool

definition NetworkXioServer_new :: "string \<Rightarrow> int \<Rightarrow> server_life" where
  "NetworkXioServer_new uri numCoresForIO =
     \<lparr>sv_uri = uri, sv_numCores = numCoresForIO, sv_serviceHandle = False, sv_ctx = False, sv_server = False,
      sv_ev_handler = False, sv_wq = None, sv_xio_mpool = False, sv_stopping = False, sv_stopped = False, sv_promise = False\<rparr>"

text \<open>Which of the steps of \<open>run\<close> succeed.\<close>

record run_env =
  re_service :: bool
  re_ctx :: bool
  re_bind :: bool
  re_ev_handler :: bool
  re_spawn :: "nat \<Rightarrow> bool"
  re_mempool :: bool

text \<open>\<open>run\<close> up to the promise: the exception that leaves it, if any, and the members.\<close>

definition run_setup :: "run_env \<Rightarrow> server_life \<Rightarrow> string option \<times> server_life" where
  "run_setup R s0 =
     (let s1 = s0\<lparr>sv_serviceHandle := re_service R\<rparr> in
      if \<not> re_service R then (Some ''bad_alloc'', s1)
      else let s2 = s1\<lparr>sv_ctx := re_ctx R\<rparr> in
      if \<not> re_ctx R then (Some ''failed to create XIO context'', s2)
      else let s3 = s2\<lparr>sv_server := re_bind R\<rparr> in
      if \<not> re_bind R then (Some ''failed to bind XIO server'', s3)
      else let s4 = s3\<lparr>sv_ev_handler := re_ev_handler R\<rparr> in
      if \<not> re_ev_handler R then (Some ''failed to register event handler'', s4)
      else case NetworkXioWorkQueue_new (re_spawn R) (sv_numCores s4) of
        None \<Rightarrow> (Some ''WorkQueueThreadsException'', s4\<lparr>sv_ev_handler := False\<rparr>)
      | Some wq \<Rightarrow>
          let s5 = s4\<lparr>sv_wq := Some wq, sv_xio_mpool := re_mempool R\<rparr> in
          if \<not> re_mempool R then (Some ''failed to create XIO memory pool'', s5\<lparr>sv_ev_handler := False\<rparr>)
          else (None, s5\<lparr>sv_promise := True\<rparr>))"

text \<open>The end of \<open>run\<close>, once its loop has seen \<open>stopping\<close>.\<close>

definition run_end :: "server_life \<Rightarrow> server_life" where
  "run_end s = s\<lparr>sv_server := False, sv_ctx := False, sv_xio_mpool := False, sv_stopped := True, sv_serviceHandle := False\<rparr>"

text \<open>\<open>xio_accept\<close> failing is logged only.\<close>

definition on_new_session :: "int \<Rightarrow> int" where
  "on_new_session accept_ret = 0"

text \<open>
  \<open>shutdown\<close>: \<open>quiesce\<close> is what the workers do while it waits for them, \<open>between\<close> what the thread of
  \<open>run\<close> does after \<open>stopping\<close> is set and before the context is used, \<open>finish\<close> what it does afterwards.
\<close>

definition server_shutdown ::
  "(workqueue \<Rightarrow> workqueue) \<Rightarrow> (server_life \<Rightarrow> server_life) \<Rightarrow> (server_life \<Rightarrow> server_life) \<Rightarrow> server_life \<Rightarrow> server_life res" where
  "server_shutdown quiesce between finish s =
     (if sv_stopped s then Inr s
      else case sv_wq s of
        None \<Rightarrow> Inl (NullDeref ''wq_'')
      | Some wq \<Rightarrow>
          rbind (workqueue_shutdown quiesce wq) (\<lambda>wq'.
          let s1 = between (s\<lparr>sv_wq := Some wq', sv_stopping := True\<rparr>) in
          if \<not> sv_ctx s1 then Inl (NullDeref ''ctx'')
          else let s2 = finish (s1\<lparr>sv_ev_handler := False\<rparr>) in
               if sv_stopped s2 then Inr s2 else Inl (Blocked ''shutdown of the server'')))"

text \<open>
  The C interface. \<open>run\<close> executes in a thread of its own, an exception of it is kept in the future of
  that thread, and \<open>start\<close> waits for the promise alone.
\<close>

definition gobjfs_xio_server_start :: "run_env \<Rightarrow> string \<Rightarrow> string \<Rightarrow> int \<Rightarrow> int \<Rightarrow> server_life res" where
  "gobjfs_xio_server_start R transport host port number_cores =
     (let uri = transport @ ''://'' @ host @ '':'' @ int_to_string port;
          s = snd (run_setup R (NetworkXioServer_new uri number_cores))
      in if sv_promise s then Inr s else Inl (Blocked ''init_future''))"

text \<open>The destructor of the server calls \<open>shutdown\<close> again.\<close>

definition gobjfs_xio_server_stop ::
  "(workqueue \<Rightarrow> workqueue) \<Rightarrow> (server_life \<Rightarrow> server_life) \<Rightarrow> (server_life \<Rightarrow> server_life) \<Rightarrow> server_life \<Rightarrow> (int \<times> server_life) res" where
  "gobjfs_xio_server_stop quiesce between finish s =
     rbind (server_shutdown quiesce between finish s) (\<lambda>s1.
     rbind (server_shutdown quiesce between finish s1) (\<lambda>s2. Inr (0, s2)))"

section \<open>The completion thread\<close>

text \<open>
  The events of \<open>gxio_completion_handler\<close>: the shutdown notifier, a descriptor that is not the pipe, a
  short read of the pipe, and a whole status record with the batch and the request it stands for.
\<close>

datatype completion_item = ShutdownEvent | UnknownFd | PartialRead | StatusRecord gIOStatus gIOBatch nat

fun completion_events :: "completion_item list \<Rightarrow> bool \<Rightarrow> xserver \<Rightarrow> (bool \<times> xserver) res" where
  "completion_events [] mustExit s = Inr (mustExit, s)"
| "completion_events (ShutdownEvent # evs) mustExit s = completion_events evs True s"
| "completion_events (UnknownFd # evs) mustExit s = completion_events evs mustExit s"
| "completion_events (PartialRead # evs) mustExit s = completion_events evs mustExit s"
| "completion_events (StatusRecord st b p # evs) mustExit s = rbind (completion_run st b p s) (completion_events evs mustExit)"

text \<open>The loop on the successive results of \<open>epoll_wait\<close>; after the last of them the thread waits.\<close>

fun completion_loop :: "completion_item list list \<Rightarrow> bool \<Rightarrow> xserver \<Rightarrow> (int \<times> xserver) res" where
  "completion_loop rounds True s = Inr (0, s)"
| "completion_loop [] False s = Inl (Blocked ''epoll_wait'')"
| "completion_loop (evs # rounds) False s = rbind (completion_events evs False s) (\<lambda>(ex, s1). completion_loop rounds ex s1)"

definition gxio_completion_handler :: "completion_item list list \<Rightarrow> xserver \<Rightarrow> (int \<times> xserver) res" where
  "gxio_completion_handler rounds s = completion_loop rounds False s"

section \<open>Answering the finished requests\<close>

text \<open>
  The callback on the eventfd empties it and stops the loop of libxio; \<open>run\<close> then answers the finished
  requests until none is left. \<open>ret\<close> is the result of sending the reply of a request.
\<close>

definition server_evfd_stop_loop :: "xserver \<Rightarrow> xserver" where
  "server_evfd_stop_loop s = s\<lparr>sr_wq := (sr_wq s)\<lparr>wq_evfd := 0\<rparr>\<rparr>"

lemma free_request_wq: "free_request p s = Inr s' \<Longrightarrow> sr_wq s' = sr_wq s"
  by (auto simp: free_request_def rbind_def destroy_client_def Let_def split: sum.splits if_splits)

lemma deallocate_request_wq: "deallocate_request p s = Inr s' \<Longrightarrow> sr_wq s' = sr_wq s"
  by (auto simp: deallocate_request_def rbind_def dest!: free_request_wq split: sum.splits if_splits)

lemma xio_send_reply_wq: "xio_send_reply r p s = Inr s' \<Longrightarrow> sr_wq s' = sr_wq s"
  by (auto simp: xio_send_reply_def rbind_def dest: deallocate_request_wq split: sum.splits if_splits)

lemma send_finished_shrinks:
  assumes "send_finished r s = Inr s'"
  shows "length (wq_finished (sr_wq s')) < length (wq_finished (sr_wq s))"
proof -
  obtain p wq where g: "get_finished (sr_wq s) = Inr (p, wq)" "xio_send_reply r p (s\<lparr>sr_wq := wq\<rparr>) = Inr s'"
    using assms by (auto simp: send_finished_def rbind_def split: sum.splits)
  have "wq_finished wq = tl (wq_finished (sr_wq s)) \<and> wq_finished (sr_wq s) \<noteq> []"
    using g(1) by (cases "wq_finished (sr_wq s)") (auto simp: get_finished_def)
  then show ?thesis using xio_send_reply_wq [OF g(2)] by simp
qed

function send_all :: "(nat \<Rightarrow> int) \<Rightarrow> xserver \<Rightarrow> xserver res" where
  "send_all ret s =
     (if is_finished_empty (sr_wq s) then Inr s
      else case send_finished (ret (hd (wq_finished (sr_wq s)))) s of
             Inl e \<Rightarrow> Inl e
           | Inr s1 \<Rightarrow> send_all ret s1)"
  by pat_completeness auto
termination
  by (relation "measure (\<lambda>(_, s). length (wq_finished (sr_wq s)))") (auto simp: send_finished_shrinks)

declare send_all.simps [simp del]

lemma send_all_empties: "send_all ret s = Inr s' \<Longrightarrow> is_finished_empty (sr_wq s')"
proof (induction ret s rule: send_all.induct)
  case (1 ret s)
  show ?case
  proof (cases "is_finished_empty (sr_wq s)")
    case True
    then show ?thesis using 1(2) by (simp add: send_all.simps [of ret s])
  next
    case False
    then obtain s1 where "send_finished (ret (hd (wq_finished (sr_wq s)))) s = Inr s1" "send_all ret s1 = Inr s'"
      using 1(2) by (auto simp: send_all.simps [of ret s] split: sum.splits)
    then show ?thesis using 1(1) False by blast
  qed
qed

section \<open>Start and stop\<close>

lemma run_setup_promise:
  "sv_promise (snd (run_setup R (NetworkXioServer_new uri n))) \<longleftrightarrow> fst (run_setup R (NetworkXioServer_new uri n)) = None"
  by (simp add: run_setup_def NetworkXioServer_new_def Let_def split: option.split)

text \<open>When any step of the start fails, \<open>start\<close> waits for ever.\<close>

lemma server_start_blocks:
  assumes "\<not> (re_service R \<and> re_ctx R \<and> re_bind R \<and> re_ev_handler R \<and> re_mempool R) \<or> NetworkXioWorkQueue_new (re_spawn R) n = None"
  shows "gobjfs_xio_server_start R transport host port n = Inl (Blocked ''init_future'')"
  using assms by (auto simp: gobjfs_xio_server_start_def run_setup_def NetworkXioServer_new_def Let_def split: option.split)

text \<open>
  A started server stops and gives everything back, provided that the workers leave and the thread of
  \<open>run\<close> goes on to its end only after \<open>shutdown\<close> has used the context.
\<close>

lemma server_stop_releases:
  assumes "gobjfs_xio_server_start R transport host port n = Inr s" "\<And>wq. wq_nr_threads (quiesce wq) = 0"
  shows "\<exists>s'. gobjfs_xio_server_stop quiesce (\<lambda>s. s) run_end s = Inr (0, s') \<and> sv_stopped s' \<and> \<not> sv_serviceHandle s' \<and>
    \<not> sv_ctx s' \<and> \<not> sv_server s' \<and> \<not> sv_ev_handler s' \<and> \<not> sv_xio_mpool s'"
  using assms(1)
  by (auto simp: gobjfs_xio_server_start_def gobjfs_xio_server_stop_def server_shutdown_def run_setup_def NetworkXioServer_new_def
      run_end_def workqueue_shutdown_def assms(2) Let_def split: if_splits option.splits)

text \<open>If \<open>run\<close> ends as soon as \<open>stopping\<close> is set, \<open>shutdown\<close> uses a context that is gone.\<close>

lemma server_stop_race:
  assumes "gobjfs_xio_server_start R transport host port n = Inr s" "\<And>wq. wq_nr_threads (quiesce wq) = 0"
  shows "gobjfs_xio_server_stop quiesce run_end finish s = Inl (NullDeref ''ctx'')"
  using assms(1)
  by (auto simp: gobjfs_xio_server_start_def gobjfs_xio_server_stop_def server_shutdown_def run_setup_def NetworkXioServer_new_def
      run_end_def workqueue_shutdown_def assms(2) Let_def split: if_splits option.splits)

section \<open>What the completion thread does\<close>

definition status_run :: "gIOStatus \<times> gIOBatch \<times> nat \<Rightarrow> xserver \<Rightarrow> xserver res" where
  "status_run x s = completion_run (fst x) (fst (snd x)) (snd (snd x)) s"

fun statuses :: "completion_item list \<Rightarrow> (gIOStatus \<times> gIOBatch \<times> nat) list" where
  "statuses [] = []"
| "statuses (StatusRecord st b p # evs) = (st, b, p) # statuses evs"
| "statuses (_ # evs) = statuses evs"

text \<open>One result of \<open>epoll_wait\<close>: every status record in order, also those after the shutdown event.\<close>

lemma completion_events_statuses:
  "completion_events evs ex s =
     rbind (rfold status_run (statuses evs) s) (\<lambda>s'. Inr (ex \<or> ShutdownEvent \<in> set evs, s'))"
proof (induction evs ex s rule: completion_events.induct)
  case (5 st b p evs ex s)
  then show ?case by (cases "completion_run st b p s") (auto simp: status_run_def rbind_def)
qed (auto simp: rbind_def split: sum.splits)

text \<open>
  The thread returns at the first result with the shutdown event, having handled all status records up
  to the end of that result and none of the later ones; without the event it does not return.
\<close>

lemma completion_loop_returns:
  assumes "\<forall>evs \<in> set rs. ShutdownEvent \<notin> set evs" "ShutdownEvent \<in> set ev"
  shows "gxio_completion_handler (rs @ ev # rest) s =
    rbind (rfold status_run (concat (map statuses rs) @ statuses ev) s) (\<lambda>s'. Inr (0, s'))"
  using assms(1) unfolding gxio_completion_handler_def
proof (induction rs arbitrary: s)
  case Nil
  then show ?case using assms(2) by (cases "rfold status_run (statuses ev) s") (simp_all add: completion_events_statuses rbind_def)
next
  case (Cons evs rs)
  then show ?case
    by (cases "rfold status_run (statuses evs) s") (simp_all add: completion_events_statuses rfold_append rbind_def)
qed

lemma completion_loop_waits:
  assumes "\<forall>evs \<in> set rs. ShutdownEvent \<notin> set evs"
  shows "\<exists>e. gxio_completion_handler rs s = Inl e"
  using assms unfolding gxio_completion_handler_def
proof (induction rs arbitrary: s)
  case (Cons evs rs)
  then show ?case
    by (cases "rfold status_run (statuses evs) s") (simp_all add: completion_events_statuses rbind_def)
qed simp

end
