(* ===== verification/Xio_Client_System.thy ===== *)
theory Xio_Client_System
  imports Gobjfs_Client
begin

text \<open>
  The client with its callers and its event loop as a transition system, and its invariant: every
  outstanding message has a request that is not yet completed, the notifier of the request still
  counts it, and the slots of the queue are accounted for.
\<close>

section \<open>Outstanding messages\<close>

text \<open>An entry \<open>(p, a, n)\<close> stands for a message at \<open>p\<close> of the request at \<open>a\<close> with the notifier \<open>n\<close>.\<close>

type_synonym entry = "nat \<times> nat \<times> nat"

definition entry_ok :: "sysenv \<Rightarrow> cworld \<Rightarrow> entry \<Rightarrow> bool" where
  "entry_ok E w = (\<lambda>(p, a, n). p < 2 ^ 64 \<and> (\<exists>x. cw_msgs w p = Some x \<and> xq_opaque x = Some a) \<and>
     (\<exists>r. cw_reqs w a = Some r \<and> \<not> ar_completed r \<and> ar_cvp r = n \<and> ar_timer r < clock E (cw_tick w) \<and>
       (\<forall>c. ar_cptr r = Some c \<longrightarrow> cw_compls w c \<noteq> None)) \<and> cw_notifs w n \<noteq> None)"

definition users :: "nat \<Rightarrow> entry list \<Rightarrow> nat" where
  "users n es = length (filter (\<lambda>(p, a, m). m = n) es)"

text \<open>A notifier counts the pending requests that use it, and \<open>K n\<close> more.\<close>

definition out_ok :: "sysenv \<Rightarrow> (nat \<Rightarrow> nat) \<Rightarrow> entry list \<Rightarrow> cworld \<Rightarrow> bool" where
  "out_ok E K es w \<longleftrightarrow> distinct (map fst es) \<and> distinct (map (fst \<circ> snd) es) \<and> (\<forall>e \<in> set es. entry_ok E w e) \<and>
     (\<forall>n nt. cw_notifs w n = Some nt \<longrightarrow> nt_count nt = int (users n es) + int (K n)) \<and> hist_ok (nc_rtt_hist (cw_nc w))"

lemma users_Cons [simp]: "users n ((p, a, m) # es) = (if m = n then Suc (users n es) else users n es)"
  by (simp add: users_def)

lemma users_mset: "mset es = mset es' \<Longrightarrow> users n es = users n es'"
  unfolding users_def by (metis mset_filter size_mset)

lemma out_ok_perm:
  assumes "mset es = mset es'" "out_ok E K es w"
  shows "out_ok E K es' w"
proof -
  have "mset (map f es) = mset (map f es')" for f :: "entry \<Rightarrow> nat" using assms(1) by (simp add: mset_map)
  then have "distinct (map f es) = distinct (map f es')" for f :: "entry \<Rightarrow> nat" using mset_eq_imp_distinct_iff by blast
  with assms mset_eq_setD [OF assms(1)] users_mset [OF assms(1)] show ?thesis by (simp add: out_ok_def)
qed

lemma out_ok_tail:
  assumes ok: "out_ok E K ((p, a, n) # es) w"
  shows "out_ok E (K(n := Suc (K n))) es w"
proof -
  have "nt_count nt = int (users m es) + int ((K(n := Suc (K n))) m)" if "cw_notifs w m = Some nt" for m nt
  proof -
    have "nt_count nt = int (users m ((p, a, n) # es)) + int (K m)" using ok that unfolding out_ok_def by blast
    then show ?thesis by (cases "m = n") simp_all
  qed
  with ok show ?thesis by (simp add: out_ok_def)
qed

text \<open>What must be kept for the entries to stay in order.\<close>

definition same_for :: "sysenv \<Rightarrow> entry list \<Rightarrow> cworld \<Rightarrow> cworld \<Rightarrow> bool" where
  "same_for E es w w' \<longleftrightarrow> clock E (cw_tick w) \<le> clock E (cw_tick w') \<and>
     (\<forall>(p, a, n) \<in> set es. cw_msgs w' p = cw_msgs w p \<and> cw_reqs w' a = cw_reqs w a) \<and>
     (\<forall>n. cw_notifs w n \<noteq> None \<longrightarrow> cw_notifs w' n \<noteq> None) \<and> (\<forall>c. cw_compls w c \<noteq> None \<longrightarrow> cw_compls w' c \<noteq> None)"

lemma entry_ok_same:
  assumes "entry_ok E w e" "same_for E es w w'" "e \<in> set es"
  shows "entry_ok E w' e"
proof -
  obtain p a n where e: "e = (p, a, n)" by (cases e)
  with assms(2,3) have "cw_msgs w' p = cw_msgs w p" "cw_reqs w' a = cw_reqs w a" "clock E (cw_tick w) \<le> clock E (cw_tick w')"
    "cw_notifs w n \<noteq> None \<longrightarrow> cw_notifs w' n \<noteq> None" "\<And>c. cw_compls w c \<noteq> None \<Longrightarrow> cw_compls w' c \<noteq> None"
    unfolding same_for_def by auto
  with assms(1) show ?thesis unfolding e entry_ok_def by fastforce
qed

lemma out_ok_same:
  assumes ok: "out_ok E K0 es w" and same: "same_for E es w w'"
    and nt: "\<And>n nt. cw_notifs w' n = Some nt \<Longrightarrow> nt_count nt = int (users n es) + int (K n)"
    and h: "hist_ok (nc_rtt_hist (cw_nc w'))"
  shows "out_ok E K es w'"
  using ok entry_ok_same [OF _ same] nt h unfolding out_ok_def by blast

section \<open>Completing an outstanding message\<close>

lemma sc_updateStats_returns: "sc_numSamples c + 1 \<noteq> 0 \<Longrightarrow> \<exists>c'. sc_updateStats E x c = Inr c'"
  by (simp add: sc_updateStats_def Let_def word_gt_0)

definition stats_room :: "cworld \<Rightarrow> bool" where
  "stats_room w \<longleftrightarrow> sc_numSamples (nc_rtt_stats (cw_nc w)) + 1 \<noteq> 0"

text \<open>What completing a request leaves alone.\<close>

definition queue_same :: "cworld \<Rightarrow> cworld \<Rightarrow> bool" where
  "queue_same w w' \<longleftrightarrow> cw_msgs w' = cw_msgs w \<and> nc_inflight_reqs (cw_nc w') = nc_inflight_reqs (cw_nc w) \<and>
     nc_nr_req_queue (cw_nc w') = nc_nr_req_queue (cw_nc w) \<and> cw_sent w' = cw_sent w \<and> cw_giocbs w' = cw_giocbs w"

lemma update_stats_out:
  assumes E: "env_ok E" and ok: "out_ok E K ((p, a, n) # es) w" and room: "stats_room w"
  shows "\<exists>w'. update_stats E (Some a) b w = Inr w' \<and> out_ok E K ((p, a, n) # es) w' \<and> queue_same w w' \<and>
    cw_tick w' = Suc (cw_tick w) \<and> (\<forall>q. q \<noteq> a \<longrightarrow> cw_reqs w' q = cw_reqs w q) \<and> dom (cw_compls w') = dom (cw_compls w)"
proof -
  obtain r where r: "cw_reqs w a = Some r" "ar_timer r < clock E (cw_tick w)"
    using ok by (auto simp: out_ok_def entry_ok_def)
  let ?rtt = "clock E (cw_tick w) - ar_timer r"
  obtain h where h: "h_updateStats E ?rtt (nc_rtt_hist (cw_nc w)) = Inr h" "hist_ok h"
    using h_updateStats_ok [OF E, of "nc_rtt_hist (cw_nc w)" ?rtt] ok r(2) by (auto simp: out_ok_def)
  obtain st where st: "sc_updateStats E ?rtt (nc_rtt_stats (cw_nc w)) = Inr st"
    using sc_updateStats_returns [OF room [unfolded stats_room_def]] by blast
  let ?w1 = "w\<lparr>cw_tick := Suc (cw_tick w), cw_reqs := (cw_reqs w)(a \<mapsto> r\<lparr>ar_rtt_nanosec := ?rtt\<rparr>)\<rparr>"
  let ?f = "\<lambda>nc. nc\<lparr>nc_num_failed := (if b then nc_num_failed nc + 1 else nc_num_failed nc),
               nc_num_completed := nc_num_completed nc + 1, nc_rtt_hist := h, nc_rtt_stats := st\<rparr>"
  have u: "update_stats E (Some a) b w = Inr (upd_nc ?f ?w1)"
    by (simp add: update_stats_def at_addr_def r(1) h(1) st Let_def)
  have lt: "clock E (cw_tick w) < clock E (Suc (cw_tick w))" using env_ok_clock [OF E] by simp
  have "entry_ok E (upd_nc ?f ?w1) e" if "e \<in> set ((p, a, n) # es)" for e
    using ok that r lt unfolding out_ok_def entry_ok_def upd_nc_def by (fastforce split: if_splits)
  then have "out_ok E K ((p, a, n) # es) (upd_nc ?f ?w1)"
    using ok h(2) unfolding out_ok_def by (simp add: upd_nc_def)
  with u show ?thesis by (auto simp: queue_same_def upd_nc_def)
qed

text \<open>The world after the request at \<open>a\<close> has been marked and its notifier signalled.\<close>

lemma wake_up_out:
  assumes ok: "out_ok E K ((p, a, n) # es) w" and r: "cw_reqs w a = Some r" and r': "ar_cvp r' = ar_cvp r"
  shows "\<exists>w'. wake_up_suspended_aiocb a (w\<lparr>cw_reqs := (cw_reqs w)(a \<mapsto> r')\<rparr>) = Inr w' \<and> out_ok E K es w' \<and> queue_same w w' \<and>
    cw_reqs w' = (cw_reqs w)(a \<mapsto> r'\<lparr>ar_signaled := True\<rparr>) \<and> cw_compls w' = cw_compls w \<and> cw_tick w' = cw_tick w"
proof -
  have n: "ar_cvp r = n" using ok r by (auto simp: out_ok_def entry_ok_def)
  obtain nt where nt: "cw_notifs w n = Some nt" using ok by (auto simp: out_ok_def entry_ok_def)
  have le: "nt_count k = int (users m ((p, a, n) # es)) + int (K m)" if "cw_notifs w m = Some k" for m k
    using ok that unfolding out_ok_def by blast
  have "nt_count nt \<noteq> 0" using le [OF nt] by simp
  let ?w' = "w\<lparr>cw_reqs := (cw_reqs w)(a \<mapsto> r'\<lparr>ar_signaled := True\<rparr>), cw_notifs := (cw_notifs w)(n \<mapsto> nt\<lparr>nt_count := nt_count nt - 1\<rparr>)\<rparr>"
  have e: "wake_up_suspended_aiocb a (w\<lparr>cw_reqs := (cw_reqs w)(a \<mapsto> r')\<rparr>) = Inr ?w'"
    using \<open>nt_count nt \<noteq> 0\<close> by (simp add: wake_up_suspended_aiocb_def notifier_signal_def at_addr_def r' n nt)
  have es: "out_ok E (K(n := Suc (K n))) es w" by (rule out_ok_tail [OF ok])
  have sf: "same_for E es w ?w'" using ok unfolding same_for_def out_ok_def by force
  have cnt: "nt_count k = int (users m es) + int (K m)" if "cw_notifs ?w' m = Some k" for m k
  proof (cases "m = n")
    case True
    then have "nt_count k = nt_count nt - 1" using that by auto
    with le [OF nt] True show ?thesis by simp
  next
    case False
    with that le [of m k] show ?thesis by simp
  qed
  have "hist_ok (nc_rtt_hist (cw_nc ?w'))" using ok by (simp add: out_ok_def)
  with sf cnt have "out_ok E K es ?w'" by (rule out_ok_same [OF es])
  with e show ?thesis by (auto simp: queue_same_def)
qed

definition completed_with :: "int \<Rightarrow> int \<Rightarrow> aio_request \<Rightarrow> bool" where
  "completed_with rv err r \<longleftrightarrow> ar_completed r \<and> ar_rv r = rv \<and> ar_errno r = err \<and> ar_failed r = (rv < 0)"

lemma complete_out:
  assumes ok: "out_ok E K ((p, a, n) # es) w"
  shows "\<exists>w'. ovs_xio_aio_complete_request (Some a) rv err w = Inr w' \<and> out_ok E K es w' \<and> queue_same w w' \<and>
    cw_tick w' = cw_tick w \<and> (\<exists>r. cw_reqs w' a = Some r \<and> completed_with rv err r) \<and> (\<forall>q. q \<noteq> a \<longrightarrow> cw_reqs w' q = cw_reqs w q) \<and>
    dom (cw_compls w') = dom (cw_compls w)"
proof -
  obtain r where r: "cw_reqs w a = Some r" "\<And>c. ar_cptr r = Some c \<Longrightarrow> cw_compls w c \<noteq> None"
    using ok by (auto simp: out_ok_def entry_ok_def)
  let ?r = "r\<lparr>ar_errno := err, ar_rv := rv, ar_failed := (rv < 0), ar_completed := True\<rparr>"
  obtain w1 where w1: "wake_up_suspended_aiocb a (w\<lparr>cw_reqs := (cw_reqs w)(a \<mapsto> ?r)\<rparr>) = Inr w1" "out_ok E K es w1" "queue_same w w1"
      "cw_reqs w1 = (cw_reqs w)(a \<mapsto> ?r\<lparr>ar_signaled := True\<rparr>)" "cw_compls w1 = cw_compls w" "cw_tick w1 = cw_tick w"
    using wake_up_out [OF ok r(1), of ?r] by auto
  show ?thesis
  proof (cases "ar_cptr r")
    case None
    with w1 r(1) show ?thesis by (simp add: ovs_xio_aio_complete_request_def at_addr_def completed_with_def)
  next
    case (Some c)
    then obtain cm where cm: "cw_compls w1 c = Some cm" using r(2) w1(5) by auto
    let ?cm = "cm\<lparr>cm_rv := rv, cm_failed := (rv = -1)\<rparr>"
    let ?w2 = "w1\<lparr>cw_compls := (cw_compls w1)(c \<mapsto> (if cm_on_wait ?cm then ?cm\<lparr>cm_signaled := True\<rparr> else ?cm\<lparr>cm_on_wait := True\<rparr>)),
                  cw_calls := cw_calls w1 @ [c]\<rparr>"
    have "ovs_xio_aio_complete_request (Some a) rv err w = Inr ?w2"
      using w1(1) r(1) Some cm by (simp add: ovs_xio_aio_complete_request_def at_addr_def aio_signal_completion_def)
    moreover have "same_for E es w1 ?w2" by (simp add: same_for_def)
    then have "out_ok E K es ?w2" using w1(2) by (intro out_ok_same [OF w1(2)]) (auto simp: out_ok_def)
    ultimately show ?thesis using w1(3-6) cm by (auto simp: queue_same_def completed_with_def)
  qed
qed

lemma out_ok_delete:
  assumes ok: "out_ok E K es w" and p: "p \<notin> fst ` set es"
  shows "out_ok E K es (delete_msg p w)"
proof (rule out_ok_same [OF ok])
  show "same_for E es w (delete_msg p w)" using p unfolding same_for_def delete_msg_def by force
qed (use ok in \<open>auto simp: out_ok_def delete_msg_def\<close>)

lemma out_ok_delete_request:
  assumes ok: "out_ok E K es w" and a: "a \<notin> (fst \<circ> snd) ` set es"
  shows "out_ok E K es (delete_request a w)"
proof (rule out_ok_same [OF ok])
  show "same_for E es w (delete_request a w)" using a unfolding same_for_def delete_request_def by force
qed (use ok in \<open>auto simp: out_ok_def delete_request_def\<close>)

lemma answer_out:
  assumes E: "env_ok E" and ok: "out_ok E K ((p, a, n) # es) w" and room: "stats_room w"
  shows "\<exists>w1 w2. update_stats E (Some a) b w = Inr w1 \<and> ovs_xio_aio_complete_request (Some a) rv err w1 = Inr w2 \<and>
    out_ok E K es (delete_msg p w2) \<and> queue_same w w2 \<and> cw_tick w2 = Suc (cw_tick w) \<and>
    (\<exists>r. cw_reqs w2 a = Some r \<and> completed_with rv err r) \<and> (\<forall>q. q \<noteq> a \<longrightarrow> cw_reqs w2 q = cw_reqs w q) \<and>
    dom (cw_compls w2) = dom (cw_compls w)"
proof -
  obtain w1 where w1: "update_stats E (Some a) b w = Inr w1" "out_ok E K ((p, a, n) # es) w1" "queue_same w w1"
      "cw_tick w1 = Suc (cw_tick w)" "\<forall>q. q \<noteq> a \<longrightarrow> cw_reqs w1 q = cw_reqs w q" "dom (cw_compls w1) = dom (cw_compls w)"
    using update_stats_out [OF E ok room, of b] by blast
  obtain w2 where w2: "ovs_xio_aio_complete_request (Some a) rv err w1 = Inr w2" "out_ok E K es w2" "queue_same w1 w2"
      "cw_tick w2 = cw_tick w1" "\<exists>r. cw_reqs w2 a = Some r \<and> completed_with rv err r" "\<forall>q. q \<noteq> a \<longrightarrow> cw_reqs w2 q = cw_reqs w1 q"
      "dom (cw_compls w2) = dom (cw_compls w1)"
    using complete_out [OF w1(2), of rv err] by blast
  have "p \<notin> fst ` set es" using ok by (simp add: out_ok_def)
  from out_ok_delete [OF w2(2) this] w1 w2 show ?thesis by (simp add: queue_same_def)
qed

section \<open>The system\<close>

text \<open>
  Beside the world: the messages whose sender waits for a slot, the requests whose submission has not
  yet started the timer, the slots that callers took before they gave up, and for every notifier how
  many of the requests it counts have not been submitted or were given up.
\<close>

record cli_sys =
  cs_w :: cworld
  cs_waiting :: "nat list"
  cs_starting :: "nat list"
  cs_lost :: nat
  cs_spare :: "nat \<Rightarrow> nat"

datatype cli_action =
    CNotifier nat int
  | CCompletion bool nat
  | CRelease nat
  | CBegin submit_env RequestOp nat nat "nat option" xio_msg_s
  | CResume nat
  | CTimeout nat
  | CStart nat
  | CSend int
  | CReply bytes
  | CError xio_msg_direction bytes
  | CEvent client_event
  | CFinish nat

text \<open>A message enters the queue, or its sender waits for a slot.\<close>

definition queue_push :: "nat \<Rightarrow> cworld \<Rightarrow> cworld" where
  "queue_push p w = client_xstop_loop (push_request p w)"

lemma queue_msg_steps:
  "queue_msg others p w =
     (let w1 = req_queue_enter w; w2 = (if req_queue_ready w1 then w1 else others w1)
      in if req_queue_ready w2 then (SendQueued, queue_push p w2) else (SendQueueBusy, delete_msg p w2))"
  by (simp add: queue_msg_def req_queue_wait_until_def queue_push_def Let_def req_queue_ready_def)

definition begin_send :: "submit_env \<Rightarrow> RequestOp \<Rightarrow> nat \<Rightarrow> nat \<Rightarrow> nat option \<Rightarrow> xio_msg_s \<Rightarrow> cli_sys \<Rightarrow> cli_sys res" where
  "begin_send se op gp n cptr x st =
     rbind (create_new_request se op (Some gp) n cptr (cs_w st)) (\<lambda>(request, w1).
     let p = se_msg se; w2 = req_queue_enter (new_msg p x w1);
         st1 = st\<lparr>cs_starting := (if op = ReadOp then se_req se # cs_starting st else cs_starting st),
                  cs_spare := (cs_spare st)(n := cs_spare st n - 1)\<rparr>
     in Inr (if req_queue_ready w2 then st1\<lparr>cs_w := queue_push p w2\<rparr>
             else st1\<lparr>cs_w := w2, cs_waiting := p # cs_waiting st\<rparr>))"

text \<open>The wait for a slot timed out: a read deletes its request, an open does not.\<close>

definition give_up :: "nat \<Rightarrow> cli_sys \<Rightarrow> cli_sys" where
  "give_up p st =
     (let w = cs_w st;
          a = (case cw_msgs w p of Some x \<Rightarrow> xq_opaque x | None \<Rightarrow> None);
          r = Option.bind a (cw_reqs w);
          is_read = (case r of Some q \<Rightarrow> ar_op q = ReadOp | None \<Rightarrow> False);
          w1 = delete_msg p w
      in st\<lparr>cs_w := (case a of Some b \<Rightarrow> if is_read then delete_request b w1 else w1 | None \<Rightarrow> w1),
            cs_waiting := remove1 p (cs_waiting st),
            cs_starting := (case a of Some b \<Rightarrow> removeAll b (cs_starting st) | None \<Rightarrow> cs_starting st),
            cs_lost := Suc (cs_lost st),
            cs_spare := (case r of Some q \<Rightarrow> (cs_spare st)(ar_cvp q := Suc (cs_spare st (ar_cvp q))) | None \<Rightarrow> cs_spare st)\<rparr>)"

definition on_world :: "(cworld \<Rightarrow> cworld res) \<Rightarrow> cli_sys \<Rightarrow> cli_sys res" where
  "on_world f st = rbind (f (cs_w st)) (\<lambda>w. Inr (st\<lparr>cs_w := w\<rparr>))"

fun exec_cli :: "sysenv \<Rightarrow> cli_action \<Rightarrow> cli_sys \<Rightarrow> cli_sys res" where
  "exec_cli E (CNotifier n c) st = on_world (\<lambda>w. Inr (new_notifier n c w)) (st\<lparr>cs_spare := (cs_spare st)(n := nat c)\<rparr>)"
| "exec_cli E (CCompletion alloc_ok c) st = on_world (\<lambda>w. Inr (snd (aio_create_completion True alloc_ok c w))) st"
| "exec_cli E (CRelease c) st = on_world (\<lambda>w. rbind (aio_release_completion (Some c) w) (\<lambda>(_, w1). Inr w1)) st"
| "exec_cli E (CBegin se op gp n cptr x) st = begin_send se op gp n cptr x st"
| "exec_cli E (CResume p) st = Inr (st\<lparr>cs_w := queue_push p (cs_w st), cs_waiting := remove1 p (cs_waiting st)\<rparr>)"
| "exec_cli E (CTimeout p) st = Inr (give_up p st)"
| "exec_cli E (CStart a) st = on_world (timer_reset E a) (st\<lparr>cs_starting := removeAll a (cs_starting st)\<rparr>)"
| "exec_cli E (CSend r) st = on_world (send_next E r) st"
| "exec_cli E (CReply header) st = on_world (on_response E header) st"
| "exec_cli E (CError d header) st = on_world (client_on_msg_error E d header) st"
| "exec_cli E (CEvent ev) st = on_world (\<lambda>w. Inr (client_on_session_event ev w)) st"
| "exec_cli E (CFinish gp) st =
     on_world (\<lambda>w. rbind (aio_finish (Some \<lparr>cc_transport = TCP, cc_host = [], cc_port = 0, cc_uri = [], cc_net_client = True\<rparr>)
       (Some gp) w) (\<lambda>(_, w1). Inr w1)) st"

definition outstanding :: "cli_sys \<Rightarrow> nat list" where
  "outstanding st = cs_waiting st @ nc_inflight_reqs (cw_nc (cs_w st)) @ cw_sent (cs_w st)"

definition request_at :: "cworld \<Rightarrow> nat \<Rightarrow> aio_request option" where
  "request_at w p = (case cw_msgs w p of None \<Rightarrow> None | Some x \<Rightarrow> (case xq_opaque x of None \<Rightarrow> None | Some a \<Rightarrow> cw_reqs w a))"

definition pending_on :: "nat \<Rightarrow> cli_sys \<Rightarrow> nat" where
  "pending_on n st = length (filter (\<lambda>p. map_option ar_cvp (request_at (cs_w st) p) = Some n) (outstanding st))"

definition answers_sent :: "bytes \<Rightarrow> cworld \<Rightarrow> bool" where
  "answers_sent header w \<longleftrightarrow> (case unpack_msg header (NetworkXioMsg_new Noop) of
     Inl _ \<Rightarrow> True | Inr m \<Rightarrow> unat (nm_opaque m) \<in> set (cw_sent w))"

text \<open>
  When an action can occur. Allocations return fresh addresses; a submission uses a notifier that
  counts a request not yet submitted; a reply or error names a message libxio has; a
  caller finishes a request after its completion and not from inside its submission, and releases a
  completion when no pending request refers to it; fewer than \<open>2^32\<close> round trips are counted.
\<close>

fun cli_ok :: "cli_action \<Rightarrow> cli_sys \<Rightarrow> bool" where
  "cli_ok (CNotifier n c) st \<longleftrightarrow> cw_notifs (cs_w st) n = None \<and> 0 \<le> c"
| "cli_ok (CCompletion alloc_ok c) st \<longleftrightarrow> cw_compls (cs_w st) c = None"
| "cli_ok (CRelease c) st \<longleftrightarrow> cw_compls (cs_w st) c \<noteq> None \<and>
     list_all (\<lambda>p. Option.bind (request_at (cs_w st) p) ar_cptr \<noteq> Some c) (outstanding st)"
| "cli_ok (CBegin se op gp n cptr x) st \<longleftrightarrow> se_req_ok se \<and> cw_reqs (cs_w st) (se_req se) = None \<and>
     cw_msgs (cs_w st) (se_msg se) = None \<and> se_msg se < 2 ^ 64 \<and> xq_opaque x = Some (se_req se) \<and>
     cw_giocbs (cs_w st) gp \<noteq> None \<and> (case cptr of None \<Rightarrow> True | Some c \<Rightarrow> cw_compls (cs_w st) c \<noteq> None) \<and>
     cw_notifs (cs_w st) n \<noteq> None \<and> 0 < cs_spare st n"
| "cli_ok (CResume p) st \<longleftrightarrow> p \<in> set (cs_waiting st) \<and> req_queue_ready (cs_w st)"
| "cli_ok (CTimeout p) st \<longleftrightarrow> p \<in> set (cs_waiting st) \<and> \<not> req_queue_ready (cs_w st)"
| "cli_ok (CStart a) st \<longleftrightarrow> a \<in> set (cs_starting st)"
| "cli_ok (CSend r) st \<longleftrightarrow> \<not> is_queue_empty (cs_w st) \<and> stats_room (cs_w st)"
| "cli_ok (CReply header) st \<longleftrightarrow> answers_sent header (cs_w st) \<and> stats_room (cs_w st)"
| "cli_ok (CError d header) st \<longleftrightarrow> answers_sent header (cs_w st) \<and> stats_room (cs_w st)"
| "cli_ok (CEvent ev) st \<longleftrightarrow> True"
| "cli_ok (CFinish gp) st \<longleftrightarrow> (case Option.bind (cw_giocbs (cs_w st) gp) gb_request of None \<Rightarrow> False
     | Some a \<Rightarrow> a \<notin> set (cs_starting st) \<and> (case cw_reqs (cs_w st) a of None \<Rightarrow> False | Some r \<Rightarrow> ar_completed r))"

section \<open>The invariant\<close>

definition slots_ok :: "int \<Rightarrow> cli_sys \<Rightarrow> bool" where
  "slots_ok qd st \<longleftrightarrow> nc_nr_req_queue (cw_nc (cs_w st)) + int (length (outstanding st)) + int (cs_lost st) = qd"

definition starting_ok :: "cli_sys \<Rightarrow> bool" where
  "starting_ok st \<longleftrightarrow> (\<forall>a \<in> set (cs_starting st). cw_reqs (cs_w st) a \<noteq> None)"

definition cinv_es :: "sysenv \<Rightarrow> int \<Rightarrow> entry list \<Rightarrow> cli_sys \<Rightarrow> bool" where
  "cinv_es E qd es st \<longleftrightarrow> out_ok E (cs_spare st) es (cs_w st) \<and> mset (map fst es) = mset (outstanding st) \<and> slots_ok qd st \<and>
     starting_ok st \<and> 0 < clock E (cw_tick (cs_w st))"

definition cinv :: "sysenv \<Rightarrow> int \<Rightarrow> cli_sys \<Rightarrow> bool" where
  "cinv E qd st \<longleftrightarrow> (\<exists>es. cinv_es E qd es st)"

lemma entry_request_at: "entry_ok E w (p, a, n) \<Longrightarrow> \<exists>r. request_at w p = Some r \<and> ar_cvp r = n \<and> cw_reqs w a = Some r"
  by (auto simp: entry_ok_def request_at_def)

lemma pending_on_users:
  assumes "cinv_es E qd es st"
  shows "pending_on n st = users n es"
proof -
  let ?P = "\<lambda>p. map_option ar_cvp (request_at (cs_w st) p) = Some n"
  have "?P (fst e) \<longleftrightarrow> snd (snd e) = n" if "e \<in> set es" for e
    using that assms entry_request_at [of E "cs_w st" "fst e" "fst (snd e)" "snd (snd e)"]
    unfolding cinv_es_def out_ok_def by auto
  then have "filter (?P \<circ> fst) es = filter (\<lambda>(p, a, m). m = n) es" by (auto intro!: filter_cong)
  then have u: "length (filter ?P (map fst es)) = users n es" by (simp add: users_def filter_map)
  have "mset (map fst es) = mset (outstanding st)" using assms by (simp add: cinv_es_def)
  then have "length (filter ?P (map fst es)) = length (filter ?P (outstanding st))" by (metis mset_filter size_mset)
  with u show ?thesis by (simp add: pending_on_def)
qed

lemma pick_entry:
  assumes "cinv_es E qd es st" "p \<in> set (outstanding st)"
  shows "\<exists>a n es'. cinv_es E qd ((p, a, n) # es') st"
proof -
  have "p \<in> set (map fst es)" using assms mset_eq_setD [of "map fst es" "outstanding st"] by (simp add: cinv_es_def)
  then obtain a n where "(p, a, n) \<in> set es" by auto
  then have m: "mset es = mset ((p, a, n) # remove1 (p, a, n) es)" by simp
  moreover have "mset (map fst es) = mset (map fst ((p, a, n) # remove1 (p, a, n) es))" using m by (metis mset_map)
  ultimately show ?thesis using assms(1) out_ok_perm [OF m] unfolding cinv_es_def by metis
qed

text \<open>A change of the world that leaves the queue, the sent messages and the slots alone.\<close>

definition lists_same :: "cworld \<Rightarrow> cworld \<Rightarrow> bool" where
  "lists_same w w' \<longleftrightarrow> nc_inflight_reqs (cw_nc w') = nc_inflight_reqs (cw_nc w) \<and>
     nc_nr_req_queue (cw_nc w') = nc_nr_req_queue (cw_nc w) \<and> cw_sent w' = cw_sent w"

lemma cinv_world:
  assumes "cinv_es E qd es st" "out_ok E (cs_spare st) es w'" "lists_same (cs_w st) w'" "clock E (cw_tick (cs_w st)) \<le> clock E (cw_tick w')"
    and "\<And>a. a \<in> set (cs_starting st) \<Longrightarrow> cw_reqs w' a \<noteq> None"
  shows "cinv E qd (st\<lparr>cs_w := w'\<rparr>)"
  using assms unfolding cinv_def cinv_es_def slots_ok_def starting_ok_def outstanding_def lists_same_def by auto

lemma notifier_cli:
  assumes inv: "cinv_es E qd es st" and ok: "cli_ok (CNotifier n c) st"
  shows "\<exists>st'. exec_cli E (CNotifier n c) st = Inr st' \<and> cinv E qd st'"
proof -
  let ?st = "st\<lparr>cs_spare := (cs_spare st)(n := nat c)\<rparr>"
  let ?w = "new_notifier n c (cs_w st)"
  have o: "out_ok E (cs_spare st) es (cs_w st)" using inv by (simp add: cinv_es_def)
  have u: "users n es = 0"
    using o ok unfolding out_ok_def users_def entry_ok_def by (fastforce simp: filter_empty_conv)
  have o1: "out_ok E (cs_spare ?st) es (cs_w ?st)"
    using o ok by (intro out_ok_same [OF o]) (auto simp: out_ok_def same_for_def split: if_splits)
  then have i: "cinv_es E qd es ?st" using inv by (simp add: cinv_es_def outstanding_def slots_ok_def starting_ok_def)
  have "out_ok E (cs_spare ?st) es ?w"
    using o1 ok u by (intro out_ok_same [OF o1]) (auto simp: out_ok_def new_notifier_def notifier_new_def same_for_def split: if_splits)
  then have "cinv E qd (?st\<lparr>cs_w := ?w\<rparr>)"
    using inv by (intro cinv_world [OF i]) (auto simp: lists_same_def new_notifier_def cinv_es_def starting_ok_def)
  then show ?thesis by (simp add: on_world_def)
qed

lemma completion_cli:
  assumes inv: "cinv_es E qd es st" and ok: "cli_ok (CCompletion alloc_ok c) st"
  shows "\<exists>st'. exec_cli E (CCompletion alloc_ok c) st = Inr st' \<and> cinv E qd st'"
proof -
  let ?w = "snd (aio_create_completion True alloc_ok c (cs_w st))"
  have o: "out_ok E (cs_spare st) es (cs_w st)" using inv by (simp add: cinv_es_def)
  have "out_ok E (cs_spare st) es ?w"
    using o by (cases alloc_ok; intro out_ok_same [OF o]) (auto simp: out_ok_def aio_create_completion_def set_errno_def same_for_def)
  with inv have "cinv E qd (st\<lparr>cs_w := ?w\<rparr>)"
    by (cases alloc_ok; intro cinv_world [OF inv]) (auto simp: lists_same_def aio_create_completion_def set_errno_def cinv_es_def starting_ok_def)
  then show ?thesis by (simp add: on_world_def)
qed

lemma release_cli:
  assumes inv: "cinv_es E qd es st" and ok: "cli_ok (CRelease c) st"
  shows "\<exists>st'. exec_cli E (CRelease c) st = Inr st' \<and> cinv E qd st'"
proof -
  let ?w = "(cs_w st)\<lparr>cw_compls := (cw_compls (cs_w st))(c := None)\<rparr>"
  have o: "out_ok E (cs_spare st) es (cs_w st)" using inv by (simp add: cinv_es_def)
  have other: "ar_cptr r \<noteq> Some c" if "(p, a, n) \<in> set es" "cw_reqs (cs_w st) a = Some r" for p a n r
  proof -
    have "p \<in> set (map fst es)" using that(1) by force
    then have "p \<in> set (outstanding st)" using inv mset_eq_setD [of "map fst es" "outstanding st"] by (simp add: cinv_es_def)
    moreover have "request_at (cs_w st) p = Some r"
      using o that entry_request_at [of E "cs_w st" p a n] by (force simp: out_ok_def)
    ultimately show ?thesis using ok by (auto simp: list_all_iff)
  qed
  have "entry_ok E ?w e" if "e \<in> set es" for e
  proof -
    obtain p a n where e: "e = (p, a, n)" by (cases e)
    have "entry_ok E (cs_w st) e" using o that by (simp add: out_ok_def)
    with other [of p a n] that show ?thesis unfolding e entry_ok_def by auto
  qed
  then have "out_ok E (cs_spare st) es ?w" using o by (simp add: out_ok_def)
  with inv have "cinv E qd (st\<lparr>cs_w := ?w\<rparr>)"
    by (intro cinv_world [OF inv]) (auto simp: lists_same_def cinv_es_def starting_ok_def)
  moreover have "exec_cli E (CRelease c) st = Inr (st\<lparr>cs_w := ?w\<rparr>)"
    using ok by (auto simp: on_world_def aio_release_completion_def at_addr_def)
  ultimately show ?thesis by blast
qed

lemma event_cli:
  assumes inv: "cinv_es E qd es st"
  shows "\<exists>st'. exec_cli E (CEvent ev) st = Inr st' \<and> cinv E qd st'"
proof -
  let ?w = "client_on_session_event ev (cs_w st)"
  have o: "out_ok E (cs_spare st) es (cs_w st)" using inv by (simp add: cinv_es_def)
  have f: "cw_msgs ?w = cw_msgs (cs_w st) \<and> cw_reqs ?w = cw_reqs (cs_w st) \<and> cw_notifs ?w = cw_notifs (cs_w st) \<and>
      cw_compls ?w = cw_compls (cs_w st) \<and> cw_tick ?w = cw_tick (cs_w st) \<and> lists_same (cs_w st) ?w \<and>
      nc_rtt_hist (cw_nc ?w) = nc_rtt_hist (cw_nc (cs_w st))"
    by (cases ev) (simp_all add: client_on_session_event_def upd_nc_def lists_same_def)
  have "out_ok E (cs_spare st) es ?w" using o f by (intro out_ok_same [OF o]) (auto simp: out_ok_def same_for_def)
  with inv f have "cinv E qd (st\<lparr>cs_w := ?w\<rparr>)"
    by (intro cinv_world [OF inv]) (auto simp: cinv_es_def starting_ok_def)
  then show ?thesis by (simp add: on_world_def)
qed

lemma start_cli:
  assumes E: "env_ok E" and inv: "cinv_es E qd es st" and ok: "cli_ok (CStart a) st"
  shows "\<exists>st'. exec_cli E (CStart a) st = Inr st' \<and> cinv E qd st'"
proof -
  obtain r where r: "cw_reqs (cs_w st) a = Some r" using inv ok by (auto simp: cinv_es_def starting_ok_def)
  let ?w = "(cs_w st)\<lparr>cw_tick := Suc (cw_tick (cs_w st)), cw_reqs := (cw_reqs (cs_w st))(a \<mapsto> r\<lparr>ar_timer := clock E (cw_tick (cs_w st))\<rparr>)\<rparr>"
  let ?st = "st\<lparr>cs_starting := removeAll a (cs_starting st)\<rparr>"
  have o: "out_ok E (cs_spare st) es (cs_w st)" using inv by (simp add: cinv_es_def)
  have lt: "clock E (cw_tick (cs_w st)) < clock E (Suc (cw_tick (cs_w st)))" using env_ok_clock [OF E] by simp
  have "entry_ok E ?w e" if "e \<in> set es" for e
    using o that r lt unfolding out_ok_def entry_ok_def by (fastforce split: if_splits)
  then have o': "out_ok E (cs_spare ?st) es ?w" using o by (simp add: out_ok_def)
  have i: "cinv_es E qd es ?st" using inv by (auto simp: cinv_es_def starting_ok_def outstanding_def slots_ok_def)
  have "cinv E qd (?st\<lparr>cs_w := ?w\<rparr>)"
    using lt inv by (intro cinv_world [OF i o']) (auto simp: lists_same_def cinv_es_def starting_ok_def)
  then show ?thesis by (simp add: on_world_def timer_reset_def at_addr_def r)
qed

lemma finish_cli:
  assumes inv: "cinv_es E qd es st" and ok: "cli_ok (CFinish gp) st"
  shows "\<exists>st'. exec_cli E (CFinish gp) st = Inr st' \<and> cinv E qd st'"
proof -
  obtain g a r where g: "cw_giocbs (cs_w st) gp = Some g" "gb_request g = Some a" and a: "a \<notin> set (cs_starting st)"
      and r: "cw_reqs (cs_w st) a = Some r" "ar_completed r"
    using ok by (auto split: option.splits bind_splits)
  let ?w = "(cs_w st)\<lparr>cw_reqs := (cw_reqs (cs_w st))(a := None)\<rparr>"
  have o: "out_ok E (cs_spare st) es (cs_w st)" using inv by (simp add: cinv_es_def)
  have "entry_ok E ?w e" if "e \<in> set es" for e
    using o that r unfolding out_ok_def entry_ok_def by (fastforce split: if_splits)
  then have o': "out_ok E (cs_spare st) es ?w" using o by (simp add: out_ok_def)
  have "cinv E qd (st\<lparr>cs_w := ?w\<rparr>)"
    using inv a by (intro cinv_world [OF inv o']) (auto simp: lists_same_def cinv_es_def starting_ok_def)
  then show ?thesis by (simp add: on_world_def aio_finish_def at_addr_def request_of_def g r)
qed

lemma cinv_esI:
  assumes "out_ok E (cs_spare st) es (cs_w st)" "mset (map fst es) = mset (outstanding st)" "slots_ok qd st" "starting_ok st" "0 < clock E (cw_tick (cs_w st))"
  shows "cinv E qd st"
  using assms unfolding cinv_def cinv_es_def by blast

lemma resume_cli:
  assumes inv: "cinv_es E qd es st" and ok: "cli_ok (CResume p) st"
  shows "\<exists>st'. exec_cli E (CResume p) st = Inr st' \<and> cinv E qd st'"
proof -
  let ?st = "st\<lparr>cs_w := queue_push p (cs_w st), cs_waiting := remove1 p (cs_waiting st)\<rparr>"
  have o: "out_ok E (cs_spare st) es (cs_w st)" using inv by (simp add: cinv_es_def)
  have m: "mset (outstanding ?st) = mset (outstanding st)"
    using ok by (simp add: outstanding_def queue_push_def client_xstop_loop_def push_request_def upd_nc_def list_push_def)
  then have len: "length (outstanding ?st) = length (outstanding st)" by (metis size_mset)
  have "cinv E qd ?st"
  proof (rule cinv_esI)
    show "out_ok E (cs_spare ?st) es (cs_w ?st)" using o
      by (intro out_ok_same [OF o])
        (auto simp: out_ok_def same_for_def queue_push_def client_xstop_loop_def push_request_def upd_nc_def)
    show "mset (map fst es) = mset (outstanding ?st)" using inv m by (simp add: cinv_es_def)
    show "slots_ok qd ?st" using inv len
      by (simp add: cinv_es_def slots_ok_def queue_push_def client_xstop_loop_def push_request_def upd_nc_def)
  qed (use inv in \<open>auto simp: cinv_es_def starting_ok_def queue_push_def client_xstop_loop_def push_request_def upd_nc_def\<close>)
  then show ?thesis by simp
qed

lemma timeout_cli:
  assumes inv0: "cinv_es E qd es0 st" and ok: "cli_ok (CTimeout p) st"
  shows "\<exists>st'. exec_cli E (CTimeout p) st = Inr st' \<and> cinv E qd st'"
proof -
  have "p \<in> set (outstanding st)" using ok by (simp add: outstanding_def)
  then obtain a n es where inv: "cinv_es E qd ((p, a, n) # es) st" using pick_entry [OF inv0] by blast
  then have o: "out_ok E (cs_spare st) ((p, a, n) # es) (cs_w st)" by (simp add: cinv_es_def)
  obtain x r where x: "cw_msgs (cs_w st) p = Some x" "xq_opaque x = Some a" and r: "cw_reqs (cs_w st) a = Some r" "ar_cvp r = n"
    using o by (auto simp: out_ok_def entry_ok_def)
  let ?w1 = "delete_msg p (cs_w st)"
  let ?w = "if ar_op r = ReadOp then delete_request a ?w1 else ?w1"
  let ?st = "st\<lparr>cs_w := ?w, cs_waiting := remove1 p (cs_waiting st), cs_starting := removeAll a (cs_starting st),
      cs_lost := Suc (cs_lost st), cs_spare := (cs_spare st)(n := Suc (cs_spare st n))\<rparr>"
  have e: "exec_cli E (CTimeout p) st = Inr ?st" by (simp add: give_up_def x r Let_def)
  have np: "p \<notin> fst ` set es" "a \<notin> (fst \<circ> snd) ` set es" using o by (simp_all add: out_ok_def)
  have o1: "out_ok E (cs_spare ?st) es ?w1" using out_ok_delete [OF out_ok_tail [OF o] np(1)] by simp
  then have o2: "out_ok E (cs_spare ?st) es ?w" using out_ok_delete_request [OF o1 np(2)] by simp
  have w: "p \<in> set (cs_waiting st)" using ok by simp
  then have m: "mset (outstanding st) = add_mset p (mset (outstanding ?st))"
    by (simp add: outstanding_def delete_msg_def delete_request_def)
  then have len: "length (outstanding st) = Suc (length (outstanding ?st))" by (metis size_add_mset size_mset)
  have "cinv E qd ?st"
  proof (rule cinv_esI)
    show "out_ok E (cs_spare ?st) es (cs_w ?st)" using o2 by simp
    have "mset (map fst ((p, a, n) # es)) = mset (outstanding st)" using inv unfolding cinv_es_def by blast
    then show "mset (map fst es) = mset (outstanding ?st)" unfolding m by simp
    show "slots_ok qd ?st" using inv len by (auto simp: cinv_es_def slots_ok_def delete_msg_def delete_request_def)
  qed (use inv in \<open>auto simp: cinv_es_def starting_ok_def delete_msg_def delete_request_def\<close>)
  with e show ?thesis by blast
qed

text \<open>
  A message that was sent or queued is answered: its request is completed, the message deleted and the
  slot given back.
\<close>

lemma answered_cinv:
  assumes inv: "cinv_es E qd ((p, a, n) # es) st" and E: "env_ok E"
    and o: "out_ok E (cs_spare st) es (delete_msg p w2)" and t: "cw_tick w2 = Suc (cw_tick (cs_w st))"
    and ra: "cw_reqs w2 a \<noteq> None" and rq: "\<And>q. q \<noteq> a \<Longrightarrow> cw_reqs w2 q = cw_reqs (cs_w st) q"
    and f: "cw_msgs w' = (cw_msgs w2)(p := None)" "cw_reqs w' = cw_reqs w2" "cw_notifs w' = cw_notifs w2" "cw_compls w' = cw_compls w2"
      "cw_tick w' = cw_tick w2" "nc_rtt_hist (cw_nc w') = nc_rtt_hist (cw_nc w2)"
    and nr: "nc_nr_req_queue (cw_nc w') = nc_nr_req_queue (cw_nc (cs_w st)) + 1"
    and l: "mset (outstanding st) = add_mset p (mset (outstanding (st\<lparr>cs_w := w'\<rparr>)))"
  shows "cinv E qd (st\<lparr>cs_w := w'\<rparr>)"
proof (rule cinv_esI)
  show "out_ok E (cs_spare (st\<lparr>cs_w := w'\<rparr>)) es (cs_w (st\<lparr>cs_w := w'\<rparr>))"
    using o f by (intro out_ok_same [OF o]) (auto simp: same_for_def delete_msg_def out_ok_def)
  have "mset (map fst ((p, a, n) # es)) = mset (outstanding st)" using inv unfolding cinv_es_def by blast
  then show "mset (map fst es) = mset (outstanding (st\<lparr>cs_w := w'\<rparr>))" unfolding l by simp
  have "length (outstanding st) = Suc (length (outstanding (st\<lparr>cs_w := w'\<rparr>)))" using l by (metis size_add_mset size_mset)
  then show "slots_ok qd (st\<lparr>cs_w := w'\<rparr>)" using inv nr by (simp add: cinv_es_def slots_ok_def)
  have "cw_reqs w' b \<noteq> None" if "cw_reqs (cs_w st) b \<noteq> None" for b
    using that ra rq [of b] f(2) by (cases "b = a") simp_all
  then show "starting_ok (st\<lparr>cs_w := w'\<rparr>)" using inv by (simp add: cinv_es_def starting_ok_def)
  have "clock E (cw_tick (cs_w st)) < clock E (Suc (cw_tick (cs_w st)))" using env_ok_clock [OF E] by simp
  then show "0 < clock E (cw_tick (cs_w (st\<lparr>cs_w := w'\<rparr>)))" using inv f(5) t by (simp add: cinv_es_def)
qed

lemma release_keeps:
  "out_ok E K es w \<Longrightarrow> out_ok E K es (req_queue_release w) \<and> out_ok E K es (release_response w)"
  by (simp add: out_ok_def entry_ok_def req_queue_release_def release_response_def upd_nc_def)

lemma send_cli:
  assumes E: "env_ok E" and inv0: "cinv_es E qd es0 st" and ok: "cli_ok (CSend r) st"
  shows "\<exists>st'. exec_cli E (CSend r) st = Inr st' \<and> cinv E qd st'"
proof -
  obtain p rest where q: "nc_inflight_reqs (cw_nc (cs_w st)) = p # rest" using ok by (auto simp: is_queue_empty_def neq_Nil_conv)
  then have "p \<in> set (outstanding st)" by (simp add: outstanding_def)
  then obtain a n es where inv: "cinv_es E qd ((p, a, n) # es) st" using pick_entry [OF inv0] by blast
  let ?w1 = "upd_nc (\<lambda>nc. nc\<lparr>nc_inflight_reqs := rest\<rparr>) (cs_w st)"
  have o: "out_ok E (cs_spare st) ((p, a, n) # es) (cs_w st)" using inv by (simp add: cinv_es_def)
  have o1: "out_ok E (cs_spare st) ((p, a, n) # es) ?w1"
    using o by (intro out_ok_same [OF o]) (auto simp: out_ok_def same_for_def upd_nc_def)
  obtain x where x: "cw_msgs (cs_w st) p = Some x" "xq_opaque x = Some a" using o by (auto simp: out_ok_def entry_ok_def)
  have pop: "pop_request (cs_w st) = Inr (p, ?w1)" by (simp add: pop_request_def q)
  show ?thesis
  proof (cases "r < 0")
    case True
    let ?w2 = "req_queue_release ?w1"
    have room: "stats_room ?w2" using ok by (simp add: stats_room_def req_queue_release_def upd_nc_def)
    obtain w3 w4 where a: "update_stats E (Some a) True ?w2 = Inr w3" "ovs_xio_aio_complete_request (Some a) (-1) EIO w3 = Inr w4"
        "out_ok E (cs_spare st) es (delete_msg p w4)" "queue_same ?w2 w4" "cw_tick w4 = Suc (cw_tick ?w2)" "cw_reqs w4 a \<noteq> None"
        "\<And>q. q \<noteq> a \<Longrightarrow> cw_reqs w4 q = cw_reqs ?w2 q"
      using answer_out [OF E release_keeps [OF o1, THEN conjunct1] room, of True "-1" EIO] by blast
    have "cinv E qd (st\<lparr>cs_w := delete_msg p w4\<rparr>)"
      using a(3-7) q by (intro answered_cinv [OF inv E a(3) _ a(6)])
        (auto simp: queue_same_def delete_msg_def req_queue_release_def upd_nc_def outstanding_def)
    with True a(1,2) x pop show ?thesis by (simp add: on_world_def send_next_def at_addr_def upd_nc_def)
  next
    case False
    let ?w2 = "?w1\<lparr>cw_sent := cw_sent (cs_w st) @ [p]\<rparr>"
    have o2: "out_ok E (cs_spare st) ((p, a, n) # es) ?w2" using o1 by (intro out_ok_same [OF o1]) (auto simp: out_ok_def same_for_def)
    have m: "mset (outstanding (st\<lparr>cs_w := ?w2\<rparr>)) = mset (outstanding st)" by (simp add: outstanding_def upd_nc_def q)
    then have "length (outstanding (st\<lparr>cs_w := ?w2\<rparr>)) = length (outstanding st)" by (metis size_mset)
    with inv m o2 have "cinv E qd (st\<lparr>cs_w := ?w2\<rparr>)"
      by (intro cinv_esI [of E _ "(p, a, n) # es"]) (simp_all add: cinv_es_def slots_ok_def starting_ok_def upd_nc_def)
    with False x pop show ?thesis by (simp add: on_world_def send_next_def at_addr_def upd_nc_def)
  qed
qed

lemma reply_cli:
  assumes E: "env_ok E" and inv0: "cinv_es E qd es0 st" and ok: "cli_ok (CReply header) st"
  shows "\<exists>st'. exec_cli E (CReply header) st = Inr st' \<and> cinv E qd st'"
proof (cases "unpack_msg header (NetworkXioMsg_new Noop)")
  case (Inl e)
  have o: "out_ok E (cs_spare st) es0 (release_response (cs_w st))" using inv0 release_keeps by (simp add: cinv_es_def)
  have "cinv E qd (st\<lparr>cs_w := release_response (cs_w st)\<rparr>)"
    using inv0 by (intro cinv_world [OF inv0 o]) (auto simp: lists_same_def release_response_def cinv_es_def starting_ok_def)
  with Inl show ?thesis by (simp add: on_world_def on_response_def)
next
  case (Inr m)
  let ?p = "unat (nm_opaque m)"
  have s: "?p \<in> set (cw_sent (cs_w st))" using ok Inr by (simp add: answers_sent_def)
  then have "?p \<in> set (outstanding st)" by (simp add: outstanding_def)
  then obtain a n es where inv: "cinv_es E qd ((?p, a, n) # es) st" using pick_entry [OF inv0] by blast
  have o: "out_ok E (cs_spare st) ((?p, a, n) # es) (cs_w st)" using inv by (simp add: cinv_es_def)
  obtain x where x: "cw_msgs (cs_w st) ?p = Some x" "xq_opaque x = Some a" using o by (auto simp: out_ok_def entry_ok_def)
  have room: "stats_room (cs_w st)" using ok by simp
  obtain w1 w2 where a: "update_stats E (Some a) (nm_retval m < 0) (cs_w st) = Inr w1"
      "ovs_xio_aio_complete_request (Some a) (nm_retval m) (nm_errval m) w1 = Inr w2"
      "out_ok E (cs_spare st) es (delete_msg ?p w2)" "queue_same (cs_w st) w2" "cw_tick w2 = Suc (cw_tick (cs_w st))" "cw_reqs w2 a \<noteq> None"
      "\<And>q. q \<noteq> a \<Longrightarrow> cw_reqs w2 q = cw_reqs (cs_w st) q"
    using answer_out [OF E o room, of "nm_retval m < 0" "nm_retval m" "nm_errval m"] by blast
  let ?w3 = "delete_msg ?p (req_queue_release (release_response w2))"
  let ?w' = "?w3\<lparr>cw_sent := remove1 ?p (cw_sent ?w3)\<rparr>"
  have "cinv E qd (st\<lparr>cs_w := ?w'\<rparr>)"
    using a(3-7) s by (intro answered_cinv [OF inv E a(3) _ a(6)])
      (auto simp: queue_same_def delete_msg_def req_queue_release_def release_response_def upd_nc_def outstanding_def)
  with Inr a(1,2) x show ?thesis by (simp add: on_world_def on_response_def at_addr_def Let_def)
qed

lemma error_cli:
  assumes E: "env_ok E" and inv00: "cinv_es E qd es0 st0" and ok0: "cli_ok (CError d header) st0"
  shows "\<exists>st'. exec_cli E (CError d header) st0 = Inr st' \<and> cinv E qd st'"
proof -
  let ?w0 = "if d = DirectionIn then release_response (cs_w st0) else cs_w st0"
  let ?st = "st0\<lparr>cs_w := ?w0\<rparr>"
  have inv0: "cinv_es E qd es0 ?st" using inv00 release_keeps [of E "cs_spare st0" es0 "cs_w st0"]
    by (auto simp: cinv_es_def slots_ok_def starting_ok_def outstanding_def release_response_def)
  show ?thesis
  proof (cases "unpack_msg header (NetworkXioMsg_new Noop)")
    case (Inl e)
    with inv0 show ?thesis by (auto simp: on_world_def client_on_msg_error_def cinv_def Let_def)
  next
    case (Inr m)
    let ?p = "unat (nm_opaque m)"
    have s: "?p \<in> set (cw_sent ?w0)" using ok0 Inr by (simp add: answers_sent_def release_response_def)
    then have "?p \<in> set (outstanding ?st)" by (simp add: outstanding_def)
    then obtain a n es where inv: "cinv_es E qd ((?p, a, n) # es) ?st" using pick_entry [OF inv0] by blast
    have o: "out_ok E (cs_spare ?st) ((?p, a, n) # es) ?w0" using inv by (simp add: cinv_es_def)
    obtain x where x: "cw_msgs ?w0 ?p = Some x" "xq_opaque x = Some a" using o by (auto simp: out_ok_def entry_ok_def)
    have room: "stats_room ?w0" using ok0 by (simp add: stats_room_def release_response_def)
    obtain w1 w2 where a: "update_stats E (Some a) True ?w0 = Inr w1" "ovs_xio_aio_complete_request (Some a) (-1) EIO w1 = Inr w2"
        "out_ok E (cs_spare ?st) es (delete_msg ?p w2)" "queue_same ?w0 w2" "cw_tick w2 = Suc (cw_tick ?w0)" "cw_reqs w2 a \<noteq> None"
        "\<And>q. q \<noteq> a \<Longrightarrow> cw_reqs w2 q = cw_reqs ?w0 q"
      using answer_out [OF E o room, of True "-1" EIO] by blast
    let ?w3 = "delete_msg ?p (req_queue_release w2)"
    let ?w' = "?w3\<lparr>cw_sent := remove1 ?p (cw_sent ?w3)\<rparr>"
    have "cinv E qd (?st\<lparr>cs_w := ?w'\<rparr>)"
      by (rule answered_cinv [OF inv E a(3) _ a(6)])
        (use a(4-7) s in \<open>simp_all add: queue_same_def delete_msg_def req_queue_release_def upd_nc_def outstanding_def\<close>)
    then have "cinv E qd (st0\<lparr>cs_w := ?w'\<rparr>)" by simp
    moreover have "client_on_msg_error E d header (cs_w st0) = Inr ?w'"
      unfolding client_on_msg_error_def Let_def using Inr a(1,2) x by (simp add: at_addr_def del: if_split)
    ultimately show ?thesis by (simp add: on_world_def)
  qed
qed

lemma begin_cli:
  assumes inv: "cinv_es E qd es st" and ok: "cli_ok (CBegin se op gp n cptr x) st"
  shows "\<exists>st'. exec_cli E (CBegin se op gp n cptr x) st = Inr st' \<and> cinv E qd st'"
proof -
  let ?a = "se_req se" and ?p = "se_msg se" and ?w = "cs_w st"
  let ?r = "aio_request_new op (Some gp) n cptr"
  have o: "out_ok E (cs_spare st) es ?w" using inv by (simp add: cinv_es_def)
  have fr: "cw_reqs ?w ?a = None" "cw_msgs ?w ?p = None" "?p < 2 ^ 64" "xq_opaque x = Some ?a" "se_req_ok se"
    using ok by simp_all
  obtain g nt where g: "cw_giocbs ?w gp = Some g" and nt: "cw_notifs ?w n = Some nt" and sp: "0 < cs_spare st n"
    using ok by auto
  obtain w1 where c: "create_new_request se op (Some gp) n cptr ?w = Inr (Some ?a, w1)"
    and w1: "cw_reqs w1 = (cw_reqs ?w)(?a \<mapsto> ?r)" "cw_msgs w1 = cw_msgs ?w" "cw_notifs w1 = cw_notifs ?w"
      "cw_compls w1 = cw_compls ?w" "cw_tick w1 = cw_tick ?w" "cw_nc w1 = cw_nc ?w" "cw_sent w1 = cw_sent ?w"
    using fr(5) g by (cases "op = NoopOp") (simp_all add: create_new_request_def at_addr_def)
  let ?w2 = "req_queue_enter (new_msg ?p x w1)"
  have w2: "cw_reqs ?w2 = (cw_reqs ?w)(?a \<mapsto> ?r)" "cw_msgs ?w2 = (cw_msgs ?w)(?p \<mapsto> x)" "cw_notifs ?w2 = cw_notifs ?w"
      "cw_compls ?w2 = cw_compls ?w" "cw_tick ?w2 = cw_tick ?w" "nc_inflight_reqs (cw_nc ?w2) = nc_inflight_reqs (cw_nc ?w)"
      "nc_nr_req_queue (cw_nc ?w2) = nc_nr_req_queue (cw_nc ?w) - 1" "nc_rtt_hist (cw_nc ?w2) = nc_rtt_hist (cw_nc ?w)" "cw_sent ?w2 = cw_sent ?w"
    using w1 by (simp_all add: req_queue_enter_def new_msg_def upd_nc_def)
  let ?K = "(cs_spare st)(n := cs_spare st n - 1)"
  have np: "?p \<notin> fst ` set es" "?a \<notin> (fst \<circ> snd) ` set es" using o fr(1,2) by (auto simp: out_ok_def entry_ok_def)
  have o2: "out_ok E (cs_spare st) es ?w2"
  proof (rule out_ok_same [OF o])
    show "same_for E es ?w ?w2" using np w2 unfolding same_for_def by force
  qed (use o w2 in \<open>auto simp: out_ok_def\<close>)
  have "entry_ok E ?w2 (?p, ?a, n)"
    using fr nt inv ok w2 by (auto simp: entry_ok_def aio_request_new_def cinv_es_def)
  moreover have "nt_count k = int (users m ((?p, ?a, n) # es)) + int (?K m)" if "cw_notifs ?w2 m = Some k" for m k
  proof -
    have "nt_count k = int (users m es) + int (cs_spare st m)" using that o2 unfolding out_ok_def by blast
    then show ?thesis using sp by (cases "m = n") simp_all
  qed
  ultimately have o3: "out_ok E ?K ((?p, ?a, n) # es) ?w2" using o2 np unfolding out_ok_def by simp
  let ?st1 = "st\<lparr>cs_starting := (if op = ReadOp then ?a # cs_starting st else cs_starting st), cs_spare := ?K\<rparr>"
  let ?st2 = "if req_queue_ready ?w2 then ?st1\<lparr>cs_w := queue_push ?p ?w2\<rparr> else ?st1\<lparr>cs_w := ?w2, cs_waiting := ?p # cs_waiting st\<rparr>"
  have push: "out_ok E ?K ((?p, ?a, n) # es) (queue_push ?p ?w2)"
    using o3 by (simp add: out_ok_def entry_ok_def queue_push_def client_xstop_loop_def push_request_def upd_nc_def)
  have qp: "cw_reqs (queue_push ?p ?w2) = cw_reqs ?w2" "cw_tick (queue_push ?p ?w2) = cw_tick ?w2" "cw_sent (queue_push ?p ?w2) = cw_sent ?w2"
      "nc_nr_req_queue (cw_nc (queue_push ?p ?w2)) = nc_nr_req_queue (cw_nc ?w2)"
      "nc_inflight_reqs (cw_nc (queue_push ?p ?w2)) = nc_inflight_reqs (cw_nc ?w2) @ [?p]"
    by (simp_all add: queue_push_def client_xstop_loop_def push_request_def upd_nc_def list_push_def)
  have m: "mset (outstanding ?st2) = add_mset ?p (mset (outstanding st))" using w2 qp by (simp add: outstanding_def)
  then have len: "length (outstanding ?st2) = Suc (length (outstanding st))" by (metis size_add_mset size_mset)
  have "cinv E qd ?st2"
  proof (rule cinv_esI)
    show "out_ok E (cs_spare ?st2) ((?p, ?a, n) # es) (cs_w ?st2)" using o3 push by simp
    show "mset (map fst ((?p, ?a, n) # es)) = mset (outstanding ?st2)" unfolding m using inv by (simp add: cinv_es_def)
    have "nc_nr_req_queue (cw_nc (cs_w ?st2)) = nc_nr_req_queue (cw_nc ?w) - 1" "cs_lost ?st2 = cs_lost st" using w2 qp by simp_all
    then show "slots_ok qd ?st2" using inv len unfolding cinv_es_def slots_ok_def by linarith
    show "starting_ok ?st2" using inv w2 qp by (auto simp: cinv_es_def starting_ok_def)
    show "0 < clock E (cw_tick (cs_w ?st2))" using inv w2 qp by (simp add: cinv_es_def)
  qed
  moreover have "exec_cli E (CBegin se op gp n cptr x) st = Inr ?st2" by (simp add: begin_send_def c Let_def)
  ultimately show ?thesis by blast
qed

lemma cli_progress:
  assumes E: "env_ok E" and "cinv E qd st" and ok: "cli_ok act st"
  shows "\<exists>st'. exec_cli E act st = Inr st' \<and> cinv E qd st'"
proof -
  obtain es where inv: "cinv_es E qd es st" using assms(2) by (auto simp: cinv_def)
  show ?thesis
  proof (cases act)
    case (CNotifier n c)
    show ?thesis using notifier_cli [OF inv] ok unfolding CNotifier by blast
  next
    case (CCompletion b c)
    show ?thesis using completion_cli [OF inv] ok unfolding CCompletion by blast
  next
    case (CRelease c)
    show ?thesis using release_cli [OF inv] ok unfolding CRelease by blast
  next
    case (CBegin se op gp n cptr x)
    show ?thesis using begin_cli [OF inv] ok unfolding CBegin by blast
  next
    case (CResume p)
    show ?thesis using resume_cli [OF inv] ok unfolding CResume by blast
  next
    case (CTimeout p)
    show ?thesis using timeout_cli [OF inv] ok unfolding CTimeout by blast
  next
    case (CStart a)
    show ?thesis using start_cli [OF E inv] ok unfolding CStart by blast
  next
    case (CSend r)
    show ?thesis using send_cli [OF E inv] ok unfolding CSend by blast
  next
    case (CReply header)
    show ?thesis using reply_cli [OF E inv] ok unfolding CReply by blast
  next
    case (CError d header)
    show ?thesis using error_cli [OF E inv] ok unfolding CError by blast
  next
    case (CEvent ev)
    show ?thesis using event_cli [OF inv] unfolding CEvent by blast
  next
    case (CFinish gp)
    show ?thesis using finish_cli [OF inv] ok unfolding CFinish by blast
  qed
qed

section \<open>Safety of the client\<close>

text \<open>A new client with queue depth \<open>qd\<close>; the clock is past its epoch.\<close>

definition cli_init :: "sysenv \<Rightarrow> 64 word \<Rightarrow> cli_sys \<Rightarrow> bool" where
  "cli_init E qd st \<longleftrightarrow> cw_nc (cs_w st) = client_blank qd \<and> cw_msgs (cs_w st) = Map.empty \<and> cw_reqs (cs_w st) = Map.empty \<and>
     cw_notifs (cs_w st) = Map.empty \<and> cw_sent (cs_w st) = [] \<and> cs_waiting st = [] \<and> cs_starting st = [] \<and> cs_lost st = 0 \<and>
     0 < clock E (cw_tick (cs_w st))"

definition cli_step :: "sysenv \<Rightarrow> cli_sys \<Rightarrow> cli_sys \<Rightarrow> bool" where
  "cli_step E st st' \<longleftrightarrow> (\<exists>act. cli_ok act st \<and> exec_cli E act st = Inr st')"

interpretation clis: invariant_system "cli_init E qd" "cli_step E" "\<lambda>st. env_ok E \<longrightarrow> cinv E (sint qd) st"
  for E :: sysenv and qd :: "64 word"
proof unfold_locales
  show "env_ok E \<longrightarrow> cinv E (sint qd) st" if "cli_init E qd st" for st
  proof
    show "cinv E (sint qd) st" using that
      by (intro cinv_esI [of E _ "[]"])
        (simp_all add: cli_init_def client_blank_def out_ok_def outstanding_def slots_ok_def starting_ok_def)
  qed
  show "env_ok E \<longrightarrow> cinv E (sint qd) st'" if "env_ok E \<longrightarrow> cinv E (sint qd) st" "cli_step E st st'" for st st'
    using that cli_progress [of E "sint qd" st] unfolding cli_step_def by fastforce
qed


definition demo_client :: cli_sys where
  "demo_client = \<lparr>cs_w = \<lparr>cw_msgs = Map.empty, cw_reqs = Map.empty, cw_notifs = Map.empty, cw_compls = Map.empty,
     cw_giocbs = [3 \<mapsto> \<lparr>gb_buf = 4096, gb_offset = 0, gb_nbytes = 512, gb_request = None\<rparr>], cw_nc = client_blank 256, cw_tick = 1,
     cw_errno = 0, cw_calls = [], cw_sent = [], cw_released = 0\<rparr>, cs_waiting = [], cs_starting = [], cs_lost = 0, cs_spare = (\<lambda>_. 0)\<rparr>"

definition demo_submit :: submit_env where
  "demo_submit = \<lparr>se_req_ok = True, se_req = 5, se_msg_ok = True, se_msg = 6, se_others = id, se_after = id\<rparr>"

abbreviation demo_begin :: cli_action where
  "demo_begin \<equiv> CBegin demo_submit ReadOp 3 7 None (read_msg 6 ''f'' 4096 512 0 (Some 5))"

lemma demo_queued:
  "\<exists>st. rfold (exec_cli tick_env) [CNotifier 7 1, demo_begin] demo_client = Inr st \<and>
     reach (cli_init tick_env 256) (cli_step tick_env) st \<and> outstanding st = [6] \<and> stats_room (cs_w st) \<and> cs_lost st = 0 \<and>
     nc_inflight_reqs (cw_nc (cs_w st)) = [6] \<and> cw_msgs (cs_w st) 6 = Some (read_msg 6 ''f'' 4096 512 0 (Some 5)) \<and>
     cw_sent (cs_w st) = [] \<and>
     cw_giocbs (cs_w st) 3 = Some \<lparr>gb_buf = 4096, gb_offset = 0, gb_nbytes = 512, gb_request = Some 5\<rparr>"
proof -
  obtain s1 where s1: "exec_cli tick_env (CNotifier 7 1) demo_client = Inr s1" "s1 = demo_client\<lparr>cs_spare := (cs_spare demo_client)(7 := 1), cs_w := new_notifier 7 1 (cs_w demo_client)\<rparr>"
    by (simp add: on_world_def)
  obtain s2 where s2: "exec_cli tick_env demo_begin s1 = Inr s2" "outstanding s2 = [6]" "stats_room (cs_w s2)" "cs_lost s2 = 0"
      "nc_inflight_reqs (cw_nc (cs_w s2)) = [6]" "cw_msgs (cs_w s2) 6 = Some (read_msg 6 ''f'' 4096 512 0 (Some 5))" "cw_sent (cs_w s2) = []"
      "cw_giocbs (cs_w s2) 3 = Some \<lparr>gb_buf = 4096, gb_offset = 0, gb_nbytes = 512, gb_request = Some 5\<rparr>"
    by (simp add: begin_send_def create_new_request_def demo_submit_def s1(2) demo_client_def new_notifier_def at_addr_def Let_def
        req_queue_ready_def req_queue_enter_def new_msg_def upd_nc_def client_blank_def queue_push_def client_xstop_loop_def
        push_request_def list_push_def outstanding_def stats_room_def StatsCounter_init_def)
  have "cli_init tick_env 256 demo_client" by (simp add: cli_init_def demo_client_def)
  then have r0: "reach (cli_init tick_env 256) (cli_step tick_env) demo_client" by (rule reach_init)
  have "cli_ok (CNotifier 7 1) demo_client" by (simp add: demo_client_def)
  then have st1: "cli_step tick_env demo_client s1" unfolding cli_step_def using s1(1) by blast
  have "cli_ok demo_begin s1"
    by (simp add: s1(2) demo_client_def demo_submit_def new_notifier_def notifier_new_def read_msg_def xio_msg_new_def xio_msg_prepare_def
        pending_on_def outstanding_def client_blank_def Let_def)
  then have st2: "cli_step tick_env s1 s2" unfolding cli_step_def using s2(1) by blast
  have r2: "reach (cli_init tick_env 256) (cli_step tick_env) s2"
    by (rule reach_step [OF reach_step [OF r0 st1] st2])
  have "rfold (exec_cli tick_env) [CNotifier 7 1, demo_begin] demo_client = Inr s2"
    using s1(1) s2(1) by (simp only: rfold.simps rbind_simps)
  with r2 s2 show ?thesis by blast
qed


end
