(* ===== verification/Xio_Server_System.thy ===== *)
theory Xio_Server_System
  imports Xio_Server
begin

text \<open>
  The server with its worker threads and completion threads as a transition system, and its invariant:
  every request is in exactly one place, and the reference count of a connection is the number of its
  requests, so that a connection is destroyed only when nothing refers to it any more.
\<close>

section \<open>Reference counts\<close>

definition reqs_of :: "(nat \<rightharpoonup> NetworkXioRequest) \<Rightarrow> nat \<Rightarrow> nat set" where
  "reqs_of R c = {p. \<exists>r. R p = Some r \<and> rq_client r = c}"

text \<open>
  The heaps \<open>R\<close> of requests and \<open>C\<close> of connections, when the requests in \<open>P\<close> are those not waiting
  for the confirmation of their reply.
\<close>

definition client_ok :: "nat list \<Rightarrow> (nat \<rightharpoonup> NetworkXioRequest) \<Rightarrow> nat \<Rightarrow> NetworkXioClientData \<Rightarrow> bool" where
  "client_ok P R c cd \<longleftrightarrow> distinct (cd_done_reqs cd) \<and> set (cd_done_reqs cd) \<subseteq> reqs_of R c \<and>
     set (cd_done_reqs cd) \<inter> set P = {} \<and> unat (cd_refcnt cd) = card (reqs_of R c) \<and>
     (cd_disconnected cd \<longrightarrow> cd_refcnt cd \<noteq> 0)"

definition rinv :: "nat list \<Rightarrow> (nat \<rightharpoonup> NetworkXioRequest) \<Rightarrow> (nat \<rightharpoonup> NetworkXioClientData) \<Rightarrow> bool" where
  "rinv P R C \<longleftrightarrow> finite (dom R) \<and> distinct P \<and> set P \<subseteq> dom R \<and>
     (\<forall>p r. R p = Some r \<longrightarrow> (\<exists>cd. C (rq_client r) = Some cd \<and> (p \<in> set P \<or> p \<in> set (cd_done_reqs cd)))) \<and>
     (\<forall>c cd. C c = Some cd \<longrightarrow> client_ok P R c cd)"

lemma rinv_placed:
  "rinv P R C \<Longrightarrow> R p = Some r \<Longrightarrow> \<exists>cd. C (rq_client r) = Some cd \<and> (p \<in> set P \<or> p \<in> set (cd_done_reqs cd))"
  unfolding rinv_def by blast

lemma reqs_of_finite: "finite (dom R) \<Longrightarrow> finite (reqs_of R c)"
  by (rule finite_subset [of _ "dom R"]) (auto simp: reqs_of_def)

lemma reqs_of_upd:
  "R p = Some r \<Longrightarrow> rq_client r' = rq_client r \<Longrightarrow> reqs_of (R(p \<mapsto> r')) c = reqs_of R c"
  by (auto simp: reqs_of_def)

lemma reqs_of_new: "R p = None \<Longrightarrow> reqs_of (R(p \<mapsto> r)) c = (if rq_client r = c then insert p (reqs_of R c) else reqs_of R c)"
  by (auto simp: reqs_of_def)

lemma reqs_of_free: "R p = Some r \<Longrightarrow> reqs_of (R(p := None)) c = (if rq_client r = c then reqs_of R c - {p} else reqs_of R c)"
  by (auto simp: reqs_of_def)

lemma rinv_perm:
  assumes "mset P = mset P'" "rinv P R C"
  shows "rinv P' R C"
proof -
  have "set P = set P'" "distinct P = distinct P'"
    using assms(1) mset_eq_setD mset_eq_imp_distinct_iff by blast+
  with assms(2) show ?thesis by (simp add: rinv_def client_ok_def)
qed

lemma rinv_update:
  assumes "rinv P R C" "R p = Some r" "rq_client r' = rq_client r"
  shows "rinv P (R(p \<mapsto> r')) C"
proof -
  have "client_ok P (R(p \<mapsto> r')) c cd \<longleftrightarrow> client_ok P R c cd" for c cd
    by (simp add: client_ok_def reqs_of_upd [of R p r r', OF assms(2,3)])
  moreover have "set P \<subseteq> dom (R(p \<mapsto> r'))" "finite (dom (R(p \<mapsto> r')))" using assms(1) by (auto simp: rinv_def)
  moreover have "\<exists>cd. C (rq_client q') = Some cd \<and> (q \<in> set P \<or> q \<in> set (cd_done_reqs cd))"
    if "(R(p \<mapsto> r')) q = Some q'" for q q'
    using that assms unfolding rinv_def by (cases "q = p") auto
  ultimately show ?thesis using assms(1) unfolding rinv_def by blast
qed

lemma rinv_new:
  assumes inv: "rinv P R C" and p: "R p = None" and c: "C c = Some cd" "rq_client r = c" and lim: "card (reqs_of R c) + 1 < 2 ^ 64"
  shows "rinv (p # P) (R(p \<mapsto> r)) (C(c \<mapsto> cd\<lparr>cd_refcnt := cd_refcnt cd + 1\<rparr>))"
proof -
  have np: "p \<notin> set P" "p \<notin> reqs_of R d" for d using inv p by (auto simp: rinv_def reqs_of_def)
  have ok: "client_ok P R d e" if "C d = Some e" for d e using inv that by (simp add: rinv_def)
  have fin: "finite (reqs_of R d)" for d using inv by (simp add: rinv_def reqs_of_finite)
  have u: "unat (cd_refcnt cd + 1) = card (reqs_of R c) + 1"
    using ok [OF c(1)] lim by (simp add: client_ok_def unat_word_ariths)
  then have nz: "cd_refcnt cd + 1 \<noteq> 0" by auto
  have "client_ok (p # P) (R(p \<mapsto> r)) d e'"
    if "(C(c \<mapsto> cd\<lparr>cd_refcnt := cd_refcnt cd + 1\<rparr>)) d = Some e'" for d e'
  proof (cases "d = c")
    case True
    then show ?thesis
      using that ok [OF c(1)] u nz np fin c(2) p by (auto simp: client_ok_def reqs_of_new)
  next
    case False
    then show ?thesis
      using that ok [of d e'] np c(2) p by (auto simp: client_ok_def reqs_of_new)
  qed
  moreover have "\<exists>e. (C(c \<mapsto> cd\<lparr>cd_refcnt := cd_refcnt cd + 1\<rparr>)) (rq_client q') = Some e \<and> (q \<in> set (p # P) \<or> q \<in> set (cd_done_reqs e))"
    if "(R(p \<mapsto> r)) q = Some q'" for q q'
    using that inv c unfolding rinv_def by (cases "q = p") force+
  ultimately show ?thesis using inv np unfolding rinv_def by (auto simp del: fun_upd_apply)
qed

lemma unat_dec: "unat w > 0 \<Longrightarrow> unat (w - 1) = unat w - 1" for w :: "64 word"
  by (metis One_nat_def Suc_leI unat_1 unat_sub word_le_nat_alt)

lemma rinv_free:
  assumes inv: "rinv (p # P) R C" and r: "R p = Some r" "rq_client r = c" and c: "C c = Some cd"
  defines "cd' \<equiv> cd\<lparr>cd_refcnt := cd_refcnt cd - 1\<rparr>"
  shows "rinv P (R(p := None)) (C(c := (if cd_disconnected cd \<and> cd_refcnt cd - 1 = 0 then None else Some cd')))"
proof -
  let ?C = "C(c := (if cd_disconnected cd \<and> cd_refcnt cd - 1 = 0 then None else Some cd'))"
  have np: "p \<notin> set P" using inv by (simp add: rinv_def)
  have ok: "client_ok (p # P) R d e" if "C d = Some e" for d e using inv that by (simp add: rinv_def)
  have fin: "finite (reqs_of R d)" for d using inv by (simp add: rinv_def reqs_of_finite)
  have pc: "p \<in> reqs_of R c" using r by (simp add: reqs_of_def)
  then have cpos: "card (reqs_of R c) > 0" using fin by (auto simp: card_gt_0_iff)
  then have u: "unat (cd_refcnt cd - 1) = card (reqs_of R c - {p})"
    using ok [OF c] pc fin by (simp add: client_ok_def unat_dec)
  have done_c: "set (cd_done_reqs cd) \<subseteq> reqs_of R c - {p}" using ok [OF c] by (auto simp: client_ok_def)
  have clients: "client_ok P (R(p := None)) d e" if "?C d = Some e" for d e
  proof (cases "d = c")
    case True
    then have e: "e = cd'" "\<not> (cd_disconnected cd \<and> cd_refcnt cd - 1 = 0)" using that by (auto split: if_splits)
    show ?thesis using ok [OF c] e u done_c True r by (auto simp: client_ok_def cd'_def reqs_of_free)
  next
    case False
    then show ?thesis using that ok [of d e] r by (auto simp: client_ok_def reqs_of_free)
  qed
  have placed: "\<exists>e. ?C (rq_client q') = Some e \<and> (q \<in> set P \<or> q \<in> set (cd_done_reqs e))" if "(R(p := None)) q = Some q'" for q q'
  proof -
    have q: "q \<noteq> p" "R q = Some q'" using that by (auto split: if_splits)
    obtain e where e: "C (rq_client q') = Some e" "q \<in> set P \<or> q \<in> set (cd_done_reqs e)"
      using inv q unfolding rinv_def by fastforce
    show ?thesis
    proof (cases "rq_client q' = c")
      case True
      then have "q \<in> reqs_of R c - {p}" using q by (simp add: reqs_of_def)
      then have "card (reqs_of R c - {p}) > 0" using fin by (auto simp: card_gt_0_iff)
      then have "cd_refcnt cd - 1 \<noteq> 0" using u by auto
      then show ?thesis using True e c by (auto simp: cd'_def)
    qed (use e in auto)
  qed
  have "set P \<subseteq> dom (R(p := None))" "finite (dom (R(p := None)))" "distinct P" using inv np by (auto simp: rinv_def)
  with clients placed show ?thesis unfolding rinv_def by blast
qed

lemma rinv_to_done:
  assumes inv: "rinv (p # P) R C" and r: "R p = Some r" "rq_client r = c" and c: "C c = Some cd"
  shows "rinv P R (C(c \<mapsto> cd\<lparr>cd_done_reqs := cd_done_reqs cd @ [p]\<rparr>))"
proof -
  let ?C = "C(c \<mapsto> cd\<lparr>cd_done_reqs := cd_done_reqs cd @ [p]\<rparr>)"
  have ok: "client_ok (p # P) R d e" if "C d = Some e" for d e using inv that by (simp add: rinv_def)
  have np: "p \<notin> set P" "p \<in> reqs_of R c" using inv r by (auto simp: rinv_def reqs_of_def)
  have "client_ok P R d e" if "?C d = Some e" for d e
    using that ok [OF c] ok [of d e] np by (cases "d = c") (auto simp: client_ok_def)
  moreover have "\<exists>e. ?C (rq_client q') = Some e \<and> (q \<in> set P \<or> q \<in> set (cd_done_reqs e))" if "R q = Some q'" for q q'
    using that inv r c unfolding rinv_def by (cases "q = p") (fastforce split: if_splits)+
  ultimately show ?thesis using inv unfolding rinv_def by auto
qed

lemma rinv_from_done:
  assumes inv: "rinv P R C" and c: "C c = Some cd" "cd_done_reqs cd = p # rest"
  shows "rinv (p # P) R (C(c \<mapsto> cd\<lparr>cd_done_reqs := rest\<rparr>)) \<and> (\<exists>r. R p = Some r \<and> rq_client r = c)"
proof -
  let ?C = "C(c \<mapsto> cd\<lparr>cd_done_reqs := rest\<rparr>)"
  have ok: "client_ok P R d e" if "C d = Some e" for d e using inv that by (simp add: rinv_def)
  obtain r where r: "R p = Some r" "rq_client r = c" using ok [OF c(1)] c(2) by (auto simp: client_ok_def reqs_of_def)
  have other: "p \<notin> set (cd_done_reqs e)" if "C d = Some e" "d \<noteq> c" for d e
    using ok [OF that(1)] that(2) r by (auto simp: client_ok_def reqs_of_def)
  have "client_ok (p # P) R d e" if "?C d = Some e" for d e
    using that ok [OF c(1)] ok [of d e] other [of d e] c(2) by (cases "d = c") (auto simp: client_ok_def)
  moreover have "\<exists>e. ?C (rq_client q') = Some e \<and> (q \<in> set (p # P) \<or> q \<in> set (cd_done_reqs e))" if "R q = Some q'" for q q'
    using that inv r c unfolding rinv_def by (fastforce split: if_splits)
  moreover have "p \<notin> set P" using ok [OF c(1)] c(2) by (auto simp: client_ok_def)
  ultimately show ?thesis using inv r unfolding rinv_def by auto
qed

lemma rinv_set_client:
  assumes inv: "rinv P R C" and ok: "client_ok P R c cd" and pl: "\<And>p. p \<in> reqs_of R c \<Longrightarrow> p \<in> set P \<or> p \<in> set (cd_done_reqs cd)"
  shows "rinv P R (C(c \<mapsto> cd))"
proof -
  have "\<exists>e. (C(c \<mapsto> cd)) (rq_client q') = Some e \<and> (q \<in> set P \<or> q \<in> set (cd_done_reqs e))" if "R q = Some q'" for q q'
  proof (cases "rq_client q' = c")
    case True
    with that have "q \<in> reqs_of R c" by (simp add: reqs_of_def)
    with pl True show ?thesis by simp
  next
    case False
    with inv that show ?thesis by (simp add: rinv_def)
  qed
  moreover have "client_ok P R d e" if "(C(c \<mapsto> cd)) d = Some e" for d e
    using that ok inv by (cases "d = c") (simp_all add: rinv_def)
  ultimately show ?thesis using inv unfolding rinv_def by blast
qed

lemma rinv_no_client:
  assumes "rinv P R C" "C c = None"
  shows "reqs_of R c = {}"
proof -
  have False if "R q = Some r" "rq_client r = c" for q r
    using rinv_placed [OF assms(1) that(1)] that(2) assms(2) by auto
  then show ?thesis by (auto simp: reqs_of_def)
qed

lemma rinv_connect:
  assumes inv: "rinv P R C" and c: "C c = None"
  shows "rinv P R (C(c \<mapsto> \<lparr>cd_disconnected = False, cd_refcnt = 0, cd_done_reqs = []\<rparr>))"
  using rinv_no_client [OF inv c] by (intro rinv_set_client [OF inv]) (simp_all add: client_ok_def)

lemma rinv_disconnect:
  assumes inv: "rinv P R C" and c: "C c = Some cd"
  shows "rinv P R (C(c := (if cd_refcnt cd = 0 then None else Some (cd\<lparr>cd_disconnected := True\<rparr>))))"
proof -
  have ok: "client_ok P R c cd" using inv c by (simp add: rinv_def)
  show ?thesis
  proof (cases "cd_refcnt cd = 0")
    case True
    have "finite (reqs_of R c)" using inv by (simp add: rinv_def reqs_of_finite)
    with ok True have none: "reqs_of R c = {}" by (simp add: client_ok_def)
    have "\<exists>e. (C(c := None)) (rq_client q') = Some e \<and> (q \<in> set P \<or> q \<in> set (cd_done_reqs e))" if "R q = Some q'" for q q'
    proof -
      have "rq_client q' \<noteq> c" using none that by (auto simp: reqs_of_def)
      with inv that show ?thesis by (simp add: rinv_def)
    qed
    moreover have "client_ok P R d e" if "(C(c := None)) d = Some e" for d e
      using that inv by (simp add: rinv_def split: if_splits)
    ultimately have "rinv P R (C(c := None))" using inv unfolding rinv_def by blast
    with True show ?thesis by simp
  next
    case False
    have "rinv P R (C(c \<mapsto> cd\<lparr>cd_disconnected := True\<rparr>))"
    proof (rule rinv_set_client [OF inv])
      show "client_ok P R c (cd\<lparr>cd_disconnected := True\<rparr>)" using ok False by (simp add: client_ok_def)
    next
      fix p
      assume "p \<in> reqs_of R c"
      then obtain r where r: "R p = Some r" "rq_client r = c" by (auto simp: reqs_of_def)
      from rinv_placed [OF inv r(1)] r(2) c
      show "p \<in> set P \<or> p \<in> set (cd_done_reqs (cd\<lparr>cd_disconnected := True\<rparr>))" by simp
    qed
    with False show ?thesis by simp
  qed
qed

section \<open>The operations keep the counts\<close>

definition sinv :: "nat list \<Rightarrow> xserver \<Rightarrow> bool" where
  "sinv W s \<longleftrightarrow> rinv (wq_inflight (sr_wq s) @ wq_finished (sr_wq s) @ W) (sr_reqs s) (sr_clients s)"

lemma sinv_change:
  assumes "sinv W s" "sr_reqs s' = sr_reqs s" "sr_clients s' = sr_clients s"
    and "mset (wq_inflight (sr_wq s')) + mset (wq_finished (sr_wq s')) + mset W' =
         mset (wq_inflight (sr_wq s)) + mset (wq_finished (sr_wq s)) + mset W"
  shows "sinv W' s'"
proof -
  have "mset (wq_inflight (sr_wq s) @ wq_finished (sr_wq s) @ W) = mset (wq_inflight (sr_wq s') @ wq_finished (sr_wq s') @ W')"
    using assms(4) by (simp add: add.assoc)
  from rinv_perm [OF this] assms(1-3) show ?thesis by (simp add: sinv_def)
qed

lemma sinv_held:
  "sinv (p # W) s \<longleftrightarrow> rinv (p # wq_inflight (sr_wq s) @ wq_finished (sr_wq s) @ W) (sr_reqs s) (sr_clients s)"
proof -
  have "mset (wq_inflight (sr_wq s) @ wq_finished (sr_wq s) @ p # W) = mset (p # wq_inflight (sr_wq s) @ wq_finished (sr_wq s) @ W)"
    by simp
  then show ?thesis using rinv_perm unfolding sinv_def by metis
qed

lemma sinv_request:
  assumes "sinv W s" "p \<in> set W"
  shows "\<exists>r cd. sr_reqs s p = Some r \<and> sr_clients s (rq_client r) = Some cd"
proof -
  obtain r where r: "sr_reqs s p = Some r" using assms unfolding sinv_def rinv_def by auto
  from rinv_placed [OF assms(1) [unfolded sinv_def] r] r show ?thesis by blast
qed

lemma free_request_sinv:
  assumes inv: "sinv (p # W) s"
  shows "\<exists>s'. free_request p s = Inr s' \<and> sinv W s' \<and> sr_wq s' = sr_wq s \<and> (\<forall>q. q \<noteq> p \<longrightarrow> sr_reqs s' q = sr_reqs s q)"
proof -
  obtain r cd where r: "sr_reqs s p = Some r" and cd: "sr_clients s (rq_client r) = Some cd"
    using sinv_request [OF inv, of p] by auto
  from rinv_free [OF inv [unfolded sinv_held] r refl cd] show ?thesis
    by (auto simp: free_request_def get_req_def get_client_def r cd Let_def destroy_client_def sinv_def)
qed

lemma deallocate_request_sinv:
  assumes inv: "sinv (p # W) s"
  shows "\<exists>s'. deallocate_request p s = Inr s' \<and> sinv W s' \<and> sr_wq s' = sr_wq s \<and> (\<forall>q. q \<noteq> p \<longrightarrow> sr_reqs s' q = sr_reqs s q)"
proof -
  obtain r cd where r: "sr_reqs s p = Some r" using sinv_request [OF inv, of p] by auto
  let ?s = "if rq_op r = ReadRsp \<and> rq_data r \<noteq> 0 then s\<lparr>sr_freed := sr_freed s @ [(rq_from_pool r, rq_reg_mem r)]\<rparr> else s"
  have "sinv (p # W) ?s" by (rule sinv_change [OF inv]) simp_all
  from free_request_sinv [OF this] show ?thesis
    by (cases "rq_op r = ReadRsp \<and> rq_data r \<noteq> 0") (simp_all only: deallocate_request_def get_req_def r if_True if_False rbind_simps option.case, simp_all)
qed

lemma xio_send_reply_sinv:
  assumes inv: "sinv (p # W) s"
  shows "\<exists>s'. xio_send_reply ret p s = Inr s' \<and> sinv W s' \<and> sr_wq s' = sr_wq s \<and> (\<forall>q. q \<noteq> p \<longrightarrow> sr_reqs s' q = sr_reqs s q)"
proof -
  obtain r cd where r: "sr_reqs s p = Some r" and cd: "sr_clients s (rq_client r) = Some cd"
    using sinv_request [OF inv, of p] by auto
  show ?thesis
  proof (cases "ret = 0")
    case True
    with rinv_to_done [OF inv [unfolded sinv_held] r refl cd] show ?thesis
      by (auto simp: xio_send_reply_def get_req_def get_client_def r cd sinv_def)
  next
    case False
    with deallocate_request_sinv [OF inv] show ?thesis by (simp add: xio_send_reply_def get_req_def r)
  qed
qed

lemma send_finished_sinv:
  assumes inv: "sinv W s" and ne: "wq_finished (sr_wq s) = p # rest"
  shows "\<exists>s'. send_finished ret s = Inr s' \<and> sinv W s' \<and> (\<forall>q. q \<noteq> p \<longrightarrow> sr_reqs s' q = sr_reqs s q)"
proof -
  let ?s = "s\<lparr>sr_wq := (sr_wq s)\<lparr>wq_finished := rest\<rparr>\<rparr>"
  have "sinv (p # W) ?s" by (rule sinv_change [OF inv]) (simp_all add: ne)
  from xio_send_reply_sinv [OF this] show ?thesis
    by (fastforce simp: send_finished_def get_finished_def ne)
qed

lemma on_msg_send_complete_sinv:
  assumes inv: "sinv W s" and c: "sr_clients s c = Some cd" "cd_done_reqs cd = p # rest"
  shows "\<exists>s'. on_msg_send_complete c s = Inr s' \<and> sinv W s' \<and> (\<forall>q. q \<noteq> p \<longrightarrow> sr_reqs s' q = sr_reqs s q)"
proof -
  let ?s = "s\<lparr>sr_clients := (sr_clients s)(c \<mapsto> cd\<lparr>cd_done_reqs := rest\<rparr>)\<rparr>"
  have "sinv (p # W) ?s" using rinv_from_done [OF inv [unfolded sinv_def] c] unfolding sinv_held by simp
  from deallocate_request_sinv [OF this] show ?thesis
    by (fastforce simp: on_msg_send_complete_def get_client_def c)
qed

lemma work_schedule_lists:
  "wq_inflight (work_schedule spawn hw now p wq) = wq_inflight wq @ [p] \<and> wq_finished (work_schedule spawn hw now p wq) = wq_finished wq"
  using create_threads_frame
  by (auto simp: work_schedule_def need_to_grow_def queued_work_inc_def list_push_def Let_def split: prod.splits)

lemma on_request_sinv:
  assumes inv: "sinv W s" and c: "sr_clients s c = Some cd" and p: "sr_reqs s p = None" and lim: "card (reqs_of (sr_reqs s) c) + 1 < 2 ^ 64"
  shows "\<exists>s'. on_request alloc_ok spawn hw now p c hdr s = Inr s' \<and> sinv W s' \<and> (\<forall>q. q \<noteq> p \<longrightarrow> sr_reqs s' q = sr_reqs s q)"
proof (cases alloc_ok)
  case True
  let ?r = "(NetworkXioRequest_new c hdr)\<lparr>rq_from_pool := True\<rparr>"
  let ?s = "s\<lparr>sr_reqs := (sr_reqs s)(p \<mapsto> ?r), sr_clients := (sr_clients s)(c \<mapsto> cd\<lparr>cd_refcnt := cd_refcnt cd + 1\<rparr>)\<rparr>"
  have "rq_client ?r = c" by (simp add: NetworkXioRequest_new_def)
  from rinv_new [OF inv [unfolded sinv_def] p c this lim] have "sinv (p # W) ?s" by (simp add: sinv_held)
  then have "sinv W (?s\<lparr>sr_wq := handle_request spawn hw now p (sr_wq ?s)\<rparr>)"
    by (rule sinv_change) (simp_all add: handle_request_def work_schedule_lists)
  with True show ?thesis by (simp add: on_request_def allocate_request_def get_client_def c)
next
  case False
  have "sinv W (s\<lparr>sr_cancelled := Suc (sr_cancelled s)\<rparr>)" by (rule sinv_change [OF inv]) simp_all
  with False show ?thesis by (simp add: on_request_def allocate_request_def)
qed

lemma destroy_session_connection_sinv:
  assumes inv: "sinv W s" and c: "sr_clients s c = Some cd"
  shows "\<exists>s'. destroy_session_connection c s = Inr s' \<and> sinv W s' \<and> sr_reqs s' = sr_reqs s"
  using rinv_disconnect [OF inv [unfolded sinv_def] c]
  by (auto simp: destroy_session_connection_def get_client_def c destroy_client_def sinv_def)

section \<open>Workers and completions\<close>

definition aligned_header :: "bytes \<Rightarrow> bool" where
  "aligned_header hdr \<longleftrightarrow> (case unpack_msg hdr (NetworkXioMsg_new Noop) of
     Inl _ \<Rightarrow> True | Inr m \<Rightarrow> nm_opcode m = ReadReq \<longrightarrow> IsDirectIOAligned (nm_offset m))"

lemma free_batch_ok: "IsDirectIOAligned (word_of_int off) \<Longrightarrow> baddr \<noteq> 0 \<Longrightarrow> free_batch (read_batch baddr req sz off) = Inr ()"
  by (simp add: free_batch_def read_batch_def gIOBatchFree_def gIOBatchFree_fragment_def gMempool_free_def)

lemma alloc_buffer_keeps:
  "alloc_buffer xm req = (ret, req') \<Longrightarrow> rq_client req' = rq_client req \<and> rq_op req' = rq_op req"
  by (auto simp: alloc_buffer_def split: if_splits)

definition left_ok :: "NetworkXioRequest \<Rightarrow> bool \<times> NetworkXioRequest \<times> gIOBatch option \<Rightarrow> bool" where
  "left_ok req = (\<lambda>(fin, req', b). rq_client req' = rq_client req \<and> (fin \<longrightarrow> b = None) \<and>
     (\<forall>batch. b = Some batch \<longrightarrow> rq_op req' = ReadRsp \<and> free_batch batch = Inr ()))"

lemma handle_read_total:
  assumes "IsDirectIOAligned (word_of_int off)" "baddr \<noteq> 0"
  shows "\<exists>ret req' b. handle_read has xm read baddr sz off req = Inr (ret, req', b) \<and> left_ok req (ret \<noteq> 0, req', b)"
proof -
  obtain aret req1 where a: "alloc_buffer xm (req\<lparr>rq_op := ReadRsp\<rparr>) = (aret, req1)" by fastforce
  have k: "rq_client req1 = rq_client req" "rq_op req1 = ReadRsp" using alloc_buffer_keeps [OF a] by simp_all
  let ?req2 = "req1\<lparr>rq_data := rq_reg_mem req1, rq_data_len := ucast sz, rq_size := sz, rq_offset := word_of_int off\<rparr>"
  show ?thesis
    by (cases "read (read_batch baddr ?req2 sz off)")
      (simp_all add: handle_read_def a Let_def free_batch_ok [OF assms] left_ok_def pack_reply_def k)
qed

lemma process_request_total:
  assumes al: "aligned_header (rq_header req)" and b: "baddr \<noteq> 0"
  shows "\<exists>out. process_request has xm read baddr req = Inr out \<and> left_ok req out"
proof (cases "unpack_msg (rq_header req) (NetworkXioMsg_new Noop)")
  case (Inl e)
  then show ?thesis by (simp add: process_request_def left_ok_def handle_error_def pack_reply_def)
next
  case (Inr m)
  let ?req = "req\<lparr>rq_opaque := nm_opaque m\<rparr>"
  show ?thesis
  proof (cases "nm_opcode m = ReadReq")
    case True
    then have "IsDirectIOAligned (word_of_int (sint (nm_offset m)))" using al Inr by (simp add: aligned_header_def)
    from handle_read_total [OF this b, of has xm "read (nm_filename m)" "nm_size m" ?req] obtain ret req' b'
      where "handle_read has xm (read (nm_filename m)) baddr (nm_size m) (sint (nm_offset m)) ?req = Inr (ret, req', b')"
        "left_ok ?req (ret \<noteq> 0, req', b')" by blast
    with True Inr show ?thesis by (simp add: process_request_def left_ok_def)
  next
    case False
    with Inr show ?thesis
      by (cases "nm_opcode m")
        (simp_all add: process_request_def Let_def left_ok_def handle_error_def handle_open_def handle_close_def pack_reply_def)
  qed
qed

lemma put_req_sinv:
  assumes "sinv W s" "sr_reqs s p = Some r" "rq_client r' = rq_client r"
  shows "sinv W (put_req p r' s)"
  using rinv_update [OF assms(1) [unfolded sinv_def] assms(2,3)] by (simp add: sinv_def put_req_def)

lemma worker_run_sinv:
  assumes inv: "sinv (p # W) s" and al: "\<And>r. sr_reqs s p = Some r \<Longrightarrow> aligned_header (rq_header r)" and b: "baddr \<noteq> 0"
  shows "\<exists>fin b s'. worker_run has xm read baddr p s = Inr (fin, b, s') \<and> sinv (if fin then W else p # W) s' \<and>
    (fin \<longrightarrow> b = None) \<and> (\<forall>batch. b = Some batch \<longrightarrow> free_batch batch = Inr () \<and> (\<exists>r. sr_reqs s' p = Some r \<and> rq_op r = ReadRsp)) \<and>
    (\<forall>q. q \<noteq> p \<longrightarrow> sr_reqs s' q = sr_reqs s q)"
proof -
  obtain r where r: "sr_reqs s p = Some r" using sinv_request [OF inv, of p] by auto
  obtain fin r' bt where o: "process_request has xm read baddr r = Inr (fin, r', bt)" and lo: "left_ok r (fin, r', bt)"
    using process_request_total [OF al [OF r] b, of has xm read] by (metis prod_cases3)
  let ?s = "put_req p r' s"
  let ?s' = "?s\<lparr>sr_wq := worker_done fin p (sr_wq ?s)\<rparr>"
  have "sinv (p # W) ?s" using lo by (intro put_req_sinv [OF inv r]) (simp add: left_ok_def)
  then have "sinv (if fin then W else p # W) ?s'"
    by (rule sinv_change) (simp_all add: worker_done_def xstop_loop_def list_push_def)
  with lo show ?thesis by (simp add: worker_run_def get_req_def r o Let_def left_ok_def) (auto simp: put_req_def)
qed

lemma completion_run_sinv:
  assumes inv: "sinv (p # W) s" and r: "sr_reqs s p = Some r" "rq_op r = ReadRsp" and fb: "free_batch batch = Inr ()"
  shows "\<exists>s'. completion_run st batch p s = Inr s' \<and> sinv W s' \<and> (\<forall>q. q \<noteq> p \<longrightarrow> sr_reqs s' q = sr_reqs s q)"
proof -
  obtain r' where o: "completion_reply st batch r = Inr (Some r')" and cl: "rq_client r' = rq_client r"
    using r(2) fb by (simp add: completion_reply_def pack_reply_def)
  let ?s = "put_req p r' s"
  let ?s' = "?s\<lparr>sr_wq := worker_bottom_half p (sr_wq ?s)\<rparr>"
  have "sinv (p # W) ?s" by (rule put_req_sinv [OF inv r(1) cl])
  then have "sinv W ?s'"
    by (rule sinv_change) (simp_all add: worker_bottom_half_def xstop_loop_def list_push_def)
  then show ?thesis by (simp add: completion_run_def get_req_def r o Let_def) (simp add: put_req_def)
qed

section \<open>The system\<close>

text \<open>
  Beside the server: the requests the workers are running, those with a batch in the file service, and
  those left without reply and without batch.
\<close>

record srv_sys =
  xv_s :: xserver
  xv_working :: "nat list"
  xv_io :: "(nat \<times> gIOBatch) list"
  xv_lost :: "nat list"

datatype srv_action =
    SConnect bool bool nat
  | SDisconnect nat
  | SRequest bool "nat \<Rightarrow> bool" "64 word" int nat nat bytes
  | STop int
  | SWoken
  | SRun bool xio_mem "string \<Rightarrow> gIOBatch \<Rightarrow> read_outcome" "64 word" nat
  | SStatus gIOStatus nat
  | SReply int
  | SSent nat

fun taken :: "worker_next \<Rightarrow> nat list" where
  "taken (WorkerTakes p) = [p]"
| "taken WorkerWaits = []"
| "taken WorkerExits = []"

definition worker_takes :: "worker_next \<times> workqueue \<Rightarrow> srv_sys \<Rightarrow> srv_sys" where
  "worker_takes out st =
     (case out of (next, wq) \<Rightarrow>
        st\<lparr>xv_s := (xv_s st)\<lparr>sr_wq := wq\<rparr>, xv_working := taken next @ xv_working st\<rparr>)"

fun exec_srv :: "srv_action \<Rightarrow> srv_sys \<Rightarrow> srv_sys res" where
  "exec_srv (SConnect alloc_ok handler_ok c) st =
     rbind (on_session_event alloc_ok handler_ok NewConnection c (xv_s st)) (\<lambda>s. Inr (st\<lparr>xv_s := s\<rparr>))"
| "exec_srv (SDisconnect c) st =
     rbind (on_session_event True True ConnectionTeardown c (xv_s st)) (\<lambda>s. Inr (st\<lparr>xv_s := s\<rparr>))"
| "exec_srv (SRequest alloc_ok spawn hw now p c hdr) st =
     rbind (on_request alloc_ok spawn hw now p c hdr (xv_s st)) (\<lambda>s. Inr (st\<lparr>xv_s := s\<rparr>))"
| "exec_srv (STop now) st = Inr (worker_takes (worker_top now (sr_wq (xv_s st))) st)"
| "exec_srv SWoken st = Inr (worker_takes (worker_woken (sr_wq (xv_s st))) st)"
| "exec_srv (SRun has xm read baddr p) st =
     rbind (worker_run has xm read baddr p (xv_s st)) (\<lambda>(fin, b, s).
     Inr (st\<lparr>xv_s := s, xv_working := remove1 p (xv_working st),
             xv_io := (case b of Some batch \<Rightarrow> (p, batch) # xv_io st | None \<Rightarrow> xv_io st),
             xv_lost := (if \<not> fin \<and> b = None then p # xv_lost st else xv_lost st)\<rparr>))"
| "exec_srv (SStatus iostatus p) st =
     (case map_of (xv_io st) p of
        None \<Rightarrow> Inr st
      | Some batch \<Rightarrow> rbind (completion_run iostatus batch p (xv_s st)) (\<lambda>s.
          Inr (st\<lparr>xv_s := s, xv_io := filter (\<lambda>e. fst e \<noteq> p) (xv_io st)\<rparr>)))"
| "exec_srv (SReply ret) st = rbind (send_finished ret (xv_s st)) (\<lambda>s. Inr (st\<lparr>xv_s := s\<rparr>))"
| "exec_srv (SSent c) st = rbind (on_msg_send_complete c (xv_s st)) (\<lambda>s. Inr (st\<lparr>xv_s := s\<rparr>))"

text \<open>
  When an action can occur: libxio reports a new connection at a fresh address, requests and a
  teardown only for a connection not yet torn down, and a sent reply only where one is outstanding;
  \<open>new\<close> returns an address not in use; a worker runs what it took; the event loop answers what is
  finished. Reads are at aligned offsets, and fewer than \<open>2^64\<close> requests exist.
\<close>

fun srv_ok :: "srv_action \<Rightarrow> srv_sys \<Rightarrow> bool" where
  "srv_ok (SConnect alloc_ok handler_ok c) st \<longleftrightarrow> sr_clients (xv_s st) c = None"
| "srv_ok (SDisconnect c) st \<longleftrightarrow>
     (case sr_clients (xv_s st) c of Some cd \<Rightarrow> \<not> cd_disconnected cd | None \<Rightarrow> False)"
| "srv_ok (SRequest alloc_ok spawn hw now p c hdr) st \<longleftrightarrow>
     (case sr_clients (xv_s st) c of Some cd \<Rightarrow> \<not> cd_disconnected cd | None \<Rightarrow> False) \<and>
     sr_reqs (xv_s st) p = None \<and> card (dom (sr_reqs (xv_s st))) + 1 < 2 ^ 64"
| "srv_ok (STop now) st \<longleftrightarrow> True"
| "srv_ok SWoken st \<longleftrightarrow> True"
| "srv_ok (SRun has xm read baddr p) st \<longleftrightarrow> p \<in> set (xv_working st) \<and> baddr \<noteq> 0 \<and>
     (case sr_reqs (xv_s st) p of Some r \<Rightarrow> aligned_header (rq_header r) | None \<Rightarrow> True)"
| "srv_ok (SStatus iostatus p) st \<longleftrightarrow> p \<in> fst ` set (xv_io st)"
| "srv_ok (SReply ret) st \<longleftrightarrow> \<not> is_finished_empty (sr_wq (xv_s st))"
| "srv_ok (SSent c) st \<longleftrightarrow>
     (case sr_clients (xv_s st) c of Some cd \<Rightarrow> cd_done_reqs cd \<noteq> [] | None \<Rightarrow> False)"

definition srv_step :: "srv_sys \<Rightarrow> srv_sys \<Rightarrow> bool" where
  "srv_step st st' \<longleftrightarrow> (\<exists>a. srv_ok a st \<and> exec_srv a st = Inr st')"

definition srv_init :: "srv_sys \<Rightarrow> bool" where
  "srv_init st \<longleftrightarrow> sr_reqs (xv_s st) = Map.empty \<and> sr_clients (xv_s st) = Map.empty \<and>
     wq_inflight (sr_wq (xv_s st)) = [] \<and> wq_finished (sr_wq (xv_s st)) = [] \<and>
     xv_working st = [] \<and> xv_io st = [] \<and> xv_lost st = []"

definition outside :: "srv_sys \<Rightarrow> nat list" where
  "outside st = xv_working st @ map fst (xv_io st) @ xv_lost st"

section \<open>The invariant\<close>

definition io_ok :: "(nat \<times> gIOBatch) list \<Rightarrow> xserver \<Rightarrow> bool" where
  "io_ok io s \<longleftrightarrow> (\<forall>(p, batch) \<in> set io. free_batch batch = Inr () \<and> (\<exists>r. sr_reqs s p = Some r \<and> rq_op r = ReadRsp))"

definition srv_inv :: "srv_sys \<Rightarrow> bool" where
  "srv_inv st \<longleftrightarrow> sinv (outside st) (xv_s st) \<and> io_ok (xv_io st) (xv_s st)"

lemma io_ok_frame:
  assumes "io_ok io s" "\<And>q. q \<noteq> p \<Longrightarrow> sr_reqs s' q = sr_reqs s q" "p \<notin> fst ` set io"
  shows "io_ok io s'"
proof -
  have "sr_reqs s' q = sr_reqs s q" if "(q, b) \<in> set io" for q b
    using that assms(2) [of q] assms(3) by force
  with assms(1) show ?thesis unfolding io_ok_def by force
qed

lemma outside_io: "p \<notin> set (outside st) \<Longrightarrow> p \<notin> fst ` set (xv_io st)"
  by (simp add: outside_def)

lemma srv_invI:
  assumes "io_ok (xv_io st) (xv_s st)" "p \<notin> set (outside st)" "sinv (outside st) s'" "\<And>q. q \<noteq> p \<Longrightarrow> sr_reqs s' q = sr_reqs (xv_s st) q"
  shows "srv_inv (st\<lparr>xv_s := s'\<rparr>)"
  using io_ok_frame [OF assms(1,4) outside_io [OF assms(2)]] assms(3) by (simp add: srv_inv_def outside_def)

lemma sinv_distinct: "sinv (p # W) s \<Longrightarrow> p \<notin> set W"
  by (simp add: sinv_def rinv_def)

lemma connect_srv:
  assumes inv: "srv_inv st" and ok: "srv_ok (SConnect a h c) st"
  shows "\<exists>st'. exec_srv (SConnect a h c) st = Inr st' \<and> srv_inv st'"
proof -
  have "sinv (outside st) (snd (create_session_connection a h c (xv_s st)))"
    using inv rinv_connect [of _ "sr_reqs (xv_s st)" "sr_clients (xv_s st)" c] ok
    by (auto simp: create_session_connection_def allocate_client_data_def srv_inv_def sinv_def)
  moreover have "sr_reqs (snd (create_session_connection a h c (xv_s st))) = sr_reqs (xv_s st)"
    by (simp add: create_session_connection_def allocate_client_data_def)
  ultimately show ?thesis using inv by (simp add: on_session_event_def srv_inv_def outside_def io_ok_def)
qed

lemma disconnect_srv:
  assumes inv: "srv_inv st" and ok: "srv_ok (SDisconnect c) st"
  shows "\<exists>st'. exec_srv (SDisconnect c) st = Inr st' \<and> srv_inv st'"
proof -
  obtain cd where c: "sr_clients (xv_s st) c = Some cd" using ok by (auto split: option.splits)
  from destroy_session_connection_sinv [OF _ c] inv obtain s' where
    "destroy_session_connection c (xv_s st) = Inr s'" "sinv (outside st) s'" "sr_reqs s' = sr_reqs (xv_s st)"
    unfolding srv_inv_def by blast
  with inv show ?thesis by (simp add: on_session_event_def srv_inv_def outside_def io_ok_def)
qed

lemma request_srv:
  assumes inv: "srv_inv st" and ok: "srv_ok (SRequest a sp hw now p c hdr) st"
  shows "\<exists>st'. exec_srv (SRequest a sp hw now p c hdr) st = Inr st' \<and> srv_inv st'"
proof -
  obtain cd where c: "sr_clients (xv_s st) c = Some cd" using ok by (auto split: option.splits)
  have i: "sinv (outside st) (xv_s st)" "io_ok (xv_io st) (xv_s st)" using inv by (simp_all add: srv_inv_def)
  have p: "sr_reqs (xv_s st) p = None" using ok by simp
  have "card (reqs_of (sr_reqs (xv_s st)) c) \<le> card (dom (sr_reqs (xv_s st)))"
    using i(1) by (intro card_mono) (auto simp: sinv_def rinv_def reqs_of_def)
  then have "card (reqs_of (sr_reqs (xv_s st)) c) + 1 < 2 ^ 64" using ok by simp
  from on_request_sinv [OF i(1) c p this] obtain s' where
    s': "on_request a sp hw now p c hdr (xv_s st) = Inr s'" "sinv (outside st) s'" "\<And>q. q \<noteq> p \<Longrightarrow> sr_reqs s' q = sr_reqs (xv_s st) q"
    by blast
  have "p \<notin> set (outside st)" using i(1) p by (auto simp: sinv_def rinv_def)
  from srv_invI [OF i(2) this s'(2,3)] s'(1) show ?thesis by simp
qed

lemma worker_retry_lists:
  "worker_retry wq = (next, wq') \<Longrightarrow> mset (wq_inflight wq') + mset (taken next) = mset (wq_inflight wq) \<and> wq_finished wq' = wq_finished wq"
  by (cases "wq_inflight wq") (auto simp: worker_retry_def)

lemma need_to_shrink_lists:
  "wq_inflight (snd (need_to_shrink now wq)) = wq_inflight wq \<and> wq_finished (snd (need_to_shrink now wq)) = wq_finished wq"
  by (simp add: need_to_shrink_def Let_def)

lemma worker_top_lists:
  assumes "worker_top now wq = (next, wq')"
  shows "mset (wq_inflight wq') + mset (taken next) = mset (wq_inflight wq) \<and> wq_finished wq' = wq_finished wq"
proof -
  obtain shrink wq1 where n: "need_to_shrink now wq = (shrink, wq1)" by fastforce
  with need_to_shrink_lists [of now wq] assms worker_retry_lists [of wq1 "next" wq'] show ?thesis
    by (cases shrink) (auto simp: worker_top_def)
qed

lemma worker_woken_lists:
  assumes "worker_woken wq = (next, wq')"
  shows "mset (wq_inflight wq') + mset (taken next) = mset (wq_inflight wq) \<and> wq_finished wq' = wq_finished wq"
  using assms worker_retry_lists [of wq "next" wq'] by (auto simp: worker_woken_def split: if_splits)

lemma worker_takes_srv:
  assumes inv: "srv_inv st" and out: "mset (wq_inflight wq') + mset (taken next) = mset (wq_inflight (sr_wq (xv_s st))) \<and>
    wq_finished wq' = wq_finished (sr_wq (xv_s st))"
  shows "srv_inv (worker_takes (next, wq') st)"
proof -
  let ?st = "worker_takes (next, wq') st"
  have "sinv (outside st) (xv_s st)" using inv by (simp add: srv_inv_def)
  moreover have "mset (wq_inflight (sr_wq (xv_s ?st))) + mset (wq_finished (sr_wq (xv_s ?st))) + mset (outside ?st) =
        mset (wq_inflight (sr_wq (xv_s st))) + mset (wq_finished (sr_wq (xv_s st))) + mset (outside st)"
    using out [THEN conjunct1, symmetric] out [THEN conjunct2] by (simp add: worker_takes_def outside_def)
  ultimately have "sinv (outside ?st) (xv_s ?st)" by (rule_tac sinv_change) (simp_all add: worker_takes_def)
  moreover have "io_ok (xv_io ?st) (xv_s ?st)" using inv by (simp add: srv_inv_def io_ok_def worker_takes_def)
  ultimately show ?thesis by (simp add: srv_inv_def)
qed

lemma run_srv:
  assumes inv: "srv_inv st" and ok: "srv_ok (SRun has xm read baddr p) st"
  shows "\<exists>st'. exec_srv (SRun has xm read baddr p) st = Inr st' \<and> srv_inv st'"
proof -
  let ?W = "remove1 p (xv_working st) @ map fst (xv_io st) @ xv_lost st"
  have m: "mset (outside st) = mset (p # ?W)" using ok by (simp add: outside_def)
  have i: "sinv (p # ?W) (xv_s st)" "io_ok (xv_io st) (xv_s st)"
    using inv m sinv_change [of "outside st" "xv_s st" "xv_s st" "p # ?W"] by (simp_all add: srv_inv_def)
  have al: "aligned_header (rq_header r)" if "sr_reqs (xv_s st) p = Some r" for r using ok that by simp
  have b: "baddr \<noteq> 0" using ok by simp
  obtain fin bt s' where r: "worker_run has xm read baddr p (xv_s st) = Inr (fin, bt, s')" "sinv (if fin then ?W else p # ?W) s'"
      "fin \<longrightarrow> bt = None" "\<And>batch. bt = Some batch \<Longrightarrow> free_batch batch = Inr () \<and> (\<exists>r. sr_reqs s' p = Some r \<and> rq_op r = ReadRsp)"
      "\<And>q. q \<noteq> p \<Longrightarrow> sr_reqs s' q = sr_reqs (xv_s st) q"
    using worker_run_sinv [OF i(1) al b, of has xm read] by blast
  have "p \<notin> fst ` set (xv_io st)" using sinv_distinct [OF i(1)] by simp
  from io_ok_frame [OF i(2) r(5) this] have io: "io_ok (xv_io st) s'" by simp
  let ?st = "st\<lparr>xv_s := s', xv_working := remove1 p (xv_working st),
             xv_io := (case bt of Some batch \<Rightarrow> (p, batch) # xv_io st | None \<Rightarrow> xv_io st),
             xv_lost := (if \<not> fin \<and> bt = None then p # xv_lost st else xv_lost st)\<rparr>"
  have "sinv (outside ?st) s'"
    using r(3) by (intro sinv_change [OF r(2)]) (auto simp: outside_def split: option.splits)
  moreover have "io_ok (xv_io ?st) s'" using io r(4) by (auto simp: io_ok_def split: option.splits)
  ultimately show ?thesis using r(1) by (simp add: srv_inv_def)
qed

lemma mset_filter_key:
  "distinct (map fst xs) \<Longrightarrow> (p, b) \<in> set xs \<Longrightarrow> mset (map fst xs) = mset (p # map fst (filter (\<lambda>e. fst e \<noteq> p) xs))"
proof (induction xs)
  case (Cons x xs)
  show ?case
  proof (cases "fst x = p")
    case True
    then have "\<forall>e \<in> set xs. fst e \<noteq> p" using Cons.prems(1) by (metis distinct.simps(2) image_eqI list.set_map list.simps(9))
    then have "filter (\<lambda>e. fst e \<noteq> p) xs = xs" by simp
    with True show ?thesis by simp
  next
    case False
    with Cons show ?thesis by auto
  qed
qed simp

lemma status_srv:
  assumes inv: "srv_inv st" and ok: "srv_ok (SStatus iostatus p) st"
  shows "\<exists>st'. exec_srv (SStatus iostatus p) st = Inr st' \<and> srv_inv st'"
proof -
  let ?io = "filter (\<lambda>e. fst e \<noteq> p) (xv_io st)"
  let ?W = "xv_working st @ map fst ?io @ xv_lost st"
  obtain batch where b: "map_of (xv_io st) p = Some batch" "(p, batch) \<in> set (xv_io st)"
    using ok by (metis map_of_SomeD map_of_eq_None_iff option.exhaust srv_ok.simps(7))
  have d: "distinct (map fst (xv_io st))" using inv by (simp add: srv_inv_def sinv_def rinv_def outside_def)
  have m: "mset (outside st) = mset (p # ?W)" using mset_filter_key [OF d b(2)] by (simp add: outside_def)
  have i: "sinv (p # ?W) (xv_s st)" "io_ok (xv_io st) (xv_s st)"
    using inv m sinv_change [of "outside st" "xv_s st" "xv_s st" "p # ?W"] by (simp_all add: srv_inv_def)
  obtain r where r: "sr_reqs (xv_s st) p = Some r" "rq_op r = ReadRsp" "free_batch batch = Inr ()"
    using i(2) b(2) unfolding io_ok_def by blast
  obtain s' where s': "completion_run iostatus batch p (xv_s st) = Inr s'" "sinv ?W s'" "\<And>q. q \<noteq> p \<Longrightarrow> sr_reqs s' q = sr_reqs (xv_s st) q"
    using completion_run_sinv [OF i(1) r, of iostatus] by blast
  have "io_ok ?io (xv_s st)" using i(2) by (auto simp: io_ok_def)
  from io_ok_frame [OF this s'(3)] have "io_ok ?io s'" by auto
  with s' b(1) show ?thesis by (simp add: srv_inv_def outside_def)
qed

lemma reply_srv:
  assumes inv: "srv_inv st" and ok: "srv_ok (SReply ret) st"
  shows "\<exists>st'. exec_srv (SReply ret) st = Inr st' \<and> srv_inv st'"
proof -
  have i: "sinv (outside st) (xv_s st)" "io_ok (xv_io st) (xv_s st)" using inv by (simp_all add: srv_inv_def)
  obtain p rest where f: "wq_finished (sr_wq (xv_s st)) = p # rest"
    using ok by (auto simp: is_finished_empty_def neq_Nil_conv)
  obtain s' where s': "send_finished ret (xv_s st) = Inr s'" "sinv (outside st) s'" "\<And>q. q \<noteq> p \<Longrightarrow> sr_reqs s' q = sr_reqs (xv_s st) q"
    using send_finished_sinv [OF i(1) f, of ret] by blast
  have "p \<notin> set (outside st)" using i(1) f by (simp add: sinv_def rinv_def)
  from srv_invI [OF i(2) this s'(2,3)] s'(1) show ?thesis by simp
qed

lemma sent_srv:
  assumes inv: "srv_inv st" and ok: "srv_ok (SSent c) st"
  shows "\<exists>st'. exec_srv (SSent c) st = Inr st' \<and> srv_inv st'"
proof -
  have i: "sinv (outside st) (xv_s st)" "io_ok (xv_io st) (xv_s st)" using inv by (simp_all add: srv_inv_def)
  obtain cd p rest where c: "sr_clients (xv_s st) c = Some cd" "cd_done_reqs cd = p # rest"
    using ok by (auto simp: neq_Nil_conv split: option.splits)
  obtain s' where s': "on_msg_send_complete c (xv_s st) = Inr s'" "sinv (outside st) s'" "\<And>q. q \<noteq> p \<Longrightarrow> sr_reqs s' q = sr_reqs (xv_s st) q"
    using on_msg_send_complete_sinv [OF i(1) c] by blast
  have "client_ok (wq_inflight (sr_wq (xv_s st)) @ wq_finished (sr_wq (xv_s st)) @ outside st) (sr_reqs (xv_s st)) c cd"
    using i(1) c(1) by (simp add: sinv_def rinv_def)
  then have "p \<notin> set (outside st)" using c(2) by (simp add: client_ok_def)
  from srv_invI [OF i(2) this s'(2,3)] s'(1) show ?thesis by simp
qed

lemma srv_progress:
  assumes "srv_inv st" "srv_ok a st"
  shows "\<exists>st'. exec_srv a st = Inr st' \<and> srv_inv st'"
proof (cases a)
  case (STop now)
  obtain n wq' where w: "worker_top now (sr_wq (xv_s st)) = (n, wq')" by fastforce
  with worker_takes_srv [OF assms(1) worker_top_lists [OF w]] STop show ?thesis by simp
next
  case SWoken
  obtain n wq' where w: "worker_woken (sr_wq (xv_s st)) = (n, wq')" by fastforce
  with worker_takes_srv [OF assms(1) worker_woken_lists [OF w]] SWoken show ?thesis by simp
next
  case (SConnect a h c)
  show ?thesis using connect_srv [OF assms(1)] assms(2) unfolding SConnect by blast
next
  case (SDisconnect c)
  show ?thesis using disconnect_srv [OF assms(1)] assms(2) unfolding SDisconnect by blast
next
  case (SRequest a sp hw now p c hdr)
  show ?thesis using request_srv [OF assms(1)] assms(2) unfolding SRequest by blast
next
  case (SRun has xm read baddr p)
  show ?thesis using run_srv [OF assms(1)] assms(2) unfolding SRun by blast
next
  case (SStatus iostatus p)
  show ?thesis using status_srv [OF assms(1)] assms(2) unfolding SStatus by blast
next
  case (SReply ret)
  show ?thesis using reply_srv [OF assms(1)] assms(2) unfolding SReply by blast
next
  case (SSent c)
  show ?thesis using sent_srv [OF assms(1)] assms(2) unfolding SSent by blast
qed

interpretation srvs: invariant_system srv_init srv_step srv_inv
proof unfold_locales
  show "srv_inv st" if "srv_init st" for st
    using that by (simp add: srv_init_def srv_inv_def sinv_def rinv_def io_ok_def outside_def)
  show "srv_inv st'" if "srv_inv st" "srv_step st st'" for st st'
    using srv_progress [OF that(1)] that(2) unfolding srv_step_def by fastforce
qed

section \<open>Safety of the server\<close>

text \<open>
  C3. In every reachable state of the server, whatever the order in which connections come and go, workers
  and completions run and replies are sent, the next event is handled without an access to a deleted
  request or connection. The connection of every request still exists, the reference count of a
  connection is the number of its requests, a connection torn down by the client is kept only while
  it has requests, and no request is at once queued, at a worker, in the file service, finished or
  waiting for the confirmation of its reply.
\<close>

theorem server_requests_safe:
  assumes "reach srv_init srv_step st" and "srv_ok a st"
  shows "(\<exists>st'. exec_srv a st = Inr st') \<and>
    (\<forall>p r. sr_reqs (xv_s st) p = Some r \<longrightarrow> sr_clients (xv_s st) (rq_client r) \<noteq> None) \<and>
    (\<forall>c cd. sr_clients (xv_s st) c = Some cd \<longrightarrow>
       unat (cd_refcnt cd) = card {p. \<exists>r. sr_reqs (xv_s st) p = Some r \<and> rq_client r = c} \<and>
       (cd_disconnected cd \<longrightarrow> (\<exists>p r. sr_reqs (xv_s st) p = Some r \<and> rq_client r = c)) \<and>
       distinct (wq_inflight (sr_wq (xv_s st)) @ wq_finished (sr_wq (xv_s st)) @ xv_working st @ map fst (xv_io st) @
         xv_lost st @ cd_done_reqs cd))"
proof -
  have inv: "srv_inv st" by (rule srvs.inv_reach [OF assms(1)])
  then have s: "sinv (outside st) (xv_s st)" by (simp add: srv_inv_def)
  show ?thesis
  proof (intro conjI allI impI)
    show "\<exists>st'. exec_srv a st = Inr st'" using srv_progress [OF inv assms(2)] by blast
    show "sr_clients (xv_s st) (rq_client r) \<noteq> None" if "sr_reqs (xv_s st) p = Some r" for p r
      using rinv_placed [OF s [unfolded sinv_def] that] by auto
  next
    fix c cd
    assume c: "sr_clients (xv_s st) c = Some cd"
    let ?P = "wq_inflight (sr_wq (xv_s st)) @ wq_finished (sr_wq (xv_s st)) @ outside st"
    have ok: "client_ok ?P (sr_reqs (xv_s st)) c cd" and d: "distinct ?P" using s c by (simp_all add: sinv_def rinv_def)
    show u: "unat (cd_refcnt cd) = card {p. \<exists>r. sr_reqs (xv_s st) p = Some r \<and> rq_client r = c}"
      using ok by (simp add: client_ok_def reqs_of_def)
    show "\<exists>p r. sr_reqs (xv_s st) p = Some r \<and> rq_client r = c" if "cd_disconnected cd"
    proof (rule ccontr)
      assume "\<not> (\<exists>p r. sr_reqs (xv_s st) p = Some r \<and> rq_client r = c)"
      then have "{p. \<exists>r. sr_reqs (xv_s st) p = Some r \<and> rq_client r = c} = {}" by blast
      then have "unat (cd_refcnt cd) = 0" unfolding u by (simp only: card.empty)
      with ok that show False by (simp add: client_ok_def unat_eq_zero)
    qed
    have "set (cd_done_reqs cd) \<inter> set ?P = {}" "distinct (cd_done_reqs cd)" using ok by (simp_all add: client_ok_def)
    then have "distinct (?P @ cd_done_reqs cd)" using d unfolding distinct_append by blast
    then show "distinct (wq_inflight (sr_wq (xv_s st)) @ wq_finished (sr_wq (xv_s st)) @ xv_working st @ map fst (xv_io st) @
         xv_lost st @ cd_done_reqs cd)" by (simp add: outside_def)
  qed
qed

definition demo_server :: srv_sys where
  "demo_server = \<lparr>xv_s = \<lparr>sr_reqs = Map.empty, sr_clients = Map.empty, sr_wq = workqueue_blank, sr_destroyed = [], sr_freed = [],
     sr_cancelled = 0, sr_sent = []\<rparr>, xv_working = [], xv_io = [], xv_lost = []\<rparr>"

text \<open>A connection is made, sends a request and is torn down; a worker then takes the request.\<close>

definition demo_events :: "srv_action list" where
  "demo_events = [SConnect True True 1, SRequest True (\<lambda>_. False) 8 0 5 1 [], SDisconnect 1]"

lemma demo_received:
  "\<exists>st. rfold exec_srv demo_events demo_server = Inr st \<and> reach srv_init srv_step st \<and>
     sr_clients (xv_s st) = [1 \<mapsto> \<lparr>cd_disconnected = True, cd_refcnt = 1, cd_done_reqs = []\<rparr>]"
proof -
  obtain s1 where s1: "exec_srv (SConnect True True 1) demo_server = Inr s1"
      "sr_clients (xv_s s1) = [1 \<mapsto> \<lparr>cd_disconnected = False, cd_refcnt = 0, cd_done_reqs = []\<rparr>]" "sr_reqs (xv_s s1) = Map.empty"
    by (simp add: demo_server_def on_session_event_def create_session_connection_def allocate_client_data_def)
  obtain s2 where s2: "exec_srv (SRequest True (\<lambda>_. False) 8 0 5 1 []) s1 = Inr s2"
      "sr_clients (xv_s s2) = [1 \<mapsto> \<lparr>cd_disconnected = False, cd_refcnt = 1, cd_done_reqs = []\<rparr>]"
    using s1(2,3) by (simp add: on_request_def allocate_request_def get_client_def)
  obtain s3 where s3: "exec_srv (SDisconnect 1) s2 = Inr s3"
      "sr_clients (xv_s s3) = [1 \<mapsto> \<lparr>cd_disconnected = True, cd_refcnt = 1, cd_done_reqs = []\<rparr>]"
    using s2(2) by (simp add: on_session_event_def destroy_session_connection_def get_client_def)
  have "srv_init demo_server" by (simp add: srv_init_def demo_server_def workqueue_blank_def)
  then have "reach srv_init srv_step demo_server" by (rule reach_init)
  moreover have "srv_ok (SConnect True True 1) demo_server" "srv_ok (SRequest True (\<lambda>_. False) 8 0 5 1 []) s1" "srv_ok (SDisconnect 1) s2"
    using s1(2,3) s2(2) by (simp_all add: demo_server_def)
  then have "srv_step demo_server s1" "srv_step s1 s2" "srv_step s2 s3"
    using s1(1) s2(1) s3(1) unfolding srv_step_def by blast+
  ultimately have "reach srv_init srv_step s3" by (blast intro: reach_step)
  moreover have "rfold exec_srv demo_events demo_server = Inr s3"
    using s1(1) s2(1) s3(1) by (simp only: demo_events_def rfold.simps rbind_simps)
  ultimately show ?thesis using s3(2) by blast
qed

theorem server_requests_safe_witness:
  "\<exists>st st' cd. rfold exec_srv demo_events demo_server = Inr st \<and> exec_srv SWoken st = Inr st' \<and>
     sr_clients (xv_s st) 1 = Some cd \<and> cd_disconnected cd \<and> unat (cd_refcnt cd) = card {p. \<exists>r. sr_reqs (xv_s st) p = Some r \<and> rq_client r = 1}"
proof -
  obtain s3 where s3: "rfold exec_srv demo_events demo_server = Inr s3" "reach srv_init srv_step s3"
      "sr_clients (xv_s s3) = [1 \<mapsto> \<lparr>cd_disconnected = True, cd_refcnt = 1, cd_done_reqs = []\<rparr>]"
    using demo_received by blast
  have "srv_ok SWoken s3" by simp
  then have "(\<exists>st'. exec_srv SWoken s3 = Inr st') \<and>
      unat (1 :: 64 word) = card {p. \<exists>r. sr_reqs (xv_s s3) p = Some r \<and> rq_client r = 1}"
    using s3(2,3) server_requests_safe [of s3 SWoken, THEN conjunct1]
      server_requests_safe [of s3 SWoken, THEN conjunct2, THEN conjunct2, rule_format, of 1, THEN conjunct1] by auto
  with s3(1,3) show ?thesis by auto
qed

end
