(* ===== verification/Remote_Read.thy ===== *)
theory Remote_Read
  imports Xio_Client_System Xio_Server_System Xio_IOHandler_Props
begin

text \<open>
  A read from end to end: the message of the client, the handler of the server, the status record of
  the file service, the reply and its effect on the request of the client.
\<close>

section \<open>The client's side of a reply\<close>

lemma on_response_completes:
  assumes E: "env_ok E" and inv0: "cinv E qd st" and p: "p \<in> set (cw_sent (cs_w st))"
    and x: "cw_msgs (cs_w st) p = Some x" "xq_opaque x = Some a"
    and u: "unpack_msg header (NetworkXioMsg_new Noop) = Inr m" "unat (nm_opaque m) = p" and room: "stats_room (cs_w st)"
  shows "\<exists>w'. on_response E header (cs_w st) = Inr w' \<and> (\<exists>r. cw_reqs w' a = Some r \<and> completed_with (nm_retval m) (nm_errval m) r) \<and>
    cw_giocbs w' = cw_giocbs (cs_w st) \<and> cw_msgs w' p = None"
proof -
  obtain es0 where es0: "cinv_es E qd es0 st" using inv0 by (auto simp: cinv_def)
  have "p \<in> set (outstanding st)" using p by (simp add: outstanding_def)
  then obtain a' n es where inv: "cinv_es E qd ((p, a', n) # es) st" using pick_entry [OF es0] by blast
  then have o: "out_ok E (cs_spare st) ((p, a', n) # es) (cs_w st)" by (simp add: cinv_es_def)
  then have a': "a' = a" using x by (auto simp: out_ok_def entry_ok_def)
  obtain w1 w2 where w: "update_stats E (Some a) (nm_retval m < 0) (cs_w st) = Inr w1"
      "ovs_xio_aio_complete_request (Some a) (nm_retval m) (nm_errval m) w1 = Inr w2" "queue_same (cs_w st) w2"
      "\<exists>r. cw_reqs w2 a = Some r \<and> completed_with (nm_retval m) (nm_errval m) r"
    using answer_out [OF E o room, of "nm_retval m < 0" "nm_retval m" "nm_errval m"] a' by blast
  then show ?thesis
    using u x by (simp add: on_response_def at_addr_def Let_def delete_msg_def req_queue_release_def release_response_def upd_nc_def
        queue_same_def)
qed

section \<open>The server's side\<close>

lemma read_msg_unpacks:
  assumes "length filename < 2 ^ 32"
  shows "unpack_msg (xq_s_msg (read_msg p filename buf sz off opaque)) m0 =
    Inr ((NetworkXioMsg_new ReadReq)\<lparr>nm_opaque := of_nat p, nm_size := sz, nm_offset := off, nm_filename := filename\<rparr>)"
proof -
  let ?m = "(NetworkXioMsg_new ReadReq)\<lparr>nm_opaque := of_nat p, nm_size := sz, nm_offset := off, nm_filename := filename\<rparr>"
  have "xq_s_msg (read_msg p filename buf sz off opaque) = pack_msg ?m"
    by (simp add: read_msg_def xio_msg_prepare_def xio_msg_new_def NetworkXioMsg_new_def)
  moreover have "msg_ok ?m" using assms by (simp add: msg_ok_def opcode_ok_def int_range_def NetworkXioMsg_new_def)
  ultimately show ?thesis using unpack_pack_msg [of ?m "[]" m0] by simp
qed

lemma server_reads:
  assumes len: "length filename < 2 ^ 32" and al: "IsDirectIOAligned off" "baddr \<noteq> 0" and pool: "fst (xm_pool xm) = 0"
    and err: "int_range 32 (st_errorCode ios)"
    and rd: "read filename [\<lparr>fr_completionId = baddr, fr_offset = sint off, fr_size = sz, fr_addr = snd (xm_pool xm)\<rparr>] = ReadReturned 0"
  shows "\<exists>req1 req2. process_request True xm read baddr (NetworkXioRequest_new c (xq_s_msg (read_msg p filename buf sz off opaque))) =
      Inr (False, req1, Some [\<lparr>fr_completionId = baddr, fr_offset = sint off, fr_size = sz, fr_addr = snd (xm_pool xm)\<rparr>]) \<and>
    completion_reply ios [\<lparr>fr_completionId = baddr, fr_offset = sint off, fr_size = sz, fr_addr = snd (xm_pool xm)\<rparr>] req1 =
      Inr (Some req2) \<and>
    unpack_msg (rq_s_msg req2) (NetworkXioMsg_new Noop) = Inr ((NetworkXioMsg_new ReadRsp)\<lparr>nm_opaque := of_nat p,
      nm_retval := (if st_errorCode ios = 0 then sint sz else -1), nm_errval := st_errorCode ios\<rparr>)"
proof -
  let ?b = "[\<lparr>fr_completionId = baddr, fr_offset = sint off, fr_size = sz, fr_addr = snd (xm_pool xm)\<rparr>]"
  let ?req = "NetworkXioRequest_new c (xq_s_msg (read_msg p filename buf sz off opaque))"
  let ?req1 = "?req\<lparr>rq_opaque := of_nat p, rq_op := ReadRsp, rq_reg_mem := snd (xm_pool xm), rq_from_pool := True,
     rq_data := snd (xm_pool xm), rq_data_len := ucast sz, rq_size := sz, rq_offset := off\<rparr>"
  let ?req2 = "if st_errorCode ios = 0 then ?req1\<lparr>rq_retval := sint sz, rq_errval := 0\<rparr> else ?req1\<lparr>rq_retval := -1, rq_errval := st_errorCode ios\<rparr>"
  have h: "rq_header ?req = xq_s_msg (read_msg p filename buf sz off opaque)" by (simp add: NetworkXioRequest_new_def)
  have p: "process_request True xm read baddr ?req = Inr (False, ?req1, Some ?b)"
    using pool rd read_msg_unpacks [OF len, of p buf sz off opaque "NetworkXioMsg_new Noop"]
    by (simp add: process_request_def h handle_read_def alloc_buffer_def read_batch_def Let_def NetworkXioMsg_new_def)
  have "free_batch ?b = Inr ()"
    using free_batch_ok [of "sint off" baddr "?req1" sz] al by (simp add: read_batch_def)
  then have c: "completion_reply ios ?b ?req1 = Inr (Some (pack_reply ?req2))" by (simp add: completion_reply_def)
  have "unpack_msg (rq_s_msg (pack_reply ?req2)) (NetworkXioMsg_new Noop) = Inr (reply_msg ?req2)"
    using err sint_ge [of sz] sint_lt [of sz] by (intro reply_unpacks) (auto simp: opcode_ok_def int_range_def)
  moreover have "reply_msg ?req2 = (NetworkXioMsg_new ReadRsp)\<lparr>nm_opaque := of_nat p,
      nm_retval := (if st_errorCode ios = 0 then sint sz else -1), nm_errval := st_errorCode ios\<rparr>"
    by (simp add: reply_msg_def NetworkXioMsg_new_def)
  ultimately show ?thesis using p c by auto
qed

section \<open>End to end\<close>

lemma outstanding_addr:
  assumes "cinv E qd st" "p \<in> set (outstanding st)"
  shows "p < 2 ^ 64"
proof -
  obtain es where es: "cinv_es E qd es st" using assms(1) by (auto simp: cinv_def)
  obtain a n es' where "cinv_es E qd ((p, a, n) # es') st" using pick_entry [OF es assms(2)] by blast
  then show ?thesis by (auto simp: cinv_es_def out_ok_def entry_ok_def)
qed

lemma uint_small:
  fixes w :: "64 word"
  assumes "unat w < 2 ^ 31"
  shows "uint w < 2 ^ 31"
proof -
  have "int (unat w) < int (2 ^ 31)" using assms by (simp only: of_nat_less_iff)
  then show ?thesis by simp
qed

lemma sint_below_31:
  fixes w :: "64 word"
  assumes "unat w < 2 ^ 31"
  shows "sint w = int (unat w)"
proof -
  have "- (2 ^ 63) \<le> uint w" by (rule order_trans [of _ 0]) simp_all
  moreover have "uint w < 2 ^ 63" by (rule less_le_trans [OF uint_small [OF assms]]) simp
  ultimately have "signed_take_bit 63 (uint w) = uint w" by (rule signed_take_bit_int_eq_self)
  then show ?thesis by (simp add: sint_uint)
qed

lemma to_int32_small: "0 \<le> i \<Longrightarrow> i < 2 ^ 31 \<Longrightarrow> to_int32 i = i"
  by (simp add: to_int32_def signed_take_bit_int_eq_self sint_sbintrunc')

text \<open>
  C9. A remote read means what it says. Let a message of \<open>xio_send_read_request\<close> be on its way, in any
  reachable state of the client. The server's handler reads exactly the file name, size and offset
  given by the caller, into the registered buffer; when the file service accepts the read and later
  reports a status, the server packs a reply, and the client's handler of that reply completes the
  request of this message: \<open>aio_return\<close> then returns the number of bytes asked for when the status was
  success (for sizes below \<open>2^31\<close>), and otherwise a negative error number, with \<open>errno\<close> set to the
  status as the file service reported it.
\<close>

theorem remote_read:
  assumes "env_ok E" "reach (cli_init E qd) (cli_step E) st" "stats_room (cs_w st)"
    and "p \<in> set (cw_sent (cs_w st))" "cw_msgs (cs_w st) p = Some (read_msg p filename buf sz off (Some a))"
    and "cw_giocbs (cs_w st) gp = Some g" "gb_request g = Some a"
    and "length filename < 2 ^ 32" "IsDirectIOAligned off" "unat sz < 2 ^ 31"
    and "baddr \<noteq> 0" "fst (xm_pool xm) = 0" "int_range 32 (st_errorCode ios)"
    and "read filename [\<lparr>fr_completionId = baddr, fr_offset = sint off, fr_size = sz, fr_addr = snd (xm_pool xm)\<rparr>] = ReadReturned 0"
  shows "\<exists>req1 req2 w'.
    process_request True xm read baddr (NetworkXioRequest_new c (xq_s_msg (read_msg p filename buf sz off (Some a)))) =
      Inr (False, req1, Some [\<lparr>fr_completionId = baddr, fr_offset = sint off, fr_size = sz, fr_addr = snd (xm_pool xm)\<rparr>]) \<and>
    completion_reply ios [\<lparr>fr_completionId = baddr, fr_offset = sint off, fr_size = sz, fr_addr = snd (xm_pool xm)\<rparr>] req1 = Inr (Some req2) \<and>
    on_response E (rq_s_msg req2) (cs_w st) = Inr w' \<and>
    aio_return (Some ctx) (Some gp) w' =
      Inr (if st_errorCode ios = 0 then int (unat sz) else - \<bar>st_errorCode ios\<bar>, set_errno (st_errorCode ios) w')"
proof -
  let ?b = "[\<lparr>fr_completionId = baddr, fr_offset = sint off, fr_size = sz, fr_addr = snd (xm_pool xm)\<rparr>]"
  let ?m = "(NetworkXioMsg_new ReadRsp)\<lparr>nm_opaque := of_nat p, nm_retval := (if st_errorCode ios = 0 then sint sz else -1),
      nm_errval := st_errorCode ios\<rparr>"
  obtain req1 req2 where sv: "process_request True xm read baddr (NetworkXioRequest_new c (xq_s_msg (read_msg p filename buf sz off (Some a)))) =
      Inr (False, req1, Some ?b)" "completion_reply ios ?b req1 = Inr (Some req2)"
      "unpack_msg (rq_s_msg req2) (NetworkXioMsg_new Noop) = Inr ?m"
    using server_reads [where read = read and opaque = "Some a" and c = c and p = p and buf = buf, OF assms(8,9,11,12,13,14)] by blast
  have inv: "cinv E (sint qd) st" using clis.inv_reach [OF assms(2)] assms(1) by blast
  have "p < 2 ^ 64" using outstanding_addr [OF inv] assms(4) by (simp add: outstanding_def)
  then have op: "unat (nm_opaque ?m) = p" by (simp add: NetworkXioMsg_new_def unsigned_of_nat take_bit_nat_eq_self)
  have x: "xq_opaque (read_msg p filename buf sz off (Some a)) = Some a"
    by (simp add: read_msg_def xio_msg_prepare_def xio_msg_new_def)
  obtain w' r where w: "on_response E (rq_s_msg req2) (cs_w st) = Inr w'" "cw_reqs w' a = Some r"
      "completed_with (nm_retval ?m) (nm_errval ?m) r" "cw_giocbs w' = cw_giocbs (cs_w st)"
    using on_response_completes [OF assms(1) inv assms(4,5) x sv(3) op assms(3)] by blast
  have rr: "ar_errno r = st_errorCode ios" "ar_failed r = (st_errorCode ios \<noteq> 0)" "st_errorCode ios = 0 \<longrightarrow> ar_rv r = int (unat sz)"
    using w(3) sint_below_31 [OF assms(10)] by (auto simp: completed_with_def)
  have "aio_return (Some ctx) (Some gp) w' =
      Inr (if st_errorCode ios = 0 then int (unat sz) else - \<bar>st_errorCode ios\<bar>, set_errno (st_errorCode ios) w')"
    using w(2,4) assms(6,7) uint_small [OF assms(10)] rr by (simp add: aio_return_def at_addr_def request_of_def GetNegative_def to_int32_small)
  with sv w(1) show ?thesis by blast
qed

theorem remote_read_witness:
  "\<exists>(st :: cli_sys) req1 req2 w'. cw_msgs (cs_w st) 6 = Some (read_msg 6 ''f'' 4096 512 0 (Some 5)) \<and>
     process_request True \<lparr>xm_pool = (0, 8192), xm_mem = (0, 0)\<rparr> (\<lambda>_ _. ReadReturned 0) 16
       (NetworkXioRequest_new 1 (xq_s_msg (read_msg 6 ''f'' 4096 512 0 (Some 5)))) =
       Inr (False, req1, Some [\<lparr>fr_completionId = 16, fr_offset = 0, fr_size = 512, fr_addr = 8192\<rparr>]) \<and>
     completion_reply \<lparr>st_completionId = 16, st_errorCode = 0\<rparr> [\<lparr>fr_completionId = 16, fr_offset = 0, fr_size = 512, fr_addr = 8192\<rparr>] req1 =
       Inr (Some req2) \<and>
     on_response tick_env (rq_s_msg req2) (cs_w st) = Inr w' \<and>
     aio_return (Some \<lparr>cc_transport = TCP, cc_host = ''h'', cc_port = 1, cc_uri = [], cc_net_client = True\<rparr>) (Some 3) w' =
       Inr (512, set_errno 0 w')"
proof -
  obtain s2 where s2: "reach (cli_init tick_env 256) (cli_step tick_env) s2" "stats_room (cs_w s2)"
      "nc_inflight_reqs (cw_nc (cs_w s2)) = [6]" "cw_msgs (cs_w s2) 6 = Some (read_msg 6 ''f'' 4096 512 0 (Some 5))"
      "cw_giocbs (cs_w s2) 3 = Some \<lparr>gb_buf = 4096, gb_offset = 0, gb_nbytes = 512, gb_request = Some 5\<rparr>" "cw_sent (cs_w s2) = []"
    using demo_queued by blast
  let ?st = "s2\<lparr>cs_w := (upd_nc (\<lambda>nc. nc\<lparr>nc_inflight_reqs := []\<rparr>) (cs_w s2))\<lparr>cw_sent := [6]\<rparr>\<rparr>"
  have "exec_cli tick_env (CSend 0) s2 = Inr ?st"
    using s2 by (simp add: on_world_def send_next_def pop_request_def at_addr_def upd_nc_def)
  moreover have "cli_ok (CSend 0) s2" using s2 by (simp add: is_queue_empty_def)
  ultimately have "cli_step tick_env s2 ?st" unfolding cli_step_def by blast
  then have r: "reach (cli_init tick_env 256) (cli_step tick_env) ?st" using s2(1) by (rule reach_step [rotated])
  have m: "cw_msgs (cs_w ?st) 6 = Some (read_msg 6 ''f'' 4096 512 0 (Some 5))" using s2(4) by (simp add: upd_nc_def)
  have f: "stats_room (cs_w ?st)" "6 \<in> set (cw_sent (cs_w ?st))"
      "cw_giocbs (cs_w ?st) 3 = Some \<lparr>gb_buf = 4096, gb_offset = 0, gb_nbytes = 512, gb_request = Some 5\<rparr>"
    using s2 by (simp_all add: stats_room_def upd_nc_def)
  have al: "IsDirectIOAligned 0" by (simp add: IsDirectIOAligned_def DirectIOSize_def)
  have "int_range 32 (st_errorCode \<lparr>st_completionId = 16, st_errorCode = 0\<rparr>)" by (simp add: int_range_def)
  note t = remote_read [where xm = "\<lparr>xm_pool = (0, 8192), xm_mem = (0, 0)\<rparr>" and read = "\<lambda>_ _. ReadReturned 0" and baddr = 16 and c = 1
      and ctx = "\<lparr>cc_transport = TCP, cc_host = ''h'', cc_port = 1, cc_uri = [], cc_net_client = True\<rparr>",
      OF tick_env_ok r f(1,2) m f(3) _ _ al _ _ _ this]
  have "\<exists>req1 req2 w'. process_request True \<lparr>xm_pool = (0, 8192), xm_mem = (0, 0)\<rparr> (\<lambda>_ _. ReadReturned 0) 16
       (NetworkXioRequest_new 1 (xq_s_msg (read_msg 6 ''f'' 4096 512 0 (Some 5)))) =
       Inr (False, req1, Some [\<lparr>fr_completionId = 16, fr_offset = 0, fr_size = 512, fr_addr = 8192\<rparr>]) \<and>
    completion_reply \<lparr>st_completionId = 16, st_errorCode = 0\<rparr> [\<lparr>fr_completionId = 16, fr_offset = 0, fr_size = 512, fr_addr = 8192\<rparr>] req1 =
       Inr (Some req2) \<and>
    on_response tick_env (rq_s_msg req2) (cs_w ?st) = Inr w' \<and>
    aio_return (Some \<lparr>cc_transport = TCP, cc_host = ''h'', cc_port = 1, cc_uri = [], cc_net_client = True\<rparr>) (Some 3) w' =
       Inr (512, set_errno 0 w')" using t by simp
  with m show ?thesis by blast
qed

end
