(* ===== verification/Gobjfs_Client_Props.thy ===== *)
theory Gobjfs_Client_Props
  imports Xio_Client_System
begin

text \<open>
  What a caller of the client interface can rely on: the synchronous read on every branch, and the
  calls that cannot do what their names promise.
\<close>

section \<open>Calls that fail\<close>

text \<open>A context whose client cannot be created is used nevertheless.\<close>

lemma ctx_init_uses_null_client:
  assumes "cc_transport c = TCP \<or> cc_transport c = RDMA" "\<not> cc_net_client c"
    and "fst (NetworkXioClient_new su 256 refs) = None" "se_req_ok se"
  shows "ctx_init su se n meanwhile gp (Some c) refs w = Inl (NullDeref ''net_client'')"
proof -
  obtain refs1 where "NetworkXioClient_new su 256 refs = (None, refs1)" using assms(3) by (cases "NetworkXioClient_new su 256 refs") auto
  then show ?thesis
    using assms(1,2,4)
    by (auto simp: ctx_init_def ovs_xio_open_device_def create_new_request_def new_notifier_def at_addr_def Let_def)
qed

lemma submit_dereferences_null_ctx:
  "submit_aio_request E se None filename giocbp cvp cptr op w = Inl (NullDeref ''ctx'')"
  by (simp add: submit_aio_request_def)

text \<open>Neither member of a buffer is ever set.\<close>

lemma gbuffer_unusable:
  assumes "gbuffer_allocate True sz err = (Some b, err')"
  shows "gbuffer_data (Some b) e = Inl (UndefinedBehaviour ''indeterminate value'')"
    and "gbuffer_size (Some b) e = Inl (UndefinedBehaviour ''indeterminate value'')"
  using assms by (auto simp: gbuffer_allocate_def gbuffer_data_def gbuffer_size_def read_member_def)

text \<open>A read of \<open>2^31\<close> bytes or more that succeeds looks like an error.\<close>

lemma aio_return_truncates:
  assumes "cw_giocbs w gp = Some g" "gb_request g = Some a" "cw_reqs w a = Some r" "\<not> ar_failed r" "ar_rv r = 2 ^ 31"
  shows "aio_return (Some ctx) (Some gp) w = Inr (- (2 ^ 31), set_errno (ar_errno r) w)"
  using assms by (simp add: aio_return_def request_of_def at_addr_def to_int32_def)

text \<open>The flag that \<open>aio_return_completion\<close> tests is never set.\<close>

definition none_calling :: "cworld \<Rightarrow> bool" where
  "none_calling w \<longleftrightarrow> (\<forall>c cm. cw_compls w c = Some cm \<longrightarrow> \<not> cm_calling cm)"

lemma aio_return_completion_fails:
  assumes "none_calling w" "cw_compls w c \<noteq> None"
  shows "aio_return_completion (Some c) w = Inr (-1, w)"
  using assms by (auto simp: aio_return_completion_def at_addr_def none_calling_def)

lemma complete_request_calling:
  assumes "ovs_xio_aio_complete_request (Some a) rv err w = Inr w'" "none_calling w"
  shows "none_calling w'"
proof -
  have wk: "cw_compls v' = cw_compls v" if "wake_up_suspended_aiocb b v = Inr v'" for b v v'
    using that by (auto simp: wake_up_suspended_aiocb_def notifier_signal_def rbind_eq_Inr)
  obtain r w1 where r: "cw_reqs w a = Some r" and w1: "wake_up_suspended_aiocb a (w\<lparr>cw_reqs := (cw_reqs w)(a \<mapsto>
      r\<lparr>ar_errno := err, ar_rv := rv, ar_failed := (rv < 0), ar_completed := True\<rparr>)\<rparr>) = Inr w1"
    using assms(1) by (auto simp: ovs_xio_aio_complete_request_def rbind_eq_Inr at_addr_def split: option.splits)
  have n1: "none_calling w1" using wk [OF w1] assms(2) by (simp add: none_calling_def)
  show ?thesis
  proof (cases "ar_cptr r")
    case None
    with assms(1) r w1 n1 show ?thesis by (simp add: ovs_xio_aio_complete_request_def at_addr_def)
  next
    case (Some c)
    then obtain cm where cm: "cw_compls w1 c = Some cm"
      using assms(1) r w1 by (auto simp: ovs_xio_aio_complete_request_def at_addr_def rbind_eq_Inr split: option.splits)
    with n1 have "\<not> cm_calling cm" by (auto simp: none_calling_def)
    with Some cm assms(1) r w1 n1 show ?thesis
      by (auto simp: ovs_xio_aio_complete_request_def at_addr_def aio_signal_completion_def none_calling_def split: if_splits)
  qed
qed

section \<open>The synchronous read\<close>

text \<open>
  What the other threads owe the caller: the request at \<open>a\<close> gets completed with the given result, its
  notifier is signalled, and no other request and no control block is touched.
\<close>

definition answered_meanwhile :: "(cworld \<Rightarrow> cworld) \<Rightarrow> nat \<Rightarrow> nat \<Rightarrow> int \<Rightarrow> int \<Rightarrow> bool" where
  "answered_meanwhile f a n rv err \<longleftrightarrow> (\<forall>w. cw_reqs w a \<noteq> None \<longrightarrow>
     (\<exists>r. cw_reqs (f w) = (cw_reqs w)(a \<mapsto> r) \<and> completed_with rv err r) \<and> cw_giocbs (f w) = cw_giocbs w \<and>
     cw_notifs (f w) n = Some \<lparr>nt_count = 0\<rparr>)"

lemma aio_read_accepted:
  assumes "cc_net_client c" "se_req_ok se" "se_msg_ok se" "se_after se = id" "nc_nr_req_queue (cw_nc w) > 0"
    and "cw_giocbs w gp = Some g" "gb_nbytes g \<noteq> 0" "gb_offset g \<ge> 0"
  shows "\<exists>w1 r. aio_read E se n (Some c) filename (Some gp) w = Inr (0, w1) \<and> cw_reqs w1 = (cw_reqs w)(se_req se \<mapsto> r) \<and>
    ar_cvp r = n \<and> cw_giocbs w1 = (cw_giocbs w)(gp \<mapsto> g\<lparr>gb_request := Some (se_req se)\<rparr>)"
  using assms
  by (auto simp: aio_read_def submit_aio_request_def new_notifier_def at_addr_def create_new_request_def xio_send_read_request_def
      queue_msg_steps Let_def req_queue_ready_def req_queue_enter_def new_msg_def upd_nc_def queue_push_def client_xstop_loop_def
      push_request_def timer_reset_def aio_request_new_def)

text \<open>
  C20. The synchronous read on every branch, when a slot of the queue is free: it fails with EINVAL for a
  null context, an empty read or a negative offset, with ENOMEM when the request or the message
  cannot be allocated, with the error of the request when that failed, and otherwise returns the
  result of the request as an \<open>int\<close>. In every case the request is deleted and the control block is
  gone: no other request or control block has changed.
\<close>

theorem read_sync_result:
  assumes "answered_meanwhile meanwhile (se_req se) n rv err" "se_after se = id" "nc_nr_req_queue (cw_nc w) > 0"
    and "cw_reqs w (se_req se) = None" "cw_giocbs w gp = None" "\<forall>c. ctx = Some c \<longrightarrow> cc_net_client c"
  shows "\<exists>w'. read_sync E se n meanwhile gp ctx filename buf nbytes offset w =
      Inr (if ctx = None \<or> nbytes = 0 \<or> offset < 0 \<or> \<not> se_req_ok se \<or> \<not> se_msg_ok se \<or> rv < 0 then -1 else to_int32 rv, w') \<and>
    cw_errno w' = (if ctx = None \<or> nbytes = 0 \<or> offset < 0 then EINVAL
                   else if \<not> se_req_ok se \<or> \<not> se_msg_ok se then ENOMEM else err) \<and>
    cw_reqs w' = cw_reqs w \<and> cw_giocbs w' = cw_giocbs w"
proof (cases ctx)
  case None
  then show ?thesis by (simp add: read_sync_def set_errno_def)
next
  case (Some c)
  let ?g = "\<lparr>gb_buf = buf, gb_offset = offset, gb_nbytes = nbytes, gb_request = None\<rparr>"
  let ?w0 = "w\<lparr>cw_giocbs := (cw_giocbs w)(gp \<mapsto> ?g)\<rparr>"
  have c: "cc_net_client c" using assms(6) Some by simp
  have gone: "(cw_giocbs w)(gp := None) = cw_giocbs w" "(cw_reqs w)(se_req se := None) = cw_reqs w" using assms(4,5) by auto
  consider (bad) "nbytes = 0 \<or> offset < 0" | (mem) "nbytes \<noteq> 0" "\<not> offset < 0" "\<not> se_req_ok se \<or> \<not> se_msg_ok se"
    | (good) "nbytes \<noteq> 0" "\<not> offset < 0" "se_req_ok se" "se_msg_ok se" by blast
  then show ?thesis
  proof cases
    case bad
    with Some gone show ?thesis
      by (auto simp: read_sync_def aio_read_def submit_aio_request_def new_notifier_def at_addr_def set_errno_def leave_scope_def Let_def)
  next
    case mem
    with Some gone c show ?thesis
      by (cases "se_req_ok se") (auto simp: read_sync_def aio_read_def submit_aio_request_def new_notifier_def at_addr_def set_errno_def
        leave_scope_def create_new_request_def xio_send_read_request_def delete_request_def Let_def)
  next
    case good
    obtain w1 r1 where w1: "aio_read E se n (Some c) filename (Some gp) ?w0 = Inr (0, w1)" "cw_reqs w1 = (cw_reqs w)(se_req se \<mapsto> r1)"
        "ar_cvp r1 = n" "cw_giocbs w1 = (cw_giocbs w)(gp \<mapsto> ?g\<lparr>gb_request := Some (se_req se)\<rparr>)"
      using aio_read_accepted [where w = ?w0 and g = ?g and gp = gp and E = E and n = n and filename = filename, OF c good(3,4) assms(2)] good(1,2) assms(3) by auto
    have "cw_reqs w1 (se_req se) \<noteq> None" using w1(2) by simp
    then obtain r2 where w2: "cw_reqs (meanwhile w1) = (cw_reqs w1)(se_req se \<mapsto> r2)" "completed_with rv err r2"
        "cw_giocbs (meanwhile w1) = cw_giocbs w1" "cw_notifs (meanwhile w1) n = Some \<lparr>nt_count = 0\<rparr>"
      using assms(1) unfolding answered_meanwhile_def by blast
    show ?thesis
      using Some good w1 w2 gone
      by (auto simp: read_sync_def Let_def aio_suspend_def at_addr_def request_of_def await_def notifier_wait_def completed_with_def
          aio_return_def aio_finish_def set_errno_def leave_scope_def)
  qed
qed

definition demo_answer :: "cworld \<Rightarrow> cworld" where
  "demo_answer w = w\<lparr>cw_reqs := (cw_reqs w)(5 \<mapsto> (aio_request_new ReadOp (Some 3) 7 None)\<lparr>ar_rv := 512, ar_completed := True\<rparr>),
     cw_notifs := (cw_notifs w)(7 \<mapsto> \<lparr>nt_count = 0\<rparr>)\<rparr>"

theorem read_sync_result_witness:
  "\<exists>w'. read_sync tick_env demo_submit 7 demo_answer 4 (Some \<lparr>cc_transport = TCP, cc_host = ''h'', cc_port = 1, cc_uri = [], cc_net_client = True\<rparr>)
     ''f'' 4096 512 0 (cs_w demo_client) = Inr (512, w') \<and> cw_reqs w' = Map.empty"
proof -
  have "answered_meanwhile demo_answer (se_req demo_submit) 7 512 0"
    by (auto simp: answered_meanwhile_def demo_answer_def demo_submit_def completed_with_def aio_request_new_def)
  from read_sync_result [OF this, where ctx = "Some \<lparr>cc_transport = TCP, cc_host = ''h'', cc_port = 1, cc_uri = [], cc_net_client = True\<rparr>"
      and w = "cs_w demo_client" and gp = 4 and nbytes = 512 and offset = 0 and E = tick_env and filename = "''f''" and buf = 4096]
  show ?thesis by (auto simp: demo_submit_def demo_client_def client_blank_def to_int32_def)
qed

end
