(* ===== verification/Xio_Server_Progress.thy ===== *)
theory Xio_Server_Progress
  imports Xio_Server_System Xio_Server_Life
begin

text \<open>
  The threads of the server as a whole: the loop of \<open>run\<close> with the callbacks libxio calls in it, and the
  loop of a worker. The server comes to rest: every request it has received is answered, except
  reads that the file service took without an answer and reads at unaligned offsets.
\<close>

section \<open>The callbacks and the loops\<close>

text \<open>
  The functions registered with libxio get the data of the connection, or the server, as their context
  and return \<open>-1\<close> without one. Through the data of a connection they reach the server.
\<close>

definition server_static_on_request ::
  "nat option \<Rightarrow> bool \<Rightarrow> (nat \<Rightarrow> bool) \<Rightarrow> 64 word \<Rightarrow> int \<Rightarrow> nat \<Rightarrow> bytes \<Rightarrow> xserver \<Rightarrow> (int \<times> xserver) res" where
  "server_static_on_request obj alloc_ok spawn hw now p header s =
     (case obj of
        None \<Rightarrow> Inr (-1, s)
      | Some c \<Rightarrow> rbind (get_client c s) (\<lambda>_. rbind (on_request alloc_ok spawn hw now p c header s) (\<lambda>s1. Inr (0, s1))))"

definition server_static_on_session_event ::
  "nat option \<Rightarrow> bool \<Rightarrow> bool \<Rightarrow> session_event \<Rightarrow> nat \<Rightarrow> xserver \<Rightarrow> (int \<times> xserver) res" where
  "server_static_on_session_event obj alloc_ok handler_ok ev c s =
     (case obj of None \<Rightarrow> Inr (-1, s) | Some _ \<Rightarrow> rbind (on_session_event alloc_ok handler_ok ev c s) (\<lambda>s1. Inr (0, s1)))"

definition server_static_on_new_session :: "nat option \<Rightarrow> int \<Rightarrow> int" where
  "server_static_on_new_session obj accept_ret = (case obj of None \<Rightarrow> -1 | Some _ \<Rightarrow> on_new_session accept_ret)"

definition server_static_on_msg_send_complete :: "nat option \<Rightarrow> xserver \<Rightarrow> (int \<times> xserver) res" where
  "server_static_on_msg_send_complete obj s =
     (case obj of
        None \<Rightarrow> Inr (-1, s)
      | Some c \<Rightarrow> rbind (get_client c s) (\<lambda>_. rbind (on_msg_send_complete c s) (\<lambda>s1. Inr (0, s1))))"

definition server_static_evfd_stop_loop :: "nat option \<Rightarrow> xserver \<Rightarrow> xserver" where
  "server_static_evfd_stop_loop obj s = (case obj of None \<Rightarrow> s | Some _ \<Rightarrow> server_evfd_stop_loop s)"

text \<open>What libxio calls while \<open>xio_context_run_loop\<close> runs; \<open>srv\<close> is the address of the server.\<close>

datatype server_callback =
    SbRequest bool "nat \<Rightarrow> bool" "64 word" int nat nat bytes
  | SbSessionEvent bool bool session_event nat
  | SbNewSession int
  | SbSendComplete nat
  | SbStopLoop

fun server_call :: "nat option \<Rightarrow> server_callback \<Rightarrow> xserver \<Rightarrow> xserver res" where
  "server_call srv (SbRequest alloc_ok spawn hw now p c header) s =
     rbind (server_static_on_request (Some c) alloc_ok spawn hw now p header s) (\<lambda>(_, s1). Inr s1)"
| "server_call srv (SbSessionEvent alloc_ok handler_ok ev c) s =
     rbind (server_static_on_session_event srv alloc_ok handler_ok ev c s) (\<lambda>(_, s1). Inr s1)"
| "server_call srv (SbNewSession accept_ret) s = (let _ = server_static_on_new_session srv accept_ret in Inr s)"
| "server_call srv (SbSendComplete c) s = rbind (server_static_on_msg_send_complete (Some c) s) (\<lambda>(_, s1). Inr s1)"
| "server_call srv SbStopLoop s = Inr (server_static_evfd_stop_loop srv s)"

text \<open>
  The loop of \<open>run\<close>: a pass has the callbacks of libxio, what the other threads did meanwhile, the result
  of \<open>xio_context_run_loop\<close>, the results of sending the replies, and whether \<open>stopping\<close> is set after it.
\<close>

record server_pass =
  sp_calls :: "server_callback list"
  sp_others :: "xserver \<Rightarrow> xserver"
  sp_ret :: int
  sp_send :: "nat \<Rightarrow> int"
  sp_stopping :: bool

definition run_pass :: "nat option \<Rightarrow> server_pass \<Rightarrow> xserver \<Rightarrow> xserver res" where
  "run_pass srv pass s =
     rbind (rfold (server_call srv) (sp_calls pass) s) (\<lambda>s1.
     rbind (rassert ''ret == 0'' (sp_ret pass = 0)) (\<lambda>_.
     send_all (sp_send pass) (sp_others pass s1)))"

fun run_loop :: "nat option \<Rightarrow> bool \<Rightarrow> server_pass list \<Rightarrow> xserver \<Rightarrow> xserver res" where
  "run_loop srv True passes s = Inr s"
| "run_loop srv False [] s = Inl (Blocked ''xio_context_run_loop'')"
| "run_loop srv False (pass # passes) s = rbind (run_pass srv pass s) (run_loop srv (sp_stopping pass) passes)"

text \<open>
  The loop of a worker. A turn begins with the lock held, at the top of the loop or after a wait on
  \<open>inflight_cond\<close>: what the other threads did before, the time, and what the work item meets.
\<close>

record worker_turn =
  wt_others :: "xserver \<Rightarrow> xserver"
  wt_now :: int
  wt_has :: bool
  wt_xm :: xio_mem
  wt_read :: "string \<Rightarrow> gIOBatch \<Rightarrow> read_outcome"
  wt_baddr :: "64 word"

fun worker_routine :: "bool \<Rightarrow> worker_turn list \<Rightarrow> xserver \<Rightarrow> xserver res" where
  "worker_routine waited [] s = Inl (Blocked ''inflight_cond'')"
| "worker_routine waited (t # ts) s0 =
     (let s = wt_others t s0;
          (next, wq) = (if waited then worker_woken (sr_wq s) else worker_top (wt_now t) (sr_wq s));
          s1 = s\<lparr>sr_wq := wq\<rparr>
      in case next of
           WorkerExits \<Rightarrow> Inr s1
         | WorkerWaits \<Rightarrow> worker_routine True ts s1
         | WorkerTakes p \<Rightarrow> rbind (worker_run (wt_has t) (wt_xm t) (wt_read t) (wt_baddr t) p s1) (\<lambda>(_, _, s2).
             worker_routine False ts s2))"

section \<open>What each step does to the lists\<close>

text \<open>The requests not yet answered, and how much is left to do for all requests.\<close>

definition unanswered :: "srv_sys \<Rightarrow> nat list" where
  "unanswered st = wq_inflight (sr_wq (xv_s st)) @ wq_finished (sr_wq (xv_s st)) @ xv_working st @ map fst (xv_io st)"

definition srv_left :: "srv_sys \<Rightarrow> nat" where
  "srv_left st = 4 * length (wq_inflight (sr_wq (xv_s st))) + 3 * length (xv_working st) + 2 * length (xv_io st) +
     length (wq_finished (sr_wq (xv_s st))) + card (dom (sr_reqs (xv_s st)))"

text \<open>
  The steps of the server's own threads and of libxio's confirmations. A worker that finds no request
  is not a step; replies are taken by libxio.
\<close>

fun own_srv :: "srv_action \<Rightarrow> srv_sys \<Rightarrow> bool" where
  "own_srv (STop now) st \<longleftrightarrow> taken (fst (worker_top now (sr_wq (xv_s st)))) \<noteq> []"
| "own_srv SWoken st \<longleftrightarrow> taken (fst (worker_woken (sr_wq (xv_s st)))) \<noteq> []"
| "own_srv (SRun has xm read baddr p) st \<longleftrightarrow> True"
| "own_srv (SStatus iostatus p) st \<longleftrightarrow> True"
| "own_srv (SReply ret) st \<longleftrightarrow> ret = 0"
| "own_srv (SSent c) st \<longleftrightarrow> True"
| "own_srv _ st \<longleftrightarrow> False"

definition srv_own :: "srv_sys \<Rightarrow> srv_sys \<Rightarrow> bool" where
  "srv_own st st' \<longleftrightarrow> (\<exists>a. own_srv a st \<and> srv_ok a st \<and> exec_srv a st = Inr st')"

text \<open>Nothing is dropped: answered and lost requests and those not yet answered add up.\<close>

definition received :: "srv_sys \<Rightarrow> nat" where
  "received st = length (sr_sent (xv_s st)) + length (xv_lost st) + length (unanswered st)"

definition srv_advances :: "srv_sys \<Rightarrow> srv_sys \<Rightarrow> bool" where
  "srv_advances st st' \<longleftrightarrow> srv_left st' < srv_left st \<and> received st' = received st \<and>
     wq_stopping (sr_wq (xv_s st')) = wq_stopping (sr_wq (xv_s st))"

lemma worker_top_stopping: "worker_top now wq = (n, wq') \<Longrightarrow> wq_stopping wq' = wq_stopping wq"
  by (auto simp: worker_top_def worker_retry_def need_to_shrink_def split: if_splits option.splits)

lemma worker_woken_stopping: "worker_woken wq = (n, wq') \<Longrightarrow> wq_stopping wq' = wq_stopping wq"
  by (auto simp: worker_woken_def worker_retry_def split: if_splits option.splits)

lemma takes_advances:
  assumes "mset (wq_inflight wq') + mset (taken next) = mset (wq_inflight (sr_wq (xv_s st))) \<and> wq_finished wq' = wq_finished (sr_wq (xv_s st))"
    and "taken next \<noteq> []" "wq_stopping wq' = wq_stopping (sr_wq (xv_s st))"
  shows "srv_advances st (worker_takes (next, wq') st)"
proof -
  have one: "length (taken next) = 1" using assms(2) by (cases "next") auto
  have "size (mset (wq_inflight wq') + mset (taken next)) = length (wq_inflight (sr_wq (xv_s st)))" using assms(1) by simp
  then have "Suc (length (wq_inflight wq')) = length (wq_inflight (sr_wq (xv_s st)))" using one by simp
  with one assms(1,3) show ?thesis by (simp add: srv_advances_def srv_left_def received_def unanswered_def worker_takes_def)
qed

lemma put_req_dom: "sr_reqs s p = Some r \<Longrightarrow> dom (sr_reqs (put_req p r' s)) = dom (sr_reqs s)"
  by (auto simp: put_req_def)

lemma run_advances:
  assumes inv: "srv_inv st" and ok: "srv_ok (SRun has xm read baddr p) st" and e: "exec_srv (SRun has xm read baddr p) st = Inr st'"
  shows "srv_advances st st'"
proof -
  have p: "p \<in> set (xv_working st)" using ok by simp
  then obtain r where r: "sr_reqs (xv_s st) p = Some r"
    using inv sinv_request [of "outside st" "xv_s st" p] by (auto simp: srv_inv_def outside_def)
  have "aligned_header (rq_header r)" "baddr \<noteq> 0" using ok r by simp_all
  then obtain fin r' b where o: "process_request has xm read baddr r = Inr (fin, r', b)" and lo: "left_ok r (fin, r', b)"
    using process_request_total [of r baddr has xm read] by (metis prod_cases3)
  have fin: "fin \<longrightarrow> b = None" using lo by (simp add: left_ok_def)
  let ?s = "put_req p r' (xv_s st)"
  have st': "st' = st\<lparr>xv_s := ?s\<lparr>sr_wq := worker_done fin p (sr_wq ?s)\<rparr>, xv_working := remove1 p (xv_working st),
      xv_io := (case b of Some batch \<Rightarrow> (p, batch) # xv_io st | None \<Rightarrow> xv_io st),
      xv_lost := (if \<not> fin \<and> b = None then p # xv_lost st else xv_lost st)\<rparr>"
    using e by (simp add: worker_run_def get_req_def r o Let_def)
  have "length (xv_working st) = Suc (length (remove1 p (xv_working st)))" using p by (simp add: length_remove1) (cases "xv_working st"; auto)
  then show ?thesis using fin put_req_dom [OF r, of r']
    by (auto simp: srv_advances_def srv_left_def received_def unanswered_def st' put_req_def worker_done_def xstop_loop_def list_push_def
        split: option.splits)
qed

lemma status_advances:
  assumes inv: "srv_inv st" and ok: "srv_ok (SStatus iostatus p) st" and e: "exec_srv (SStatus iostatus p) st = Inr st'"
  shows "srv_advances st st'"
proof -
  obtain batch where b: "map_of (xv_io st) p = Some batch" "(p, batch) \<in> set (xv_io st)"
    using ok by (metis map_of_SomeD map_of_eq_None_iff option.exhaust srv_ok.simps(7))
  obtain r where r: "sr_reqs (xv_s st) p = Some r" "rq_op r = ReadRsp" "free_batch batch = Inr ()"
    using inv b(2) unfolding srv_inv_def io_ok_def by blast
  obtain r' where o: "completion_reply iostatus batch r = Inr (Some r')" using r(2,3) by (simp add: completion_reply_def)
  let ?s = "put_req p r' (xv_s st)"
  let ?io = "filter (\<lambda>e. fst e \<noteq> p) (xv_io st)"
  have st': "st' = st\<lparr>xv_s := ?s\<lparr>sr_wq := worker_bottom_half p (sr_wq ?s)\<rparr>, xv_io := ?io\<rparr>"
    using e b(1) by (simp add: completion_run_def get_req_def r o Let_def)
  have "distinct (map fst (xv_io st))" using inv by (simp add: srv_inv_def sinv_def rinv_def outside_def)
  from mset_filter_key [OF this b(2)] have "length (map fst (xv_io st)) = length (p # map fst ?io)" by (metis size_mset)
  then have "length (xv_io st) = Suc (length ?io)" by simp
  then show ?thesis using put_req_dom [OF r(1), of r']
    by (simp add: srv_advances_def srv_left_def received_def unanswered_def st' put_req_def worker_bottom_half_def xstop_loop_def list_push_def)
qed

lemma reply_advances:
  assumes ok: "srv_ok (SReply 0) st" and e: "exec_srv (SReply 0) st = Inr st'"
  shows "srv_advances st st'"
proof -
  obtain p rest where f: "wq_finished (sr_wq (xv_s st)) = p # rest" using ok by (auto simp: is_finished_empty_def neq_Nil_conv)
  then show ?thesis using e
    by (auto simp: send_finished_def get_finished_def xio_send_reply_def rbind_eq_Inr get_req_def get_client_def
        srv_advances_def srv_left_def received_def unanswered_def split: option.splits)
qed

lemma deallocate_effect:
  assumes "deallocate_request p s = Inr s'"
  shows "sr_wq s' = sr_wq s \<and> sr_sent s' = sr_sent s \<and> sr_reqs s' = (sr_reqs s)(p := None) \<and> sr_reqs s p \<noteq> None"
  using assms
  by (auto simp: deallocate_request_def free_request_def rbind_eq_Inr get_req_def get_client_def destroy_client_def Let_def
      split: option.splits if_splits)

lemma sent_advances:
  assumes inv: "srv_inv st" and e: "exec_srv (SSent c) st = Inr st'"
  shows "srv_advances st st'"
proof -
  obtain cd s0 where c: "get_client c (xv_s st) = Inr cd" "on_msg_send_complete c (xv_s st) = Inr s0" "st' = st\<lparr>xv_s := s0\<rparr>"
    using e by (auto simp: on_msg_send_complete_def rbind_eq_Inr)
  obtain p s where d: "deallocate_request p s = Inr (xv_s st')" "sr_reqs s = sr_reqs (xv_s st)" "sr_wq s = sr_wq (xv_s st)" "sr_sent s = sr_sent (xv_s st)"
      "st' = st\<lparr>xv_s := xv_s st'\<rparr>"
    using c by (cases "cd_done_reqs cd") (auto simp: on_msg_send_complete_def)
  have "finite (dom (sr_reqs (xv_s st)))" using inv by (simp add: srv_inv_def sinv_def rinv_def)
  moreover have "p \<in> dom (sr_reqs (xv_s st))" "dom (sr_reqs (xv_s st')) = dom (sr_reqs (xv_s st)) - {p}"
    using deallocate_effect [OF d(1)] d(2) by auto
  ultimately have "card (dom (sr_reqs (xv_s st'))) < card (dom (sr_reqs (xv_s st)))" by (metis card_Diff1_less)
  moreover have "xv_working st' = xv_working st" "xv_io st' = xv_io st" "xv_lost st' = xv_lost st"
    by (subst d(5), simp)+
  ultimately show ?thesis using deallocate_effect [OF d(1)] d(2-4)
    by (simp add: srv_advances_def srv_left_def received_def unanswered_def)
qed

lemma srv_own_advances:
  assumes inv: "srv_inv st" and o: "srv_own st st'"
  shows "srv_inv st' \<and> srv_advances st st'"
proof -
  obtain a where a: "own_srv a st" "srv_ok a st" "exec_srv a st = Inr st'" using o by (auto simp: srv_own_def)
  have "srv_advances st st'"
  proof (cases a)
    case (STop now)
    obtain n wq' where w: "worker_top now (sr_wq (xv_s st)) = (n, wq')" by fastforce
    then show ?thesis using takes_advances [OF worker_top_lists [OF w]] worker_top_stopping [OF w] a STop by simp
  next
    case SWoken
    obtain n wq' where w: "worker_woken (sr_wq (xv_s st)) = (n, wq')" by fastforce
    then show ?thesis using takes_advances [OF worker_woken_lists [OF w]] worker_woken_stopping [OF w] a SWoken by simp
  next
    case (SRun has xm read baddr p)
    then show ?thesis using run_advances [OF inv] a(2,3) by blast
  next
    case (SStatus iostatus p)
    then show ?thesis using status_advances [OF inv] a(2,3) by blast
  next
    case (SReply ret)
    then show ?thesis using reply_advances a by simp
  next
    case (SSent c)
    then show ?thesis using sent_advances [OF inv] a(3) by blast
  qed (use a(1) in simp_all)
  then show ?thesis using srv_progress [OF inv a(2)] a(3) by auto
qed

interpretation srvdrain: draining srv_inv srv_own srv_left
  using srv_own_advances by unfold_locales (auto simp: srv_advances_def)

lemma srv_own_received:
  "(srv_own ^^ k) st st' \<Longrightarrow> srv_inv st \<Longrightarrow> received st' = received st \<and> wq_stopping (sr_wq (xv_s st')) = wq_stopping (sr_wq (xv_s st))"
proof (induction k arbitrary: st')
  case (Suc k)
  then obtain st1 where st1: "(srv_own ^^ k) st st1" "srv_own st1 st'" by auto
  with srvdrain.own_run [OF st1(1) Suc.prems(2)] srv_own_advances [of st1 st'] Suc.IH [OF st1(1) Suc.prems(2)] show ?case
    by (simp add: srv_advances_def)
qed simp

section \<open>The server comes to rest\<close>

text \<open>A request whose reply is not yet confirmed, or which can still be run or answered, allows a step.\<close>

lemma srv_busy:
  assumes inv: "srv_inv st" and rest: "\<nexists>st'. srv_own st st'" and run: "\<not> wq_stopping (sr_wq (xv_s st))"
  shows "wq_inflight (sr_wq (xv_s st)) = [] \<and> wq_finished (sr_wq (xv_s st)) = [] \<and> xv_io st = [] \<and>
    (\<forall>c cd. sr_clients (xv_s st) c = Some cd \<longrightarrow> cd_done_reqs cd = []) \<and>
    (\<forall>p r. p \<in> set (xv_working st) \<and> sr_reqs (xv_s st) p = Some r \<longrightarrow> \<not> aligned_header (rq_header r))"
proof -
  have stop: "\<not> srv_ok a st" if "own_srv a st" for a
    using that rest srv_progress [OF inv, of a] unfolding srv_own_def by blast
  have "wq_inflight (sr_wq (xv_s st)) = []"
    using stop [of SWoken] run by (cases "wq_inflight (sr_wq (xv_s st))") (auto simp: worker_woken_def worker_retry_def)
  moreover have "wq_finished (sr_wq (xv_s st)) = []" using stop [of "SReply 0"] by (simp add: is_finished_empty_def)
  moreover have "xv_io st = []" using stop [of "SStatus _ _"] by (cases "xv_io st") auto
  moreover have "cd_done_reqs cd = []" if "sr_clients (xv_s st) c = Some cd" for c cd using stop [of "SSent c"] that by simp
  moreover have "\<not> aligned_header (rq_header r)" if "p \<in> set (xv_working st)" "sr_reqs (xv_s st) p = Some r" for p r
    using stop [of "SRun _ _ _ 1 p"] that by simp
  ultimately show ?thesis by blast
qed

text \<open>
  The loops are runs of the transition system: the inner loop of \<open>run\<close> sends the replies one by one and
  ends, and a turn of a worker is its look at the queue followed by the work item.
\<close>

lemma send_all_run:
  assumes "srv_inv st"
  shows "\<exists>s'. send_all ret (xv_s st) = Inr s' \<and> is_finished_empty (sr_wq s') \<and> srv_step\<^sup>*\<^sup>* st (st\<lparr>xv_s := s'\<rparr>)"
  using assms
proof (induction "length (wq_finished (sr_wq (xv_s st)))" arbitrary: st rule: less_induct)
  case less
  show ?case
  proof (cases "is_finished_empty (sr_wq (xv_s st))")
    case True
    have "srv_step\<^sup>*\<^sup>* st (st\<lparr>xv_s := xv_s st\<rparr>)" by simp
    with True show ?thesis by (subst send_all.simps) (simp only: if_True, blast)
  next
    case False
    let ?a = "SReply (ret (hd (wq_finished (sr_wq (xv_s st)))))"
    have ok: "srv_ok ?a st" using False by simp
    obtain st1 where st1: "exec_srv ?a st = Inr st1" "srv_inv st1" using srv_progress [OF less.prems ok] by blast
    then obtain s1 where s1: "send_finished (ret (hd (wq_finished (sr_wq (xv_s st))))) (xv_s st) = Inr s1" "st1 = st\<lparr>xv_s := s1\<rparr>"
      by (auto simp: rbind_eq_Inr)
    have step: "srv_step st (st\<lparr>xv_s := s1\<rparr>)" using ok st1(1) s1(2) unfolding srv_step_def by blast
    obtain s' where "send_all ret s1 = Inr s'" "is_finished_empty (sr_wq s')" "srv_step\<^sup>*\<^sup>* (st\<lparr>xv_s := s1\<rparr>) (st\<lparr>xv_s := s'\<rparr>)"
      using less.hyps [of st1] send_finished_shrinks [OF s1(1)] st1(2) s1(2) by auto
    then show ?thesis using False s1(1) converse_rtranclp_into_rtranclp [of srv_step, OF step]
      by (subst send_all.simps) (simp only: if_False sum.case, blast)
  qed
qed

lemma worker_turn_steps:
  assumes "srv_inv st" "wt_others t = id" "wt_baddr t \<noteq> 0"
    and "(if waited then worker_woken (sr_wq (xv_s st)) else worker_top (wt_now t) (sr_wq (xv_s st))) = (WorkerTakes p, wq)"
    and "\<And>r. sr_reqs (xv_s st) p = Some r \<Longrightarrow> aligned_header (rq_header r)"
  shows "\<exists>st1 st2. exec_srv (if waited then SWoken else STop (wt_now t)) st = Inr st1 \<and>
    exec_srv (SRun (wt_has t) (wt_xm t) (wt_read t) (wt_baddr t) p) st1 = Inr st2 \<and> srv_inv st2 \<and>
    worker_routine waited (t # ts) (xv_s st) = worker_routine False ts (xv_s st2)"
proof -
  let ?st1 = "worker_takes (WorkerTakes p, wq) st"
  let ?run = "SRun (wt_has t) (wt_xm t) (wt_read t) (wt_baddr t) p"
  have e: "exec_srv (if waited then SWoken else STop (wt_now t)) st = Inr ?st1" using assms(4) by (cases waited) simp_all
  then have inv: "srv_inv ?st1" using srv_progress [OF assms(1), of "if waited then SWoken else STop (wt_now t)"] by (cases waited) auto
  have ok: "srv_ok ?run ?st1" using assms(3,5) by (simp add: worker_takes_def split: option.splits)
  obtain st2 where st2: "exec_srv ?run ?st1 = Inr st2" "srv_inv st2" using srv_progress [OF inv ok] by blast
  then have "worker_routine waited (t # ts) (xv_s st) = worker_routine False ts (xv_s st2)"
    using assms(2,4) by (auto simp: rbind_eq_Inr worker_takes_def split: if_splits)
  with e st2 show ?thesis by blast
qed



end
