(* ===== verification/Xio_Client_Progress.thy ===== *)
theory Xio_Client_Progress
  imports Xio_Client_System
begin

text \<open>
  The event loop of the client as a whole, with the callbacks libxio calls in it, and that the client
  comes to rest: when libxio sends what it is given and every message sent is answered or reported,
  every read that was submitted is completed and its waiters are released.
\<close>

section \<open>The callbacks and the loop\<close>

text \<open>
  The functions registered with libxio get the client as their context and return \<open>-1\<close> without one;
  \<open>obj\<close> is that pointer.
\<close>

definition static_on_response :: "nat option \<Rightarrow> sysenv \<Rightarrow> bytes \<Rightarrow> cworld \<Rightarrow> (int \<times> cworld) res" where
  "static_on_response obj E header w =
     (case obj of None \<Rightarrow> Inr (-1, w) | Some _ \<Rightarrow> rbind (on_response E header w) (\<lambda>w1. Inr (0, w1)))"

definition static_on_msg_error :: "nat option \<Rightarrow> sysenv \<Rightarrow> xio_msg_direction \<Rightarrow> bytes \<Rightarrow> cworld \<Rightarrow> (int \<times> cworld) res" where
  "static_on_msg_error obj E direction header w =
     (case obj of None \<Rightarrow> Inr (-1, w) | Some _ \<Rightarrow> rbind (client_on_msg_error E direction header w) (\<lambda>w1. Inr (0, w1)))"

definition static_on_session_event :: "nat option \<Rightarrow> client_event \<Rightarrow> cworld \<Rightarrow> int \<times> cworld" where
  "static_on_session_event obj ev w = (case obj of None \<Rightarrow> (-1, w) | Some _ \<Rightarrow> (0, client_on_session_event ev w))"

definition static_evfd_stop_loop :: "nat option \<Rightarrow> cworld \<Rightarrow> cworld" where
  "static_evfd_stop_loop obj w = (case obj of None \<Rightarrow> w | Some _ \<Rightarrow> client_evfd_stop_loop w)"

text \<open>What libxio calls while \<open>xio_context_run_loop\<close> runs, in the order in which it happens.\<close>

datatype client_callback = CbResponse bytes | CbMsgError xio_msg_direction bytes | CbSessionEvent client_event | CbStopLoop

fun client_call :: "nat option \<Rightarrow> sysenv \<Rightarrow> client_callback \<Rightarrow> cworld \<Rightarrow> cworld res" where
  "client_call obj E (CbResponse header) w = rbind (static_on_response obj E header w) (\<lambda>(_, w1). Inr w1)"
| "client_call obj E (CbMsgError d header) w = rbind (static_on_msg_error obj E d header w) (\<lambda>(_, w1). Inr w1)"
| "client_call obj E (CbSessionEvent ev) w = Inr (snd (static_on_session_event obj ev w))"
| "client_call obj E CbStopLoop w = Inr (static_evfd_stop_loop obj w)"

text \<open>The inner loop sends the queued messages; \<open>send\<close> gives the result of \<open>xio_send_request\<close> for each.\<close>

lemma update_stats_frame:
  "update_stats E v b w = Inr w' \<Longrightarrow> cw_msgs w' = cw_msgs w \<and> cw_sent w' = cw_sent w \<and>
     nc_inflight_reqs (cw_nc w') = nc_inflight_reqs (cw_nc w) \<and>
     (\<forall>a r'. cw_reqs w' a = Some r' \<longrightarrow> (\<exists>r. cw_reqs w a = Some r \<and> ar_completed r' = ar_completed r \<and> ar_op r' = ar_op r))"
  by (auto simp: update_stats_def rbind_eq_Inr at_addr_def upd_nc_def Let_def split: option.splits if_splits)

lemma notifier_signal_frame:
  "notifier_signal n w = Inr w' \<Longrightarrow> \<exists>N. w' = w\<lparr>cw_notifs := N\<rparr>"
  by (auto simp: notifier_signal_def rbind_eq_Inr)

lemma complete_frame:
  assumes "ovs_xio_aio_complete_request v rv err w = Inr w'"
  shows "cw_msgs w' = cw_msgs w \<and> cw_sent w' = cw_sent w \<and> cw_nc w' = cw_nc w \<and>
    (\<exists>a r. v = Some a \<and> ar_completed r \<and> cw_reqs w' = (cw_reqs w)(a \<mapsto> r))"
proof -
  obtain a r w1 where v: "v = Some a" "cw_reqs w a = Some r"
    and w1: "wake_up_suspended_aiocb a (w\<lparr>cw_reqs := (cw_reqs w)(a \<mapsto>
      r\<lparr>ar_errno := err, ar_rv := rv, ar_failed := (rv < 0), ar_completed := True\<rparr>)\<rparr>) = Inr w1"
    using assms by (auto simp: ovs_xio_aio_complete_request_def rbind_eq_Inr at_addr_def split: option.splits)
  then obtain N r' where "w1 = w\<lparr>cw_reqs := (cw_reqs w)(a \<mapsto> r'), cw_notifs := N\<rparr>" "ar_completed r'"
    by (fastforce simp: wake_up_suspended_aiocb_def rbind_eq_Inr at_addr_def dest!: notifier_signal_frame)
  then show ?thesis using assms v w1
    by (cases "ar_cptr r") (auto simp: ovs_xio_aio_complete_request_def aio_signal_completion_def rbind_eq_Inr at_addr_def split: option.splits)
qed

lemma send_next_shorter:
  assumes "send_next E r w = Inr w'"
  shows "length (nc_inflight_reqs (cw_nc w')) < length (nc_inflight_reqs (cw_nc w))"
proof -
  obtain p q where q: "nc_inflight_reqs (cw_nc w) = p # q"
    using assms by (cases "nc_inflight_reqs (cw_nc w)") (auto simp: send_next_def pop_request_def)
  then have "nc_inflight_reqs (cw_nc w') = q"
    using assms by (auto simp: send_next_def pop_request_def rbind_eq_Inr upd_nc_def req_queue_release_def delete_msg_def
      dest!: complete_frame update_stats_frame split: if_splits)
  with q show ?thesis by simp
qed

function client_send_all :: "sysenv \<Rightarrow> (nat \<Rightarrow> int) \<Rightarrow> cworld \<Rightarrow> cworld res" where
  "client_send_all E send w =
     (if is_queue_empty w then Inr w
      else case send_next E (send (hd (nc_inflight_reqs (cw_nc w)))) w of
             Inl e \<Rightarrow> Inl e
           | Inr w1 \<Rightarrow> client_send_all E send w1)"
  by pat_completeness auto
termination
  by (relation "measure (\<lambda>(_, _, w). length (nc_inflight_reqs (cw_nc w)))") (auto simp: send_next_shorter)

declare client_send_all.simps [simp del]

text \<open>
  A pass of the outer loop: the callbacks of \<open>xio_context_run_loop\<close>, what the other threads did
  meanwhile, its result, and the results of sending.
\<close>

record client_pass =
  ps_calls :: "client_callback list"
  ps_others :: "cworld \<Rightarrow> cworld"
  ps_ret :: int
  ps_send :: "nat \<Rightarrow> int"

definition run_loop_pass :: "nat option \<Rightarrow> sysenv \<Rightarrow> client_pass \<Rightarrow> cworld \<Rightarrow> cworld res" where
  "run_loop_pass obj E pass w =
     rbind (rfold (client_call obj E) (ps_calls pass) w) (\<lambda>w1.
     rbind (rassert ''ret == 0'' (ps_ret pass = 0)) (\<lambda>_.
     client_send_all E (ps_send pass) (ps_others pass w1)))"

text \<open>
  The whole thread: after \<open>stopping\<close> it disconnects, and runs the loop of libxio once more if the
  connection is still up, with the callbacks \<open>final\<close>. Without another pass it waits for libxio.
\<close>

fun xio_run_loop_worker :: "nat option \<Rightarrow> sysenv \<Rightarrow> client_callback list \<Rightarrow> client_pass list \<Rightarrow> cworld \<Rightarrow> cworld res" where
  "xio_run_loop_worker obj E final passes w =
     (if nc_stopping (cw_nc w) then
        if nc_disconnected (cw_nc w) then Inr (run_loop_exit w) else rfold (client_call obj E) final (run_loop_exit w)
      else case passes of
             [] \<Rightarrow> Inl (Blocked ''xio_context_run_loop'')
           | pass # rest \<Rightarrow> rbind (run_loop_pass obj E pass w) (xio_run_loop_worker obj E final rest))"

section \<open>Every pending read has a message\<close>

definition refers :: "cworld \<Rightarrow> nat \<Rightarrow> nat \<Rightarrow> bool" where
  "refers w p a \<longleftrightarrow> (\<exists>x. cw_msgs w p = Some x \<and> xq_opaque x = Some a)"

definition pending_read :: "cworld \<Rightarrow> nat \<Rightarrow> bool" where
  "pending_read w a \<longleftrightarrow> (\<exists>r. cw_reqs w a = Some r \<and> \<not> ar_completed r \<and> ar_op r = ReadOp)"

definition tracked :: "cli_sys \<Rightarrow> bool" where
  "tracked st \<longleftrightarrow> (\<forall>a. pending_read (cs_w st) a \<longrightarrow> (\<exists>p \<in> set (outstanding st). refers (cs_w st) p a))"

text \<open>At most the request at \<open>a\<close> and the message at \<open>p\<close> that refers to it are affected.\<close>

lemma tracked_step:
  assumes "tracked st"
    and "\<And>b. b \<noteq> a \<Longrightarrow> pending_read (cs_w st') b \<Longrightarrow> pending_read (cs_w st) b"
    and "pending_read (cs_w st') a \<Longrightarrow> \<exists>p \<in> set (outstanding st'). refers (cs_w st') p a"
    and "\<And>p b. p \<in> set (outstanding st) \<Longrightarrow> refers (cs_w st) p b \<Longrightarrow> b \<noteq> a \<Longrightarrow> p \<in> set (outstanding st') \<and> refers (cs_w st') p b"
  shows "tracked st'"
  unfolding tracked_def
proof (intro allI impI)
  fix b
  assume b: "pending_read (cs_w st') b"
  show "\<exists>p \<in> set (outstanding st'). refers (cs_w st') p b"
  proof (cases "b = a")
    case True
    with b assms(3) show ?thesis by simp
  next
    case False
    then obtain p where "p \<in> set (outstanding st)" "refers (cs_w st) p b" using assms(1,2) b unfolding tracked_def by blast
    with assms(4) False show ?thesis by blast
  qed
qed

lemma tracked_same:
  assumes "tracked st" "\<And>b. pending_read (cs_w st') b \<Longrightarrow> pending_read (cs_w st) b"
    and "cw_msgs (cs_w st') = cw_msgs (cs_w st)" "set (outstanding st') = set (outstanding st)"
  shows "tracked st'"
  using assms unfolding tracked_def refers_def by metis

lemma refers_unique: "refers w p a \<Longrightarrow> refers w p b \<Longrightarrow> a = b"
  by (auto simp: refers_def)

text \<open>A message is answered: its request is completed and it is deleted.\<close>

lemma tracked_answer:
  assumes tr: "tracked st" and x: "cw_msgs (cs_w st) p = Some x"
    and u: "update_stats E (xq_opaque x) b w0 = Inr w1" and c: "ovs_xio_aio_complete_request (xq_opaque x) rv err w1 = Inr w2"
    and w0: "cw_msgs w0 = cw_msgs (cs_w st)" "cw_reqs w0 = cw_reqs (cs_w st)"
    and st': "cw_msgs (cs_w st') = (cw_msgs w2)(p := None)" "cw_reqs (cs_w st') = cw_reqs w2"
    and out: "set (outstanding st) \<subseteq> insert p (set (outstanding st'))"
  shows "tracked st'"
proof -
  obtain a r where a: "xq_opaque x = Some a" "ar_completed r" "cw_reqs w2 = (cw_reqs w1)(a \<mapsto> r)" "cw_msgs w2 = cw_msgs w1"
    using complete_frame [OF c] by blast
  note f = update_stats_frame [OF u]
  show ?thesis
  proof (rule tracked_step [OF tr, of a])
    show "pending_read (cs_w st) b" if "b \<noteq> a" "pending_read (cs_w st') b" for b
      using that f a(3) st'(2) w0(2) unfolding pending_read_def by (fastforce split: if_splits)
    show "\<exists>p \<in> set (outstanding st'). refers (cs_w st') p a" if "pending_read (cs_w st') a"
      using that a(2,3) st'(2) by (auto simp: pending_read_def)
    show "q \<in> set (outstanding st') \<and> refers (cs_w st') q b" if "q \<in> set (outstanding st)" "refers (cs_w st) q b" "b \<noteq> a" for q b
    proof -
      have "q \<noteq> p" using that(2,3) x a(1) by (auto simp: refers_def)
      then show ?thesis using that(1,2) out f a(4) st'(1) w0(1) by (auto simp: refers_def)
    qed
  qed
qed

lemma tracked_send:
  assumes "tracked st" "exec_cli E (CSend r) st = Inr st'"
  shows "tracked st'"
proof -
  obtain w' where w': "send_next E r (cs_w st) = Inr w'" "st' = st\<lparr>cs_w := w'\<rparr>"
    using assms(2) by (auto simp: on_world_def rbind_eq_Inr)
  obtain p q where q: "nc_inflight_reqs (cw_nc (cs_w st)) = p # q"
    using w'(1) by (cases "nc_inflight_reqs (cw_nc (cs_w st))") (auto simp: send_next_def pop_request_def)
  let ?w1 = "upd_nc (\<lambda>nc. nc\<lparr>nc_inflight_reqs := q\<rparr>) (cs_w st)"
  have pop: "pop_request (cs_w st) = Inr (p, ?w1)" by (simp add: pop_request_def q)
  then obtain x where x: "cw_msgs (cs_w st) p = Some x"
    using w'(1) by (auto simp: send_next_def rbind_eq_Inr at_addr_def upd_nc_def split: option.splits)
  show ?thesis
  proof (cases "r < 0")
    case True
    then obtain w2 w3 where a: "update_stats E (xq_opaque x) True (req_queue_release ?w1) = Inr w2"
        "ovs_xio_aio_complete_request (xq_opaque x) (-1) EIO w2 = Inr w3" "w' = delete_msg p w3"
      using w'(1) x pop by (auto simp: send_next_def rbind_eq_Inr at_addr_def upd_nc_def)
    have "nc_inflight_reqs (cw_nc w') = q" "cw_sent w' = cw_sent (cs_w st)"
      using update_stats_frame [OF a(1)] complete_frame [OF a(2)] a(3) by (simp_all add: req_queue_release_def upd_nc_def delete_msg_def)
    then show ?thesis using w'(2) a(3) q
      by (intro tracked_answer [OF assms(1) x a(1,2)]) (auto simp: req_queue_release_def upd_nc_def delete_msg_def outstanding_def)
  next
    case False
    then have "w' = ?w1\<lparr>cw_sent := cw_sent (cs_w st) @ [p]\<rparr>"
      using w'(1) x pop by (auto simp: send_next_def rbind_eq_Inr at_addr_def upd_nc_def)
    then show ?thesis using w'(2) q by (intro tracked_same [OF assms(1)]) (auto simp: pending_read_def upd_nc_def outstanding_def)
  qed
qed

lemma remove1_insert: "set xs \<subseteq> insert p (set (remove1 p xs))"
  by (induction xs) auto

lemma tracked_reply:
  assumes "tracked st" "exec_cli E (CReply header) st = Inr st'"
  shows "tracked st'"
proof -
  obtain w' where w': "on_response E header (cs_w st) = Inr w'" "st' = st\<lparr>cs_w := w'\<rparr>"
    using assms(2) by (auto simp: on_world_def rbind_eq_Inr)
  show ?thesis
  proof (cases "unpack_msg header (NetworkXioMsg_new Noop)")
    case (Inl e)
    then show ?thesis using w'
      by (intro tracked_same [OF assms(1)]) (auto simp: on_response_def release_response_def pending_read_def outstanding_def)
  next
    case (Inr m)
    then obtain x w1 w2 where x: "cw_msgs (cs_w st) (unat (nm_opaque m)) = Some x"
      and a: "update_stats E (xq_opaque x) (nm_retval m < 0) (cs_w st) = Inr w1"
        "ovs_xio_aio_complete_request (xq_opaque x) (nm_retval m) (nm_errval m) w1 = Inr w2"
      and e: "w' = (delete_msg (unat (nm_opaque m)) (req_queue_release (release_response w2)))\<lparr>cw_sent := remove1 (unat (nm_opaque m)) (cw_sent w2)\<rparr>"
      using w'(1) by (auto simp: on_response_def rbind_eq_Inr at_addr_def Let_def delete_msg_def req_queue_release_def
          release_response_def upd_nc_def split: option.splits)
    have "nc_inflight_reqs (cw_nc w') = nc_inflight_reqs (cw_nc (cs_w st))" "cw_sent w' = remove1 (unat (nm_opaque m)) (cw_sent (cs_w st))"
      using update_stats_frame [OF a(1)] complete_frame [OF a(2)] e
      by (simp_all add: req_queue_release_def release_response_def upd_nc_def delete_msg_def)
    then show ?thesis using w'(2) e remove1_insert [of "cw_sent (cs_w st)" "unat (nm_opaque m)"]
      by (intro tracked_answer [OF assms(1) x a])
        (auto simp: req_queue_release_def release_response_def upd_nc_def delete_msg_def outstanding_def)
  qed
qed

lemma tracked_error:
  assumes "tracked st" "exec_cli E (CError d header) st = Inr st'"
  shows "tracked st'"
proof -
  let ?w0 = "if d = DirectionIn then release_response (cs_w st) else cs_w st"
  have w0: "cw_msgs ?w0 = cw_msgs (cs_w st)" "cw_reqs ?w0 = cw_reqs (cs_w st)" "cw_sent ?w0 = cw_sent (cs_w st)" "cw_nc ?w0 = cw_nc (cs_w st)"
    by (simp_all add: release_response_def)
  obtain w' where w': "client_on_msg_error E d header (cs_w st) = Inr w'" "st' = st\<lparr>cs_w := w'\<rparr>"
    using assms(2) by (auto simp: on_world_def rbind_eq_Inr)
  show ?thesis
  proof (cases "unpack_msg header (NetworkXioMsg_new Noop)")
    case (Inl e)
    then have "w' = ?w0" using w'(1) by (simp add: client_on_msg_error_def Let_def del: if_split)
    then show ?thesis using w'(2) w0 by (intro tracked_same [OF assms(1)]) (auto simp: pending_read_def outstanding_def)
  next
    case (Inr m)
    let ?p = "unat (nm_opaque m)"
    obtain x w1 w2 where x: "cw_msgs (cs_w st) ?p = Some x"
      and a: "update_stats E (xq_opaque x) True ?w0 = Inr w1" "ovs_xio_aio_complete_request (xq_opaque x) (-1) EIO w1 = Inr w2"
      and e: "w' = (delete_msg ?p (req_queue_release w2))\<lparr>cw_sent := remove1 ?p (cw_sent (delete_msg ?p (req_queue_release w2)))\<rparr>"
      using w'(1) Inr unfolding client_on_msg_error_def Let_def
      by (auto simp: rbind_eq_Inr at_addr_def w0(1) split: option.splits simp del: if_split)
    have "nc_inflight_reqs (cw_nc w') = nc_inflight_reqs (cw_nc (cs_w st))" "cw_sent w' = remove1 ?p (cw_sent (cs_w st))"
      using update_stats_frame [OF a(1)] complete_frame [OF a(2)] e w0(3,4) by (simp_all add: req_queue_release_def upd_nc_def delete_msg_def)
    then show ?thesis using w'(2) e remove1_insert [of "cw_sent (cs_w st)" ?p]
      by (intro tracked_answer [OF assms(1) x a w0(1,2)]) (auto simp: req_queue_release_def upd_nc_def delete_msg_def outstanding_def)
  qed
qed

text \<open>A caller that gives up deletes its message, and its request if that is a pending read.\<close>

lemma give_up_world:
  "cs_w (give_up p st) = delete_msg p (cs_w st) \<and> (\<forall>a. refers (cs_w st) p a \<longrightarrow> \<not> pending_read (cs_w st) a) \<or>
   (\<exists>a. refers (cs_w st) p a \<and> cs_w (give_up p st) = delete_request a (delete_msg p (cs_w st)))"
proof (cases "\<exists>a. refers (cs_w st) p a")
  case True
  then obtain a x where a: "cw_msgs (cs_w st) p = Some x" "xq_opaque x = Some a" by (auto simp: refers_def)
  show ?thesis
  proof (cases "\<exists>r. cw_reqs (cs_w st) a = Some r \<and> ar_op r = ReadOp")
    case True
    with a have "cs_w (give_up p st) = delete_request a (delete_msg p (cs_w st))" by (auto simp: give_up_def Let_def)
    with a show ?thesis by (auto simp: refers_def)
  next
    case False
    with a have "cs_w (give_up p st) = delete_msg p (cs_w st)"
      by (cases "cw_reqs (cs_w st) a") (simp_all add: give_up_def Let_def)
    with a False show ?thesis by (auto simp: refers_def pending_read_def)
  qed
next
  case False
  then have "cs_w (give_up p st) = delete_msg p (cs_w st)"
    by (cases "cw_msgs (cs_w st) p") (auto simp: refers_def give_up_def Let_def split: option.splits)
  with False show ?thesis by blast
qed

lemma tracked_timeout:
  assumes "tracked st" "exec_cli E (CTimeout p) st = Inr st'"
  shows "tracked st'"
proof -
  have e: "cs_w st' = cs_w (give_up p st)" "cs_waiting st' = remove1 p (cs_waiting st)" using assms(2) by (auto simp: give_up_def Let_def)
  consider (msg) "cs_w st' = delete_msg p (cs_w st)" "\<And>a. refers (cs_w st) p a \<Longrightarrow> \<not> pending_read (cs_w st) a"
    | (req) a where "refers (cs_w st) p a" "cs_w st' = delete_request a (delete_msg p (cs_w st))"
    using give_up_world [of p st] unfolding e(1) [symmetric] by blast
  note split = this
  have w: "cw_msgs (cs_w st') = (cw_msgs (cs_w st))(p := None)" "cw_nc (cs_w st') = cw_nc (cs_w st)" "cw_sent (cs_w st') = cw_sent (cs_w st)"
    by (cases rule: split; simp add: delete_msg_def delete_request_def)+
  then have out: "set (outstanding st) \<subseteq> insert p (set (outstanding st'))"
    using remove1_insert [of "cs_waiting st" p] by (auto simp: outstanding_def e(2))
  have keep: "q \<in> set (outstanding st') \<and> refers (cs_w st') q b" if "q \<in> set (outstanding st)" "refers (cs_w st) q b" "\<not> refers (cs_w st) p b" for q b
  proof -
    have "q \<noteq> p" using that(2,3) by blast
    then show ?thesis using that(1,2) out w(1) by (auto simp: refers_def)
  qed
  have r: "pending_read (cs_w st) b \<and> \<not> refers (cs_w st) p b" if b: "pending_read (cs_w st') b" for b
  proof (cases rule: split)
    case msg
    with b have "pending_read (cs_w st) b" by (simp add: pending_read_def delete_msg_def)
    with msg(2) show ?thesis by blast
  next
    case (req a)
    with b have "pending_read (cs_w st) b" "b \<noteq> a" by (auto simp: pending_read_def delete_msg_def delete_request_def split: if_splits)
    with req(1) show ?thesis using refers_unique by blast
  qed
  show ?thesis using assms(1) r keep unfolding tracked_def by blast
qed

lemma tracked_begin:
  assumes "tracked st" "cli_ok (CBegin se op gp n cptr x) st" "exec_cli E (CBegin se op gp n cptr x) st = Inr st'"
  shows "tracked st'"
proof -
  let ?a = "se_req se" and ?p = "se_msg se"
  have fr: "cw_msgs (cs_w st) ?p = None" "xq_opaque x = Some ?a" using assms(2) by simp_all
  obtain q w1 where c: "create_new_request se op (Some gp) n cptr (cs_w st) = Inr (q, w1)" using assms(3) by (auto simp: begin_send_def rbind_eq_Inr)
  then have w1: "cw_msgs w1 = cw_msgs (cs_w st)" "cw_nc w1 = cw_nc (cs_w st)" "cw_sent w1 = cw_sent (cs_w st)"
      "\<And>b. b \<noteq> ?a \<Longrightarrow> cw_reqs w1 b = cw_reqs (cs_w st) b"
    by (auto simp: create_new_request_def rbind_eq_Inr at_addr_def Let_def split: if_splits option.splits)
  have m: "cw_msgs (cs_w st') = (cw_msgs (cs_w st))(?p \<mapsto> x)" and r: "cw_reqs (cs_w st') = cw_reqs w1"
    and out: "set (outstanding st') = insert ?p (set (outstanding st))"
    using assms(3) c w1(1-3)
    by (auto simp: begin_send_def Let_def new_msg_def req_queue_enter_def queue_push_def client_xstop_loop_def push_request_def
        upd_nc_def list_push_def outstanding_def split: if_splits)
  show ?thesis
  proof (rule tracked_step [OF assms(1), of ?a])
    show "pending_read (cs_w st) b" if "b \<noteq> ?a" "pending_read (cs_w st') b" for b using that r w1(4) by (simp add: pending_read_def)
    show "\<exists>p \<in> set (outstanding st'). refers (cs_w st') p ?a" using m out fr(2) by (auto simp: refers_def)
    show "q \<in> set (outstanding st') \<and> refers (cs_w st') q b" if "q \<in> set (outstanding st)" "refers (cs_w st) q b" for q b
      using that m out fr(1) by (auto simp: refers_def)
  qed
qed

lemma tracked_cli:
  assumes "tracked st" "cli_ok act st" "exec_cli E act st = Inr st'"
  shows "tracked st'"
proof (cases act)
  case (CNotifier n c)
  then show ?thesis using assms(3)
    by (intro tracked_same [OF assms(1)]) (auto simp: on_world_def rbind_eq_Inr new_notifier_def pending_read_def outstanding_def)
next
  case (CCompletion alloc_ok c)
  then show ?thesis using assms(3)
    by (cases alloc_ok; intro tracked_same [OF assms(1)]) (auto simp: on_world_def rbind_eq_Inr aio_create_completion_def set_errno_def pending_read_def outstanding_def)
next
  case (CRelease c)
  then show ?thesis using assms(3)
    by (intro tracked_same [OF assms(1)])
      (auto simp: on_world_def rbind_eq_Inr aio_release_completion_def at_addr_def pending_read_def outstanding_def split: option.splits)
next
  case (CStart a)
  then show ?thesis using assms(3)
    by (intro tracked_same [OF assms(1)])
      (auto simp: on_world_def rbind_eq_Inr timer_reset_def at_addr_def pending_read_def outstanding_def split: option.splits if_splits)
next
  case (CResume p)
  then have "p \<in> set (cs_waiting st)" "st' = st\<lparr>cs_w := queue_push p (cs_w st), cs_waiting := remove1 p (cs_waiting st)\<rparr>"
    using assms(2,3) by simp_all
  then have "set (outstanding st') = set (outstanding st)"
    using remove1_insert [of "cs_waiting st" p] set_remove1_subset [of p "cs_waiting st"]
    by (auto simp: queue_push_def client_xstop_loop_def push_request_def upd_nc_def list_push_def outstanding_def)
  then show ?thesis using assms(3) CResume
    by (intro tracked_same [OF assms(1)]) (auto simp: queue_push_def client_xstop_loop_def push_request_def upd_nc_def pending_read_def)
next
  case (CEvent ev)
  then show ?thesis using assms(3)
    by (cases ev; intro tracked_same [OF assms(1)])
      (auto simp: on_world_def rbind_eq_Inr client_on_session_event_def upd_nc_def pending_read_def outstanding_def)
next
  case (CFinish gp)
  then show ?thesis using assms(3)
    by (intro tracked_same [OF assms(1)])
      (auto simp: on_world_def rbind_eq_Inr aio_finish_def request_of_def at_addr_def pending_read_def outstanding_def split: option.splits if_splits)
next
  case (CBegin se op gp n cptr x)
  then show ?thesis using tracked_begin [OF assms(1)] assms(2,3) by blast
qed (use assms tracked_send tracked_reply tracked_error tracked_timeout in blast)+

interpretation clitrack: invariant_system "cli_init E qd" "cli_step E" tracked
  for E :: sysenv and qd :: "64 word"
proof unfold_locales
  show "tracked st" if "cli_init E qd st" for st using that by (simp add: cli_init_def tracked_def pending_read_def)
  show "tracked st'" if "tracked st" "cli_step E st st'" for st st' using that tracked_cli by (auto simp: cli_step_def)
qed

section \<open>The client comes to rest\<close>

text \<open>
  The steps that need no new call of a user: a waiting caller gets a slot or gives up, the event loop
  sends the next message, and libxio delivers an answer to a message or reports its failure.
\<close>

fun own_cli :: "cli_action \<Rightarrow> bool" where
  "own_cli (CResume p) \<longleftrightarrow> True"
| "own_cli (CTimeout p) \<longleftrightarrow> True"
| "own_cli (CSend r) \<longleftrightarrow> True"
| "own_cli (CReply header) \<longleftrightarrow> \<not> isl (unpack_msg header (NetworkXioMsg_new Noop))"
| "own_cli (CError d header) \<longleftrightarrow> \<not> isl (unpack_msg header (NetworkXioMsg_new Noop))"
| "own_cli _ \<longleftrightarrow> False"

definition cli_own :: "sysenv \<Rightarrow> cli_sys \<Rightarrow> cli_sys \<Rightarrow> bool" where
  "cli_own E st st' \<longleftrightarrow> (\<exists>act. own_cli act \<and> cli_ok act st \<and> exec_cli E act st = Inr st')"

definition cli_left :: "cli_sys \<Rightarrow> nat" where
  "cli_left st = 3 * length (cs_waiting st) + 2 * length (nc_inflight_reqs (cw_nc (cs_w st))) + length (cw_sent (cs_w st))"

lemma cli_own_step: "cli_own E st st' \<Longrightarrow> cli_step E st st'"
  by (auto simp: cli_own_def cli_step_def)

lemma send_next_lists:
  assumes "send_next E r w = Inr w'"
  shows "Suc (length (nc_inflight_reqs (cw_nc w'))) = length (nc_inflight_reqs (cw_nc w)) \<and> length (cw_sent w') \<le> Suc (length (cw_sent w))"
proof -
  obtain p q where q: "nc_inflight_reqs (cw_nc w) = p # q"
    using assms by (cases "nc_inflight_reqs (cw_nc w)") (auto simp: send_next_def pop_request_def)
  then have "nc_inflight_reqs (cw_nc w') = q \<and> (cw_sent w' = cw_sent w \<or> cw_sent w' = cw_sent w @ [p])"
    using assms by (auto simp: send_next_def pop_request_def rbind_eq_Inr upd_nc_def req_queue_release_def delete_msg_def
      dest!: complete_frame update_stats_frame split: if_splits)
  with q show ?thesis by auto
qed

lemma answer_lists:
  assumes "on_response E header w = Inr w' \<or> client_on_msg_error E d header w = Inr w'" "unpack_msg header (NetworkXioMsg_new Noop) = Inr m"
  shows "nc_inflight_reqs (cw_nc w') = nc_inflight_reqs (cw_nc w) \<and> cw_sent w' = remove1 (unat (nm_opaque m)) (cw_sent w)"
  using assms(1)
proof
  assume "on_response E header w = Inr w'"
  then show ?thesis using assms(2)
    by (auto simp: on_response_def rbind_eq_Inr Let_def delete_msg_def req_queue_release_def release_response_def upd_nc_def
        dest!: complete_frame update_stats_frame)
next
  assume "client_on_msg_error E d header w = Inr w'"
  then show ?thesis using assms(2)
    by (cases d) (auto simp: client_on_msg_error_def rbind_eq_Inr Let_def delete_msg_def req_queue_release_def release_response_def upd_nc_def
        dest!: complete_frame update_stats_frame)
qed

lemma cli_own_less:
  assumes "cli_own E st st'"
  shows "cli_left st' < cli_left st"
proof -
  obtain act where act: "own_cli act" "cli_ok act st" "exec_cli E act st = Inr st'" using assms by (auto simp: cli_own_def)
  have ans: ?thesis if h: "on_response E header (cs_w st) = Inr w' \<or> client_on_msg_error E d header (cs_w st) = Inr w'" "st' = st\<lparr>cs_w := w'\<rparr>"
      "\<not> isl (unpack_msg header (NetworkXioMsg_new Noop))" "answers_sent header (cs_w st)" for header d w'
  proof -
    obtain m where m: "unpack_msg header (NetworkXioMsg_new Noop) = Inr m" using h(3) by (cases "unpack_msg header (NetworkXioMsg_new Noop)") auto
    then have "unat (nm_opaque m) \<in> set (cw_sent (cs_w st))" using h(4) by (simp add: answers_sent_def)
    then have "length (remove1 (unat (nm_opaque m)) (cw_sent (cs_w st))) < length (cw_sent (cs_w st))"
      by (simp add: length_remove1) (cases "cw_sent (cs_w st)"; auto)
    with answer_lists [OF h(1) m] h(2) show ?thesis by (simp add: cli_left_def)
  qed
  show ?thesis
  proof (cases act)
    case (CResume p)
    then have "p \<in> set (cs_waiting st)" using act(2) by simp
    then have "cs_waiting st \<noteq> []" "length (remove1 p (cs_waiting st)) = length (cs_waiting st) - 1" by (auto simp: length_remove1)
    with act(3) CResume show ?thesis
      by (cases "cs_waiting st") (auto simp: cli_left_def queue_push_def client_xstop_loop_def push_request_def upd_nc_def list_push_def)
  next
    case (CTimeout p)
    then have p: "p \<in> set (cs_waiting st)" "st' = give_up p st" using act(2,3) by simp_all
    then have "cs_waiting st' = remove1 p (cs_waiting st)" by (simp add: give_up_def Let_def)
    moreover have "cs_w st' = delete_msg p (cs_w st) \<or> (\<exists>a. cs_w st' = delete_request a (delete_msg p (cs_w st)))"
      using give_up_world [of p st] unfolding p(2) by blast
    then have "cw_nc (cs_w st') = cw_nc (cs_w st)" "cw_sent (cs_w st') = cw_sent (cs_w st)"
      by (auto simp: delete_msg_def delete_request_def)
    moreover have "cs_waiting st \<noteq> []" "length (remove1 p (cs_waiting st)) = length (cs_waiting st) - 1" using p(1) by (auto simp: length_remove1)
    ultimately show ?thesis by (cases "cs_waiting st") (auto simp: cli_left_def)
  next
    case (CSend r)
    then obtain w' where "send_next E r (cs_w st) = Inr w'" "st' = st\<lparr>cs_w := w'\<rparr>" using act(3) by (auto simp: on_world_def rbind_eq_Inr)
    with send_next_lists [of E r "cs_w st" w'] show ?thesis by (simp add: cli_left_def)
  next
    case (CReply header)
    with act ans show ?thesis by (auto simp: on_world_def rbind_eq_Inr)
  next
    case (CError d header)
    with act ans show ?thesis by (auto simp: on_world_def rbind_eq_Inr)
  qed (use act(1) in simp_all)
qed

text \<open>How many round trips the statistics have counted.\<close>

definition samples :: "cworld \<Rightarrow> nat" where
  "samples w = unat (sc_numSamples (nc_rtt_stats (cw_nc w)))"

lemma unat_plus_one: "unat (x + 1) \<le> Suc (unat x)" for x :: "32 word"
  by (simp add: unat_word_ariths)

lemma update_stats_samples: "update_stats E v b w = Inr w' \<Longrightarrow> samples w' \<le> Suc (samples w)"
  using unat_plus_one [of "sc_numSamples (nc_rtt_stats (cw_nc w))"]
  by (auto simp: update_stats_def sc_updateStats_def samples_def rbind_eq_Inr at_addr_def upd_nc_def Let_def
      split: option.splits if_splits)

lemma send_next_samples: "send_next E r w = Inr w' \<Longrightarrow> samples w' \<le> Suc (samples w)"
  by (auto simp: send_next_def pop_request_def rbind_eq_Inr samples_def upd_nc_def req_queue_release_def delete_msg_def
      dest!: complete_frame update_stats_samples split: if_splits option.splits)

lemma answer_samples:
  assumes "on_response E header w = Inr w' \<or> client_on_msg_error E d header w = Inr w'"
  shows "samples w' \<le> Suc (samples w)"
  using assms
proof
  assume "on_response E header w = Inr w'"
  then show ?thesis
    by (auto simp: on_response_def rbind_eq_Inr Let_def samples_def delete_msg_def req_queue_release_def release_response_def upd_nc_def
        dest!: complete_frame update_stats_samples split: sum.splits)
next
  assume "client_on_msg_error E d header w = Inr w'"
  then show ?thesis
    by (cases d) (auto simp: client_on_msg_error_def rbind_eq_Inr Let_def samples_def delete_msg_def req_queue_release_def release_response_def
        upd_nc_def dest!: complete_frame update_stats_samples split: sum.splits)
qed

lemma cli_own_samples:
  assumes "cli_own E st st'"
  shows "samples (cs_w st') \<le> Suc (samples (cs_w st))"
proof -
  obtain act where act: "own_cli act" "exec_cli E act st = Inr st'" using assms by (auto simp: cli_own_def)
  show ?thesis
  proof (cases act)
    case (CResume p)
    with act show ?thesis by (auto simp: queue_push_def client_xstop_loop_def push_request_def upd_nc_def samples_def)
  next
    case (CTimeout p)
    then have "cs_w st' = delete_msg p (cs_w st) \<or> (\<exists>a. cs_w st' = delete_request a (delete_msg p (cs_w st)))"
      using act(2) give_up_world [of p st] by (metis exec_cli.simps(6) sum.inject(2))
    then show ?thesis by (auto simp: delete_msg_def delete_request_def samples_def)
  next
    case (CSend r)
    with act(2) send_next_samples show ?thesis by (auto simp: on_world_def rbind_eq_Inr)
  next
    case (CReply header)
    with act(2) show ?thesis by (auto simp: on_world_def rbind_eq_Inr intro!: answer_samples)
  next
    case (CError d header)
    with act(2) show ?thesis by (auto simp: on_world_def rbind_eq_Inr intro!: answer_samples)
  qed (use act(1) in simp_all)
qed

definition cli_good :: "sysenv \<Rightarrow> 64 word \<Rightarrow> cli_sys \<Rightarrow> bool" where
  "cli_good E qd st \<longleftrightarrow> env_ok E \<and> cinv E (sint qd) st \<and> tracked st \<and> samples (cs_w st) + cli_left st < 2 ^ 32"

lemma stats_roomI: "samples w + 1 < 2 ^ 32 \<Longrightarrow> stats_room w"
  by (auto simp: samples_def stats_room_def unat_word_ariths dest: arg_cong [where f = unat])

interpretation clidrain: draining "cli_good E qd" "cli_own E" cli_left for E :: sysenv and qd :: "64 word"
proof unfold_locales
  show "cli_left st' < cli_left st" if "cli_own E st st'" for st st' by (rule cli_own_less [OF that])
  show "cli_good E qd st'" if g: "cli_good E qd st" and o: "cli_own E st st'" for st st'
  proof -
    obtain act where "cli_ok act st" "exec_cli E act st = Inr st'" using o by (auto simp: cli_own_def)
    then have "cinv E (sint qd) st'" "tracked st'" using g cli_progress tracked_cli unfolding cli_good_def by fastforce+
    moreover have "samples (cs_w st') + cli_left st' \<le> samples (cs_w st) + cli_left st"
      using cli_own_less [OF o] cli_own_samples [OF o] by linarith
    ultimately show ?thesis using g unfolding cli_good_def by linarith
  qed
qed

text \<open>As long as a message is outstanding, some step is possible.\<close>

lemma cli_busy:
  assumes g: "cli_good E qd st" and o: "outstanding st \<noteq> []"
  shows "\<exists>st'. cli_own E st st'"
proof -
  have step: ?thesis if "own_cli act" "cli_ok act st" for act
    using that g cli_progress [of E "sint qd" st act] unfolding cli_good_def cli_own_def by blast
  have "0 < cli_left st" using o by (auto simp: outstanding_def cli_left_def)
  then have "samples (cs_w st) + 1 < 2 ^ 32" using g unfolding cli_good_def by linarith
  then have room: "stats_room (cs_w st)" by (rule stats_roomI)
  consider (w) p where "p \<in> set (cs_waiting st)" | (q) "nc_inflight_reqs (cw_nc (cs_w st)) \<noteq> []" | (s) p where "p \<in> set (cw_sent (cs_w st))"
    using o by (metis append_is_Nil_conv last_in_set outstanding_def)
  then show ?thesis
  proof cases
    case w
    then show ?thesis using step [of "CResume p"] step [of "CTimeout p"] by (cases "req_queue_ready (cs_w st)") simp_all
  next
    case q
    then show ?thesis using step [of "CSend 0"] room by (simp add: is_queue_empty_def)
  next
    case s
    let ?m = "(NetworkXioMsg_new ReadRsp)\<lparr>nm_opaque := of_nat p\<rparr>"
    obtain es where "cinv_es E (sint qd) es st" using g by (auto simp: cli_good_def cinv_def)
    moreover have "p \<in> set (outstanding st)" using s by (simp add: outstanding_def)
    ultimately obtain a n es' where "cinv_es E (sint qd) ((p, a, n) # es') st" using pick_entry by blast
    then have "p < 2 ^ 64" by (simp add: cinv_es_def out_ok_def entry_ok_def)
    then have "unat (nm_opaque ?m) = p" by (simp add: unsigned_of_nat take_bit_nat_eq_self)
    moreover have "unpack_msg (pack_msg ?m) (NetworkXioMsg_new Noop) = Inr ?m"
      using unpack_pack_msg [of ?m "[]"] by (simp add: msg_ok_def opcode_ok_def int_range_def NetworkXioMsg_new_def)
    ultimately show ?thesis using step [of "CReply (pack_msg ?m)"] room s by (simp add: answers_sent_def)
  qed
qed

text \<open>The inner loop of the event loop is a run of such steps that leaves the queue empty.\<close>

lemma client_send_all_run:
  assumes "cli_good E qd st"
  shows "\<exists>k w'. client_send_all E send (cs_w st) = Inr w' \<and> is_queue_empty w' \<and> (cli_own E ^^ k) st (st\<lparr>cs_w := w'\<rparr>)"
  using assms
proof (induction "cli_left st" arbitrary: st rule: less_induct)
  case less
  show ?case
  proof (cases "is_queue_empty (cs_w st)")
    case True
    have "(cli_own E ^^ 0) st (st\<lparr>cs_w := cs_w st\<rparr>)" by simp
    with True show ?thesis by (subst client_send_all.simps) (simp only: if_True, blast)
  next
    case False
    let ?r = "send (hd (nc_inflight_reqs (cw_nc (cs_w st))))"
    have "0 < cli_left st" using False by (auto simp: is_queue_empty_def cli_left_def)
    then have "samples (cs_w st) + 1 < 2 ^ 32" using less.prems unfolding cli_good_def by linarith
    then have ok: "cli_ok (CSend ?r) st" using False stats_roomI by simp
    then obtain st1 where "exec_cli E (CSend ?r) st = Inr st1"
      using less.prems cli_progress [of E "sint qd" st] unfolding cli_good_def by blast
    then obtain w1 where w1: "send_next E ?r (cs_w st) = Inr w1" "exec_cli E (CSend ?r) st = Inr (st\<lparr>cs_w := w1\<rparr>)"
      by (auto simp: on_world_def rbind_eq_Inr)
    then have o: "cli_own E st (st\<lparr>cs_w := w1\<rparr>)" using ok own_cli.simps(3) unfolding cli_own_def by blast
    obtain k w' where "client_send_all E send w1 = Inr w'" "is_queue_empty w'" "(cli_own E ^^ k) (st\<lparr>cs_w := w1\<rparr>) (st\<lparr>cs_w := w'\<rparr>)"
      using less.hyps [OF clidrain.own_less [OF less.prems o] clidrain.good_own [OF less.prems o]] by auto
    then show ?thesis using False w1(1) relpowp_Suc_I2 [of "cli_own E", OF o]
      by (subst client_send_all.simps) (simp only: if_False sum.case, blast)
  qed
qed

lemma reach_cli_good:
  assumes "env_ok E" "reach (cli_init E qd) (cli_step E) st" "samples (cs_w st) + cli_left st < 2 ^ 32"
  shows "cli_good E qd st"
  using clis.inv_reach [OF assms(2)] clitrack.inv_reach [OF assms(2)] assms(1,3) by (simp add: cli_good_def)

text \<open>
  A pass of the outer loop: when libxio reports only messages it has, the callbacks and the sending
  that follows run without a fault and leave the queue empty.
\<close>

fun call_ok :: "client_callback \<Rightarrow> cworld \<Rightarrow> bool" where
  "call_ok (CbResponse header) w \<longleftrightarrow> answers_sent header w"
| "call_ok (CbMsgError d header) w \<longleftrightarrow> answers_sent header w"
| "call_ok (CbSessionEvent ev) w \<longleftrightarrow> True"
| "call_ok CbStopLoop w \<longleftrightarrow> True"

fun calls_ok :: "sysenv \<Rightarrow> client_callback list \<Rightarrow> cworld \<Rightarrow> bool" where
  "calls_ok E [] w \<longleftrightarrow> True"
| "calls_ok E (cb # cbs) w \<longleftrightarrow> call_ok cb w \<and> (case client_call (Some 0) E cb w of Inl _ \<Rightarrow> True | Inr w1 \<Rightarrow> calls_ok E cbs w1)"

lemma client_call_obj: "client_call (Some obj) E cb w = client_call (Some 0) E cb w"
  by (cases cb) (simp_all add: static_on_response_def static_on_msg_error_def static_on_session_event_def static_evfd_stop_loop_def)

lemma client_call_exec:
  "client_call (Some obj) E (CbResponse header) (cs_w st) = Inr w' \<longleftrightarrow> exec_cli E (CReply header) st = Inr (st\<lparr>cs_w := w'\<rparr>)"
  "client_call (Some obj) E (CbMsgError d header) (cs_w st) = Inr w' \<longleftrightarrow> exec_cli E (CError d header) st = Inr (st\<lparr>cs_w := w'\<rparr>)"
  "client_call (Some obj) E (CbSessionEvent ev) (cs_w st) = Inr w' \<longleftrightarrow> exec_cli E (CEvent ev) st = Inr (st\<lparr>cs_w := w'\<rparr>)"
proof -
  have inj: "st\<lparr>cs_w := a\<rparr> = st\<lparr>cs_w := b\<rparr> \<longleftrightarrow> a = b" for a b by (metis cli_sys.select_convs(1) cli_sys.surjective cli_sys.update_convs(1))
  show "client_call (Some obj) E (CbResponse header) (cs_w st) = Inr w' \<longleftrightarrow> exec_cli E (CReply header) st = Inr (st\<lparr>cs_w := w'\<rparr>)"
    "client_call (Some obj) E (CbMsgError d header) (cs_w st) = Inr w' \<longleftrightarrow> exec_cli E (CError d header) st = Inr (st\<lparr>cs_w := w'\<rparr>)"
    "client_call (Some obj) E (CbSessionEvent ev) (cs_w st) = Inr w' \<longleftrightarrow> exec_cli E (CEvent ev) st = Inr (st\<lparr>cs_w := w'\<rparr>)"
    by (auto simp: static_on_response_def static_on_msg_error_def static_on_session_event_def on_world_def rbind_eq_Inr inj)
qed

lemma answer_left:
  assumes "on_response E header (cs_w st) = Inr w' \<or> client_on_msg_error E d header (cs_w st) = Inr w'"
  shows "cli_left (st\<lparr>cs_w := w'\<rparr>) \<le> cli_left st"
proof (cases "unpack_msg header (NetworkXioMsg_new Noop)")
  case (Inl e)
  with assms show ?thesis
    by (auto simp: on_response_def client_on_msg_error_def Let_def release_response_def cli_left_def split: if_splits)
next
  case (Inr m)
  from answer_lists [OF assms this] length_remove1 [of "unat (nm_opaque m)" "cw_sent (cs_w st)"] show ?thesis
    by (simp add: cli_left_def)
qed

lemma answer_exec:
  assumes "exec_cli E (CReply header) st = Inr st' \<or> exec_cli E (CError d header) st = Inr st'"
  shows "\<exists>w'. st' = st\<lparr>cs_w := w'\<rparr> \<and> samples w' \<le> Suc (samples (cs_w st)) \<and> cli_left st' \<le> cli_left st"
proof -
  obtain w' where w': "on_response E header (cs_w st) = Inr w' \<or> client_on_msg_error E d header (cs_w st) = Inr w'" "st' = st\<lparr>cs_w := w'\<rparr>"
    using assms by (auto simp: on_world_def rbind_eq_Inr)
  with answer_samples [OF w'(1)] answer_left [OF w'(1)] show ?thesis by blast
qed

definition cli_kept :: "sysenv \<Rightarrow> 64 word \<Rightarrow> cli_sys \<Rightarrow> cworld \<Rightarrow> bool" where
  "cli_kept E qd st w' \<longleftrightarrow> cinv E (sint qd) (st\<lparr>cs_w := w'\<rparr>) \<and> tracked (st\<lparr>cs_w := w'\<rparr>) \<and>
     samples w' \<le> Suc (samples (cs_w st)) \<and> cli_left (st\<lparr>cs_w := w'\<rparr>) \<le> cli_left st"

lemma stop_loop_kept:
  assumes "cinv E (sint qd) st" "tracked st"
  shows "cli_kept E qd st (client_evfd_stop_loop (cs_w st))"
proof -
  obtain es where es: "cinv_es E (sint qd) es st" using assms(1) by (auto simp: cinv_def)
  let ?w = "client_evfd_stop_loop (cs_w st)"
  have o: "out_ok E (cs_spare st) es ?w"
    using es by (simp add: cinv_es_def out_ok_def entry_ok_def client_evfd_stop_loop_def upd_nc_def)
  have "cinv E (sint qd) (st\<lparr>cs_w := ?w\<rparr>)"
    using es by (intro cinv_world [OF es o]) (auto simp: lists_same_def client_evfd_stop_loop_def upd_nc_def cinv_es_def starting_ok_def)
  moreover have "tracked (st\<lparr>cs_w := ?w\<rparr>)"
    by (rule tracked_same [OF assms(2)]) (simp_all add: client_evfd_stop_loop_def upd_nc_def pending_read_def outstanding_def)
  ultimately show ?thesis by (simp add: cli_kept_def client_evfd_stop_loop_def upd_nc_def samples_def cli_left_def)
qed

lemma client_call_kept:
  assumes E: "env_ok E" and inv: "cinv E (sint qd) st" "tracked st" and room: "stats_room (cs_w st)" and ok: "call_ok cb (cs_w st)"
  shows "\<exists>w'. client_call (Some obj) E cb (cs_w st) = Inr w' \<and> cli_kept E qd st w'"
proof -
  have on: "\<exists>w'. client_call (Some obj) E cb (cs_w st) = Inr w' \<and> cli_kept E qd st w'"
    if "cli_ok act st" "\<And>w'. client_call (Some obj) E cb (cs_w st) = Inr w' \<longleftrightarrow> exec_cli E act st = Inr (st\<lparr>cs_w := w'\<rparr>)"
      "\<And>st'. exec_cli E act st = Inr st' \<Longrightarrow> \<exists>w'. st' = st\<lparr>cs_w := w'\<rparr> \<and> samples w' \<le> Suc (samples (cs_w st)) \<and> cli_left st' \<le> cli_left st" for act
    using that cli_progress [OF E inv(1) that(1)] tracked_cli [OF inv(2) that(1)] unfolding cli_kept_def by blast
  show ?thesis
  proof (cases cb)
    case (CbResponse header)
    have "cli_ok (CReply header) st" using ok room CbResponse by simp
    with CbResponse show ?thesis using on [of "CReply header"] client_call_exec(1) answer_exec by blast
  next
    case (CbMsgError d header)
    have "cli_ok (CError d header) st" using ok room CbMsgError by simp
    with CbMsgError show ?thesis using on [of "CError d header"] client_call_exec(2) answer_exec by blast
  next
    case (CbSessionEvent ev)
    have "samples (client_on_session_event ev (cs_w st)) = samples (cs_w st)"
        "cli_left (st\<lparr>cs_w := client_on_session_event ev (cs_w st)\<rparr>) = cli_left st"
      by (cases ev; simp add: client_on_session_event_def upd_nc_def samples_def cli_left_def)+
    moreover have "exec_cli E (CEvent ev) st = Inr (st\<lparr>cs_w := client_on_session_event ev (cs_w st)\<rparr>)" by (simp add: on_world_def)
    ultimately have "\<exists>w'. st' = st\<lparr>cs_w := w'\<rparr> \<and> samples w' \<le> Suc (samples (cs_w st)) \<and> cli_left st' \<le> cli_left st"
      if "exec_cli E (CEvent ev) st = Inr st'" for st' using that by (metis le_SucI order_refl sum.inject(2))
    then show ?thesis using CbSessionEvent on [of "CEvent ev"] client_call_exec(3) by auto
  next
    case CbStopLoop
    then show ?thesis using stop_loop_kept [OF inv] by (simp add: static_evfd_stop_loop_def)
  qed
qed

lemma client_calls_good:
  assumes "cli_good E qd st" "samples (cs_w st) + cli_left st + length cbs < 2 ^ 32" "calls_ok E cbs (cs_w st)"
  shows "\<exists>w'. rfold (client_call (Some obj) E) cbs (cs_w st) = Inr w' \<and> cli_good E qd (st\<lparr>cs_w := w'\<rparr>)"
  using assms
proof (induction cbs arbitrary: st)
  case (Cons cb cbs)
  have "stats_room (cs_w st)" using Cons.prems(2) by (intro stats_roomI) simp
  then obtain w' where w': "client_call (Some 0) E cb (cs_w st) = Inr w'" "cli_kept E qd st w'"
    using Cons.prems client_call_kept [of E qd st cb 0] unfolding cli_good_def by auto
  then have g: "cli_good E qd (st\<lparr>cs_w := w'\<rparr>)" "samples (cs_w (st\<lparr>cs_w := w'\<rparr>)) + cli_left (st\<lparr>cs_w := w'\<rparr>) + length cbs < 2 ^ 32"
    using Cons.prems(1,2) by (simp_all add: cli_good_def cli_kept_def)
  have "calls_ok E cbs (cs_w (st\<lparr>cs_w := w'\<rparr>))" using Cons.prems(3) w'(1) by simp
  from Cons.IH [OF g this] w'(1) show ?case by (simp add: client_call_obj [of obj])
qed simp

lemma run_loop_pass_empties:
  assumes "cli_good E qd st" "samples (cs_w st) + cli_left st + length (ps_calls pass) < 2 ^ 32" "calls_ok E (ps_calls pass) (cs_w st)"
    and "ps_ret pass = 0" "ps_others pass = id"
  shows "\<exists>w'. run_loop_pass (Some obj) E pass (cs_w st) = Inr w' \<and> is_queue_empty w' \<and> cli_good E qd (st\<lparr>cs_w := w'\<rparr>)"
proof -
  obtain w1 where w1: "rfold (client_call (Some obj) E) (ps_calls pass) (cs_w st) = Inr w1" "cli_good E qd (st\<lparr>cs_w := w1\<rparr>)"
    using client_calls_good [OF assms(1-3)] by blast
  obtain k w' where "client_send_all E (ps_send pass) w1 = Inr w'" "is_queue_empty w'" "(cli_own E ^^ k) (st\<lparr>cs_w := w1\<rparr>) (st\<lparr>cs_w := w'\<rparr>)"
    using client_send_all_run [OF w1(2), of "ps_send pass"] by auto
  moreover have "cli_good E qd (st\<lparr>cs_w := w'\<rparr>)" using clidrain.own_run [OF calculation(3) w1(2)] by simp
  ultimately show ?thesis using w1(1) assms(4,5) by (simp add: run_loop_pass_def)
qed



end
