(* ===== verification/IO_Executor_Progress.thy ===== *)
theory IO_Executor_Progress
  imports IO_Executor_Behaviour
begin

text \<open>
  Progress of the executor: a queued request always has a thread on its way to process it, the
  executor's own steps come to an end, and when they have, every accepted job has been notified. And
  its abstract specification, a bag of accepted jobs, with the simulation by the executor.
\<close>

section \<open>What a step adds\<close>

lemma touches_stamp_job: "stamp_job E p s = Inr s' \<Longrightarrow> touches {p} s s'"
  by (auto simp: stamp_job_def rbind_eq_Inr touches_def put_job_def)

lemma touches_submit:
  "submit_request E p s = Inr (ph, s') \<Longrightarrow> touches {p} s s'"
  "submit_fd E p s = Inr (ph, s') \<Longrightarrow> touches {p} s s'"
  by (auto simp: submit_request_def submit_fd_def stamp_job_def rbind_eq_Inr touches_def put_job_def Let_def)

lemma touches_refused:
  "touches {p} s (put_job p j s)" "touches {p} s (put_job p j (put_job p j' s))" "touches {p} s (count_full (put_job p j s))"
  by (auto simp: touches_def put_job_def count_full_def)

lemma touches_submitTask_begin:
  assumes "submitTask_begin E b p s = Inr (ph, s')"
  shows "touches {p} s s'"
proof (cases "ix_state s = RUNNING")
  case False
  then show ?thesis using assms by (simp add: submitTask_begin_def)
next
  case True
  have "touches {p} s s' \<or> (\<exists>j. submit_request E p (put_job p j s) = Inr (ph, s')) \<or> (\<exists>j. submit_fd E p (put_job p j s) = Inr (ph, s'))"
    using assms True unfolding submitTask_begin_def rbind_eq_Inr Let_def
    by (simp only: if_not_P simp_thms not_not split: if_split_asm) (auto simp: rbind_eq_Inr touches_refused split: if_splits)
  then show ?thesis using touches_trans [OF touches_refused(1)] touches_submit by blast
qed

text \<open>Accepted jobs and notifications are only ever added, and the threshold and the depth stay as they are.\<close>

definition grows :: "xsys \<Rightarrow> xsys \<Rightarrow> bool" where
  "grows st st' \<longleftrightarrow> prefix (xs_acc st) (xs_acc st') \<and> prefix (ix_notified (xs_x st)) (ix_notified (xs_x st')) \<and>
     ix_minSubmitSize (xs_x st') = ix_minSubmitSize (xs_x st) \<and> cx_ioQueueDepth (ix_ctx (xs_x st')) = cx_ioQueueDepth (ix_ctx (xs_x st))"

lemma grows_touches: "touches P (xs_x st) (xs_x st') \<Longrightarrow> xs_acc st' = xs_acc st \<Longrightarrow> grows st st'"
  by (simp add: grows_def touches_def)

lemma grows_after_submit:
  assumes "prefix (ix_notified (xs_x st)) (ix_notified x)" "ix_minSubmitSize x = ix_minSubmitSize (xs_x st)"
    and "cx_ioQueueDepth (ix_ctx x) = cx_ioQueueDepth (ix_ctx (xs_x st))" "xs_acc st0 = xs_acc st"
  shows "grows st (after_submit p tag ph x st0)"
  using assms by (cases ph) (auto simp: grows_def after_submit_def)

lemma exec_action_grows:
  assumes "exec_action E a st = Some (Inr st')"
  shows "grows st st'"
proof (cases a)
  case (ABegin b p)
  then obtain ph x where "submitTask_begin E b p (xs_x st) = Inr (ph, x)"
      "st' = after_submit p (tag_of p (xs_x st)) ph x (st\<lparr>xs_new := remove1 p (xs_new st)\<rparr>)"
    using assms by (auto simp: rbind_eq_Inr split: if_splits)
  then show ?thesis using touches_submitTask_begin by (auto simp: touches_def intro!: grows_after_submit)
next
  case (AResumeFd p)
  let ?x = "(xs_x st)\<lparr>ix_fdWoken := remove1 p (ix_fdWoken (xs_x st)), ix_fdWaiters := remove1 p (ix_fdWaiters (xs_x st))\<rparr>"
  obtain ph x where x: "submit_fd E p ?x = Inr (ph, x)" "st' = after_submit p (tag_of p (xs_x st)) ph x st"
    using AResumeFd assms by (auto simp: rbind_eq_Inr split: if_splits)
  show ?thesis using touches_submit(2) [OF x(1)] unfolding x(2) by (auto simp: touches_def intro!: grows_after_submit)
next
  case (AResumeRequest p)
  let ?x = "(xs_x st)\<lparr>ix_requestWoken := remove1 p (ix_requestWoken (xs_x st)),
    ix_requestWaiters := remove1 p (ix_requestWaiters (xs_x st))\<rparr>"
  obtain ph x where x: "submit_request E p ?x = Inr (ph, x)" "st' = after_submit p (tag_of p (xs_x st)) ph x st"
    using AResumeRequest assms by (auto simp: rbind_eq_Inr split: if_splits)
  show ?thesis using touches_submit(1) [OF x(1)] unfolding x(2) by (auto simp: touches_def intro!: grows_after_submit)
next
  case (AProcess io)
  then obtain x where x: "submitTask_process E io (xs_x st) = Inr x" "xs_x st' = x" "xs_acc st' = xs_acc st"
    using assms by (auto simp: rbind_eq_Inr split: if_splits)
  then have "touches (set (ix_requestQueue (xs_x st))) (xs_x st) x"
    by (auto simp: submitTask_process_def rbind_eq_Inr intro: touches_ProcessRequestQueue split: if_splits)
  with x show ?thesis by (auto intro: grows_touches)
next
  case (AShutdownEvent io)
  then obtain n x where "ProcessRequestQueue E io (xs_x st) = Inr (n, x)" "xs_x st' = x" "xs_acc st' = xs_acc st"
    using assms by (auto simp: rbind_eq_Inr completion_event_def split: if_splits)
  then show ?thesis using grows_touches [OF touches_ProcessRequestQueue] by blast
next
  case (AEvents n chunks)
  then obtain evs x where x: "ProcessCallbacks E evs ((xs_x st)\<lparr>ix_inflight := fold remove1 (map fst evs) (ix_inflight (xs_x st))\<rparr>) = Inr x"
      "xs_x st' = x" "xs_acc st' = xs_acc st"
    using assms by (auto simp: rbind_eq_Inr completion_event_def split: if_splits option.splits)
  show ?thesis using touches_ProcessCallbacks [OF x(1)] x(2,3) by (simp add: grows_def touches_def)
next
  case (AFd ue pw)
  then obtain g x where "ProcessFdQueue_body E ue pw (xs_x st) = Inr (g, x)" "xs_x st' = x" "xs_acc st' = xs_acc st"
    using assms by (auto simp: rbind_eq_Inr split: if_splits)
  then show ?thesis using grows_touches [OF touches_ProcessFdQueue_body] by blast
next
  case AStopIntake
  then show ?thesis using assms by (auto simp: grows_def stop_intake_def Let_def wakeup_ctxCond_def split: if_splits)
next
  case AStopFinal
  then show ?thesis using assms by (auto simp: grows_def stop_final_def split: if_splits)
qed (use assms in \<open>auto simp: grows_def put_job_def split: if_splits\<close>)

section \<open>A queued request is served\<close>

text \<open>
  Without a submitter thread the threshold is 1, so every caller that queues a request goes on to
  process the queue: there are at least as many such callers as queued requests.
\<close>

definition served :: "xsys \<Rightarrow> bool" where
  "served st \<longleftrightarrow> ix_minSubmitSize (xs_x st) = 1 \<and> length (ix_requestQueue (xs_x st)) \<le> xs_procs st"

lemma submit_request_phase:
  assumes "submit_request E p s = Inr (ph, s')" "cf_noSubmitterThread (ix_config s)" "ix_minSubmitSize s = 1" "0 \<le> ix_requestQueueSize s"
  shows "ph = NeedProcess \<and> ix_requestQueue s' = ix_requestQueue s @ [p]"
  using assms by (auto simp: submit_request_def stamp_job_def rbind_eq_Inr put_job_def Let_def list_push_def)

lemma submit_fd_phase: "submit_fd E p s = Inr (ph, s') \<Longrightarrow> ph = Returned 0 \<and> ix_requestQueue s' = ix_requestQueue s"
  by (auto simp: submit_fd_def stamp_job_def rbind_eq_Inr put_job_def Let_def)

lemma submitTask_begin_phase:
  assumes "submitTask_begin E b p s = Inr (ph, s')" "cf_noSubmitterThread (ix_config s)" "ix_minSubmitSize s = 1" "0 \<le> ix_requestQueueSize s"
  shows "ph = NeedProcess \<and> ix_requestQueue s' = ix_requestQueue s @ [p] \<or> ph \<noteq> NeedProcess \<and> ix_requestQueue s' = ix_requestQueue s"
proof (cases "ix_state s = RUNNING")
  case False
  then show ?thesis using assms by (auto simp: submitTask_begin_def)
next
  case True
  have put: "ix_requestQueue (put_job p j x) = ix_requestQueue x" "ix_requestQueue (count_full x) = ix_requestQueue x" for j x
    by (simp_all add: put_job_def count_full_def)
  have "ph \<noteq> NeedProcess \<and> ix_requestQueue s' = ix_requestQueue s \<or> (\<exists>j. submit_request E p (put_job p j s) = Inr (ph, s')) \<or>
      (\<exists>j. submit_fd E p (put_job p j s) = Inr (ph, s'))"
    using assms(1) True unfolding submitTask_begin_def rbind_eq_Inr Let_def
    by (simp only: if_not_P simp_thms not_not split: if_split_asm) (auto simp: rbind_eq_Inr put split: if_splits)
  moreover have "ph = NeedProcess \<and> ix_requestQueue s' = ix_requestQueue s @ [p]" if "submit_request E p (put_job p j s) = Inr (ph, s')" for j
    using submit_request_phase [OF that] assms(2-4) by (simp add: put_job_def)
  moreover have "ph = Returned 0 \<and> ix_requestQueue s' = ix_requestQueue s" if "submit_fd E p (put_job p j s) = Inr (ph, s')" for j
    using submit_fd_phase [OF that] by (simp add: put_job_def)
  ultimately show ?thesis by blast
qed

lemma served_after_submit:
  assumes "served st" "ix_minSubmitSize x = 1" "xs_procs st0 = xs_procs st"
    and "ph = NeedProcess \<and> ix_requestQueue x = ix_requestQueue (xs_x st) @ [p] \<or>
      ph \<noteq> NeedProcess \<and> ix_requestQueue x = ix_requestQueue (xs_x st)"
  shows "served (after_submit p tag ph x st0)"
  using assms by (cases ph) (auto simp: served_def after_submit_def)

lemma served_same:
  "served st \<Longrightarrow> grows st st' \<Longrightarrow> length (ix_requestQueue (xs_x st')) \<le> length (ix_requestQueue (xs_x st)) \<Longrightarrow> xs_procs st' = xs_procs st \<Longrightarrow>
    served st'"
  by (auto simp: served_def grows_def)

text \<open>A thread that processes a nonempty queue takes at least one request from it.\<close>

lemma prq_takes:
  assumes "sysinv E st" "ProcessRequestQueue E io (xs_x st) = Inr (n, x)" "prq_result moved n (xs_x st) x" "takes_all io"
    and "ix_ctxCond (xs_x st) > 0" "ix_requestQueue (xs_x st) \<noteq> []"
  shows "moved \<noteq> []"
proof
  assume m: "moved = []"
  have d: "cx_ioQueueDepth (ix_ctx x) = cx_ioQueueDepth (ix_ctx (xs_x st))"
    using touches_ProcessRequestQueue [OF assms(2)] by (simp add: touches_def)
  have e: "FilerCtx_isEmpty (ix_ctx x)" "ix_inflight x = ix_inflight (xs_x st)"
    using assms(3,6) m by (auto simp: prq_result_def)
  have "xinv E (xs_acc st) [] 0 x"
    using ProcessRequestQueue_ok [OF _ assms(4) _ assms(5)] assms(1,2) unfolding sysinv_def by fastforce
  with e d assms(1,5) show False
    by (auto simp: sysinv_def xinv_def ctx_ok_def ctx_slack_def FilerCtx_isEmpty_def)
qed

lemma process_shrinks:
  assumes "sysinv E st" "takes_all io" "submitTask_process E io (xs_x st) = Inr x" "ix_minSubmitSize (xs_x st) = 1"
    and "ix_ctxCond (xs_x st) > 0 \<or> ix_requestQueueSize (xs_x st) < sint (ix_minSubmitSize (xs_x st))"
  shows "length (ix_requestQueue x) + length (ix_inflight x) \<le> length (ix_requestQueue (xs_x st)) + length (ix_inflight (xs_x st)) \<and>
    length (ix_requestQueue x) \<le> length (ix_requestQueue (xs_x st)) - 1 \<and> ix_fdQueue x = ix_fdQueue (xs_x st) \<and> ix_state x = ix_state (xs_x st)"
  using submitTask_process_effect [OF assms(1-3,5)]
proof (elim disjE exE conjE)
  assume "x = xs_x st" "ix_requestQueueSize (xs_x st) < sint (ix_minSubmitSize (xs_x st))"
  then show ?thesis using assms(1,4) by (auto simp: sysinv_def xinv_def sizes_ok_def)
next
  fix n moved assume p: "ix_ctxCond (xs_x st) > 0" "prq_result moved n (xs_x st) x" "ProcessRequestQueue E io (xs_x st) = Inr (n, x)"
  have "length moved \<ge> 1 \<or> ix_requestQueue (xs_x st) = []"
    using prq_takes [OF assms(1) p(3,2) assms(2) p(1)] by (cases moved) auto
  with p(2) show ?thesis by (auto simp: prq_result_def)
qed

text \<open>
  The steps the executor takes without a new request: a caller processes the request queue, the
  completion thread handles events of the kernel, the fd thread runs a job.
\<close>

fun internal :: "action \<Rightarrow> bool" where
  "internal (AProcess _) = True"
| "internal (AEvents _ _) = True"
| "internal (AFd _ _) = True"
| "internal _ = False"

lemma served_submission:
  assumes "sysinv E st" "served st" "action_ok a st" "exec_action E a st = Some (Inr st')"
    and "(\<exists>b p. a = ABegin b p) \<or> (\<exists>p. a = AResumeFd p) \<or> (\<exists>p. a = AResumeRequest p)"
  shows "served st'"
proof -
  have g: "grows st st'" by (rule exec_action_grows [OF assms(4)])
  have m: "ix_minSubmitSize (xs_x st') = 1" "ix_minSubmitSize (xs_x st) = 1" using g assms(2) by (auto simp: grows_def served_def)
  have c: "cf_noSubmitterThread (ix_config (xs_x st))" "0 \<le> ix_requestQueueSize (xs_x st)"
    using assms(1) by (auto simp: sysinv_def xinv_def sizes_ok_def)
  show ?thesis
  proof (cases a)
    case (ABegin b p)
    then obtain ph x where x: "submitTask_begin E b p (xs_x st) = Inr (ph, x)"
        "st' = after_submit p (tag_of p (xs_x st)) ph x (st\<lparr>xs_new := remove1 p (xs_new st)\<rparr>)"
      using assms(4) by (auto simp: rbind_eq_Inr split: if_splits)
    have "ix_minSubmitSize x = 1" using touches_submitTask_begin [OF x(1)] m(2) by (simp add: touches_def)
    then show ?thesis unfolding x(2) using submitTask_begin_phase [OF x(1) c(1) m(2) c(2)] by (intro served_after_submit [OF assms(2)]) auto
  next
    case (AResumeFd p)
    let ?x = "(xs_x st)\<lparr>ix_fdWoken := remove1 p (ix_fdWoken (xs_x st)), ix_fdWaiters := remove1 p (ix_fdWaiters (xs_x st))\<rparr>"
    obtain ph x where x: "submit_fd E p ?x = Inr (ph, x)" "st' = after_submit p (tag_of p (xs_x st)) ph x st"
      using AResumeFd assms(4) by (auto simp: rbind_eq_Inr split: if_splits)
    have "ix_minSubmitSize x = 1" using touches_submit(2) [OF x(1)] m(2) by (simp add: touches_def)
    then show ?thesis unfolding x(2) using submit_fd_phase [OF x(1)] by (intro served_after_submit [OF assms(2)]) auto
  next
    case (AResumeRequest p)
    let ?x = "(xs_x st)\<lparr>ix_requestWoken := remove1 p (ix_requestWoken (xs_x st)),
      ix_requestWaiters := remove1 p (ix_requestWaiters (xs_x st))\<rparr>"
    obtain ph x where x: "submit_request E p ?x = Inr (ph, x)" "st' = after_submit p (tag_of p (xs_x st)) ph x st"
      using AResumeRequest assms(4) by (auto simp: rbind_eq_Inr split: if_splits)
    have "ix_minSubmitSize x = 1" using touches_submit(1) [OF x(1)] m(2) by (simp add: touches_def)
    then show ?thesis unfolding x(2) using submit_request_phase [OF x(1)] c m(2) by (intro served_after_submit [OF assms(2)]) auto
  qed (use assms(5) in auto)
qed

lemma served_internal:
  assumes "sysinv E st" "served st" "action_ok a st" "exec_action E a st = Some (Inr st')"
    and "internal a \<or> (\<exists>io. a = AShutdownEvent io)"
  shows "served st'"
proof -
  have g: "grows st st'" by (rule exec_action_grows [OF assms(4)])
  have m: "ix_minSubmitSize (xs_x st') = 1" "ix_minSubmitSize (xs_x st) = 1" using g assms(2) by (auto simp: grows_def served_def)
  show ?thesis
  proof (cases a)
    case (AProcess io)
    then obtain x where x: "submitTask_process E io (xs_x st) = Inr x" "st' = st\<lparr>xs_x := x, xs_procs := xs_procs st - 1\<rparr>" "xs_procs st > 0"
      and en: "takes_all io" "ix_ctxCond (xs_x st) > 0 \<or> ix_requestQueueSize (xs_x st) < sint (ix_minSubmitSize (xs_x st))"
      using assms(3,4) by (auto simp: rbind_eq_Inr split: if_splits)
    show ?thesis using process_shrinks [OF assms(1) en(1) x(1) m(2) en(2)] assms(2) m(1) x(2,3) by (auto simp: served_def)
  next
    case (AShutdownEvent io)
    then obtain n x where x: "ProcessRequestQueue E io (xs_x st) = Inr (n, x)" "st' = st\<lparr>xs_x := x\<rparr>"
      and en: "takes_all io" "ix_ctxCond (xs_x st) > 0"
      using assms(3,4) by (auto simp: rbind_eq_Inr completion_event_def split: if_splits)
    obtain moved where "prq_result moved n (xs_x st) x"
      using ProcessRequestQueue_ok [OF _ en(1) _ en(2)] assms(1) x(1) unfolding sysinv_def by fastforce
    then show ?thesis using served_same [OF assms(2) g] x(2) by (simp add: prq_result_def)
  next
    case (AEvents n chunks)
    then obtain evs x where evs: "getevents n [] chunks = Some evs" "length evs = n" "n > 0" "distinct (map fst evs)"
        "set (map fst evs) \<subseteq> set (ix_inflight (xs_x st))"
      and x: "completion_event E (\<lambda>_ _. 0) (EvCtx n chunks) (xs_x st) = Inr x" "st' = st\<lparr>xs_x := x\<rparr>"
      using assms(3,4) by (auto simp: rbind_eq_Inr split: if_splits option.splits)
    have "ix_requestQueue x = ix_requestQueue (xs_x st)"
      using EvCtx_ok [OF _ _ evs, of E "xs_acc st" "\<lambda>_ _. 0"] assms(1) x(1) by (auto simp: sysinv_def)
    then show ?thesis using served_same [OF assms(2) g] x(2) by simp
  next
    case (AFd ue pw)
    then obtain gj x where x: "ProcessFdQueue_body E ue pw (xs_x st) = Inr (gj, x)"
        "st' = st\<lparr>xs_x := x, xs_fdAlive := (gj \<and> ProcessFdQueue_test x)\<rparr>"
      using assms(4) by (auto simp: rbind_eq_Inr split: if_splits)
    have "ix_requestQueue x = ix_requestQueue (xs_x st)"
    proof (cases "ix_fdQueue (xs_x st)")
      case Nil
      then show ?thesis using x(1) by (auto simp: ProcessFdQueue_body_def rbind_eq_Inr)
    next
      case (Cons p q)
      then show ?thesis using ProcessFdQueue_body_ok [OF _ _ Cons, of E "xs_acc st" ue pw] assms(1) x(1) by (auto simp: sysinv_def)
    qed
    then show ?thesis using served_same [OF assms(2) g] x(2) by simp
  qed (use assms(5) in auto)
qed

lemma served_step:
  assumes "sysinv E st" "served st" "action_ok a st" "exec_action E a st = Some (Inr st')"
  shows "served st'"
proof (cases a)
  case AStopIntake
  then show ?thesis using assms(2,4) by (auto simp: served_def stop_intake_def Let_def wakeup_ctxCond_def split: if_splits)
next
  case AStopFinal
  then show ?thesis using assms(2,4) by (auto simp: served_def stop_final_def split: if_splits)
qed (use assms served_submission [OF assms] served_internal [OF assms] in \<open>auto simp: served_def put_job_def split: if_splits\<close>)

interpretation exserve: invariant_system "xsys_init E" "xstep E" "\<lambda>st. sysinv E st \<and> served st" for E
proof unfold_locales
  show "sysinv E st \<and> served st" if "xsys_init E st" for st
    using that ioexec.inv_reach [OF reach_init [of "xsys_init E", OF that]]
    by (auto simp: xsys_init_def xsys_start_def served_def IOExecutor_new_def rbind_eq_Inr)
  show "sysinv E st' \<and> served st'" if "sysinv E st \<and> served st" "xstep E st st'" for st st'
    using that(2)
  proof cases
    case (xstepI a)
    then show ?thesis using that(1) served_step exec_action_ok by blast
  qed
qed

section \<open>The executor's own steps come to an end\<close>

definition work_step :: "sysenv \<Rightarrow> xsys \<Rightarrow> xsys \<Rightarrow> bool" where
  "work_step E st st' \<longleftrightarrow> (\<exists>a. internal a \<and> action_ok a st \<and> exec_action E a st = Some (Inr st'))"

text \<open>What is left to do.\<close>

definition work :: "xsys \<Rightarrow> nat" where
  "work st = xs_procs st + length (ix_requestQueue (xs_x st)) + length (ix_fdQueue (xs_x st)) +
     (length (ix_requestQueue (xs_x st)) + length (ix_inflight (xs_x st)))"

lemma work_step_xstep: "work_step E st st' \<Longrightarrow> xstep E st st'"
  by (auto simp: work_step_def intro: xstepI)

lemma work_step_decreases:
  assumes "sysinv E st" "served st" "ix_state (xs_x st) = RUNNING" "work_step E st st'"
  shows "work st' < work st \<and> ix_state (xs_x st') = RUNNING \<and> xs_acc st' = xs_acc st"
proof -
  obtain a where a: "internal a" "action_ok a st" "exec_action E a st = Some (Inr st')" using assms(4) by (auto simp: work_step_def)
  have m: "ix_minSubmitSize (xs_x st) = 1" using assms(2) by (simp add: served_def)
  have inv: "env_ok E" "xinv E (xs_acc st) [] 0 (xs_x st)" using assms(1) by (auto simp: sysinv_def)
  show ?thesis
  proof (cases a)
    case (AProcess io)
    then obtain x where x: "submitTask_process E io (xs_x st) = Inr x" "st' = st\<lparr>xs_x := x, xs_procs := xs_procs st - 1\<rparr>" "xs_procs st > 0"
      and en: "takes_all io" "ix_ctxCond (xs_x st) > 0 \<or> ix_requestQueueSize (xs_x st) < sint (ix_minSubmitSize (xs_x st))"
      using a(2,3) by (auto simp: rbind_eq_Inr split: if_splits)
    show ?thesis using process_shrinks [OF assms(1) en(1) x(1) m en(2)] assms(3) x(2,3) by (auto simp: work_def)
  next
    case (AEvents n chunks)
    then obtain evs x where evs: "getevents n [] chunks = Some evs" "length evs = n" "n > 0" "distinct (map fst evs)"
        "set (map fst evs) \<subseteq> set (ix_inflight (xs_x st))"
      and x: "completion_event E (\<lambda>_ _. 0) (EvCtx n chunks) (xs_x st) = Inr x" "st' = st\<lparr>xs_x := x\<rparr>"
      using a(2,3) by (auto simp: rbind_eq_Inr split: if_splits option.splits)
    have "ix_requestQueue x = ix_requestQueue (xs_x st)" "ix_fdQueue x = ix_fdQueue (xs_x st)" "ix_state x = ix_state (xs_x st)"
        "ix_inflight x = fold remove1 (map fst evs) (ix_inflight (xs_x st))"
      using EvCtx_ok [OF inv evs, of "\<lambda>_ _. 0"] x(1) by auto
    moreover have "length (ix_inflight (xs_x st)) = length (fold remove1 (map fst evs) (ix_inflight (xs_x st))) + length (map fst evs)"
      by (rule mset_remove1_held(2) [OF evs(4,5)])
    ultimately show ?thesis using x(2) evs(2,3) assms(3) by (simp add: work_def)
  next
    case (AFd ue pw)
    then obtain gj x where x: "ProcessFdQueue_body E ue pw (xs_x st) = Inr (gj, x)"
        "st' = st\<lparr>xs_x := x, xs_fdAlive := (gj \<and> ProcessFdQueue_test x)\<rparr>" "ix_fdQueueCond (xs_x st) > 0"
      using a(3) by (auto simp: rbind_eq_Inr split: if_splits)
    then obtain p q where q: "ix_fdQueue (xs_x st) = p # q"
      using inv(2) assms(3) by (cases "ix_fdQueue (xs_x st)") (auto simp: xinv_def sizes_ok_def)
    show ?thesis using ProcessFdQueue_body_ok [OF inv q, of ue pw] x assms(3) q by (auto simp: work_def)
  qed (use a(1) in simp_all)
qed

text \<open>As long as a job is owned, some thread can take a step.\<close>

lemma work_remains:
  assumes "sysinv E st" "served st" "ix_state (xs_x st) = RUNNING" "0 < cx_ioQueueDepth (ix_ctx (xs_x st))"
    and "owned [] (xs_x st) \<noteq> []"
  shows "\<exists>st'. work_step E st st'"
proof -
  have step: "\<exists>st'. work_step E st st'" if "internal a" "action_ok a st" "exec_action E a st = Some r" for a r
    using exec_action_ok [OF assms(1) that(2,3)] that unfolding work_step_def by blast
  have x: "sizes_ok (xs_x st)" "ctx_ok [] 0 (xs_x st)" "xs_fdAlive st"
    using assms(1,3) by (auto simp: sysinv_def xinv_def)
  consider (fl) p ps where "ix_inflight (xs_x st) = p # ps" | (fd) "ix_fdQueue (xs_x st) \<noteq> []"
    | (rq) "ix_inflight (xs_x st) = []" "ix_requestQueue (xs_x st) \<noteq> []"
    using assms(5) by (cases "ix_inflight (xs_x st)") (auto simp: owned_def)
  then show ?thesis
  proof cases
    case fl
    then show ?thesis by (intro step [of "AEvents 1 [[(p, 0)]]"]) simp_all
  next
    case fd
    then show ?thesis using x assms(3) by (intro step [of "AFd 0 (0, 0)"]) (auto simp: sizes_ok_def)
  next
    case rq
    then have "xs_procs st > 0" using assms(2) by (cases "ix_requestQueue (xs_x st)") (auto simp: served_def)
    moreover have "ix_ctxCond (xs_x st) > 0" using x(2) rq(1) assms(3,4) by (auto simp: ctx_ok_def ctx_slack_def)
    ultimately show ?thesis by (intro step [of "AProcess (\<lambda>n cbs. int (length cbs))"]) (simp_all add: takes_all_def)
  qed
qed

definition drainable :: "sysenv \<Rightarrow> xsys \<Rightarrow> bool" where
  "drainable E st \<longleftrightarrow> sysinv E st \<and> served st \<and> ix_state (xs_x st) = RUNNING \<and> 0 < cx_ioQueueDepth (ix_ctx (xs_x st))"

lemma drainable_step: "drainable E st \<Longrightarrow> work_step E st st' \<Longrightarrow> drainable E st' \<and> work st' < work st \<and> xs_acc st' = xs_acc st"
proof -
  assume d: "drainable E st" "work_step E st st'"
  then obtain a where a: "action_ok a st" "exec_action E a st = Some (Inr st')" by (auto simp: work_step_def)
  have "sysinv E st' \<and> served st'" using d(1) a served_step exec_action_ok unfolding drainable_def by blast
  moreover have "cx_ioQueueDepth (ix_ctx (xs_x st')) = cx_ioQueueDepth (ix_ctx (xs_x st))"
    using exec_action_grows [OF a(2)] by (simp add: grows_def)
  ultimately show ?thesis using d work_step_decreases [of E st st'] by (simp add: drainable_def)
qed

interpretation exdrain: draining "drainable E" "work_step E" work for E
  by unfold_locales (simp_all add: drainable_step)

lemma drainable_run: "(work_step E ^^ k) st st' \<Longrightarrow> drainable E st \<Longrightarrow> drainable E st' \<and> xs_acc st' = xs_acc st"
proof (induction k arbitrary: st')
  case (Suc k)
  then obtain st1 where "(work_step E ^^ k) st st1" "work_step E st1 st'" by auto
  with Suc.IH [of st1] Suc.prems(2) drainable_step [of E st1 st'] show ?case by simp
qed simp

text \<open>Where no step is left, every accepted job has been notified.\<close>

lemma drained_notified:
  assumes "drainable E st" "\<nexists>st'. work_step E st st'"
  shows "mset (map ntag (ix_notified (xs_x st))) = mset (xs_acc st) \<and> owned [] (xs_x st) = []"
proof -
  have "owned [] (xs_x st) = []" using work_remains [of E st] assms by (auto simp: drainable_def)
  then show ?thesis using assms(1) by (auto simp: drainable_def sysinv_def xinv_def count_ok_def tags_def)
qed

lemma reach_drainable:
  assumes "reach (xsys_init E) (xstep E) st" "ix_state (xs_x st) = RUNNING" "0 < cx_ioQueueDepth (ix_ctx (xs_x st))"
  shows "drainable E st"
  using exserve.inv_reach [OF assms(1)] assms(2,3) by (simp add: drainable_def)



section \<open>The abstract executor\<close>

text \<open>
  What a caller sees: a bag of jobs accepted and not yet notified, and the list of notifications. A
  job is accepted, or an accepted job is notified.
\<close>

type_synonym bag_state = "(int \<times> 64 word) multiset \<times> (int \<times> 64 word) list"

inductive bag_step :: "bag_state \<Rightarrow> bag_state \<Rightarrow> bool" where
  bag_accept: "bag_step (P, D) (add_mset t P, D)"
| bag_notify: "bag_step (add_mset t P, D) (P, D @ [t])"

definition bag_of :: "xsys \<Rightarrow> bag_state" where
  "bag_of st = (mset (tags (ix_jobs (xs_x st)) (ix_requestQueue (xs_x st) @ ix_fdQueue (xs_x st) @ ix_inflight (xs_x st))),
     map ntag (ix_notified (xs_x st)))"

lemma bag_accepts: "bag_step\<^sup>*\<^sup>* (P, D) (P + mset ts, D)"
proof (induction ts)
  case (Cons t ts)
  from rtranclp.rtrancl_into_rtrancl [OF Cons bag_accept [of "P + mset ts" D t]] show ?case by simp
qed simp

lemma bag_notifies: "bag_step\<^sup>*\<^sup>* (P + mset ns, D) (P, D @ ns)"
proof (induction ns arbitrary: D)
  case (Cons t ts)
  from converse_rtranclp_into_rtranclp [OF bag_notify [of t "P + mset ts" D] Cons.IH [of "D @ [t]"]] show ?case by simp
qed simp

lemma bag_conserved: "sysinv E st \<Longrightarrow> mset (xs_acc st) = mset (snd (bag_of st)) + fst (bag_of st)"
  by (simp add: sysinv_def xinv_def count_ok_def bag_of_def owned_def)



end
