(* ===== verification/Server_Read.thy ===== *)
theory Server_Read
  imports IO_Executor_Progress Remote_Read
begin

text \<open>
  The server's handler on top of the file service and its executors: a read request of a client is one
  job of the executor of its file, and its status record gives the one reply.
\<close>

section \<open>One fragment, one job\<close>

lemma named_read_one_job:
  assumes "IOExecFileOpen E hasher open_file name len 0x4000 svh = Inr (Some h, Some sv)"
    and "length (sv_ioexecVec sv) \<le> 2 ^ 15" "ev_fd1 ev \<noteq> FD_INVALID"
    and "sysinv E st" "sv_ioexecVec sv ! nat (fh_core h) = xs_x st" "length (xs_acc st) + 1 < 2 ^ 32"
    and "\<forall>i. takes_all (io i)" "inj addr" "\<forall>i. ix_jobs (xs_x st) (addr i) = None"
    and "\<not> skipped f" "RoundToNext512 (fr_size f) \<noteq> 0"
  defines "call \<equiv> IOExecFileRead_name E io addr hasher open_file name len [f] (Some ev) svh"
  shows "(\<exists>msg. call = Inl (Blocked msg)) \<or>
    (\<exists>ret sv' st'. call = Inr (ret, Some sv') \<and> (xstep E)\<^sup>*\<^sup>* st st' \<and>
      sv_ioexecVec sv' = (sv_ioexecVec sv)[nat (fh_core h) := xs_x st'] \<and>
      xs_acc st' = xs_acc st @ (if ret = 0 then [(ev_fd1 ev, fr_completionId f)] else []))"
proof -
  have c: "0 \<le> fh_core h" "nat (fh_core h) < length (sv_ioexecVec sv)" "0 \<le> fh_fd h"
    using open_core [OF assms(1,2)] by simp_all
  then have fd: "fh_fd h \<noteq> FD_INVALID" by (simp add: FD_INVALID_def)
  have w: "wanted [f] = [f]" "\<forall>g\<in>set [f]. frag_ok g" using assms(10,11) by (simp_all add: wanted_def frag_ok_def)
  have l: "length (xs_acc st) + length [f] < 2 ^ 32" using assms(6) by simp
  let ?op = "IOExecFileOp E io addr Read (Some h) True [f] (Some ev) sv"
  consider (b) msg where "?op = Inl (Blocked msg)"
    | (d) rs st' where "?op = Inr (last (0 # rs), sv\<lparr>sv_ioexecVec := (sv_ioexecVec sv)[nat (fh_core h) := xs_x st']\<rparr>)"
        "(xstep E)\<^sup>*\<^sup>* st st'" "length rs = length (wanted [f])" "xs_acc st' = xs_acc st @ accepted (ev_fd1 ev) (wanted [f]) rs"
    using IOExecFileOp_jobs [OF assms(4) disjI1 [OF refl] fd assms(3) c(1,2) assms(5,7-9) w(2) l, of True] by blast
  then show ?thesis
  proof cases
    case b
    then show ?thesis by (simp add: call_def IOExecFileRead_name_def assms(1))
  next
    case d
    then obtain r where r: "rs = [r]" using w(1) by (auto simp: length_Suc_conv)
    have a: "xs_acc st' = xs_acc st @ (if r = 0 then [(ev_fd1 ev, fr_completionId f)] else [])"
      using d(4) r w(1) by (simp add: accepted_def)
    show ?thesis
      using d(1,2) a r fd by (auto simp: call_def IOExecFileRead_name_def assms(1) IOExecFileClose_def intro!: exI [of _ st'])
  qed
qed

section \<open>The handler\<close>

text \<open>The reply a client expects for the read \<open>m\<close> when its status is \<open>ios\<close>.\<close>

definition read_reply :: "NetworkXioMsg \<Rightarrow> gIOStatus \<Rightarrow> NetworkXioMsg" where
  "read_reply m ios = (NetworkXioMsg_new ReadRsp)\<lparr>nm_opaque := nm_opaque m,
     nm_retval := (if st_errorCode ios = 0 then sint (nm_size m) else -1), nm_errval := st_errorCode ios\<rparr>"

text \<open>What the handler leaves for the completion thread.\<close>

lemma handler_reads:
  assumes "unpack_msg (rq_header req) (NetworkXioMsg_new Noop) = Inr m" "nm_opcode m = ReadReq"
    and "IsDirectIOAligned (nm_offset m)" "baddr \<noteq> 0" "fst (xm_pool xm) = 0"
    and "read (nm_filename m) [\<lparr>fr_completionId = baddr, fr_offset = sint (nm_offset m), fr_size = nm_size m, fr_addr = snd (xm_pool xm)\<rparr>] =
      ReadReturned ret"
  defines "b \<equiv> [\<lparr>fr_completionId = baddr, fr_offset = sint (nm_offset m), fr_size = nm_size m, fr_addr = snd (xm_pool xm)\<rparr>]"
  shows "\<exists>req1. process_request True xm read baddr req = Inr (ret \<noteq> 0, req1, if ret = 0 then Some b else None) \<and>
    (ret \<noteq> 0 \<longrightarrow> answers req1 (nm_opaque m)) \<and>
    (\<forall>ios. ret = 0 \<and> int_range 32 (st_errorCode ios) \<longrightarrow>
      (\<exists>req2. completion_reply ios b req1 = Inr (Some req2) \<and>
        (\<forall>m0. unpack_msg (rq_s_msg req2) m0 = Inr (read_reply m ios))))"
proof -
  let ?req = "req\<lparr>rq_opaque := nm_opaque m, rq_op := ReadRsp, rq_reg_mem := snd (xm_pool xm), rq_from_pool := True,
     rq_data := snd (xm_pool xm), rq_data_len := ucast (nm_size m), rq_size := nm_size m, rq_offset := nm_offset m\<rparr>"
  have f: "free_batch b = Inr ()"
    using free_batch_ok [of "sint (nm_offset m)" baddr ?req "nm_size m"] assms(3,4) by (simp add: read_batch_def b_def)
  show ?thesis
  proof (cases "ret = 0")
    case True
    have p: "process_request True xm read baddr req = Inr (False, ?req, Some b)"
      using assms True by (simp add: process_request_def handle_read_def alloc_buffer_def read_batch_def Let_def)
    have "unpack_msg (rq_s_msg (pack_reply (?req\<lparr>rq_retval := v, rq_errval := e\<rparr>))) m0 =
        Inr ((NetworkXioMsg_new ReadRsp)\<lparr>nm_opaque := nm_opaque m, nm_retval := v, nm_errval := e\<rparr>)"
      if "int_range 64 v" "int_range 32 e" for v e m0
      using reply_unpacks [of "?req\<lparr>rq_retval := v, rq_errval := e\<rparr>" m0] that
      by (simp add: opcode_ok_def reply_msg_def NetworkXioMsg_new_def)
    moreover have "int_range 64 (sint (nm_size m))" "int_range 64 (-1)" "int_range 32 0"
      using sint_ge [of "nm_size m"] sint_lt [of "nm_size m"] by (simp_all add: int_range_def)
    ultimately show ?thesis using p True f by (auto simp: completion_reply_def read_reply_def)
  next
    case False
    have "process_request True xm read baddr req = Inr (True, pack_reply (?req\<lparr>rq_retval := -1, rq_errval := EIO\<rparr>), None)"
      using assms False f by (simp add: process_request_def handle_read_def alloc_buffer_def read_batch_def Let_def)
    moreover have "answers (pack_reply (?req\<lparr>rq_retval := -1, rq_errval := EIO\<rparr>)) (nm_opaque m)"
      using answers_pack [of "?req\<lparr>rq_retval := -1, rq_errval := EIO\<rparr>"] by simp
    ultimately show ?thesis using False by simp
  qed
qed

section \<open>The whole read\<close>

lemma xsteps_reach: "(xstep E)\<^sup>*\<^sup>* st st' \<Longrightarrow> reach (xsys_init E) (xstep E) st \<Longrightarrow> reach (xsys_init E) (xstep E) st'"
  by (induction rule: rtranclp_induct) (auto intro: reach_step)

lemma drained_status:
  assumes "reach (xsys_init E) (xstep E) st" "ix_state (xs_x st) = RUNNING" "0 < cx_ioQueueDepth (ix_ctx (xs_x st))"
    and "(work_step E ^^ k) st st'" "\<nexists>st''. work_step E st' st''" "xs_acc st = acc @ [(fd, c)]"
  shows "mset (map ntag (ix_notified (xs_x st'))) = add_mset (fd, c) (mset acc) \<and>
    (\<exists>ios. (fd, ios) \<in> set (ix_notified (xs_x st')) \<and> st_completionId ios = c)"
proof -
  have r: "drainable E st'" "xs_acc st' = xs_acc st"
    using drainable_run [OF assms(4) reach_drainable [OF assms(1-3)]] by auto
  then have n: "mset (map ntag (ix_notified (xs_x st'))) = add_mset (fd, c) (mset acc)"
    using drained_notified [OF r(1) assms(5)] assms(6) by simp
  then have "(fd, c) \<in> set (map ntag (ix_notified (xs_x st')))" by (metis set_mset_mset union_single_eq_member add_mset_add_single add.commute)
  with n show ?thesis by (auto simp: ntag_def)
qed

text \<open>
  From \<open>st\<close>, where the jobs \<open>acc\<close> and then one with the tag \<open>(fd, c)\<close> had been accepted, the executor's own
  steps lead to exactly one notification more than those of \<open>acc\<close>, and to a status record with \<open>Q\<close>.
\<close>

definition completes_with :: "sysenv \<Rightarrow> xsys \<Rightarrow> (int \<times> 64 word) list \<Rightarrow> int \<Rightarrow> 64 word \<Rightarrow> (gIOStatus \<Rightarrow> bool) \<Rightarrow> bool" where
  "completes_with E st acc fd c Q \<longleftrightarrow>
     (\<forall>k st'. ix_state (xs_x st) = RUNNING \<and> 0 < cx_ioQueueDepth (ix_ctx (xs_x st)) \<and>
        (work_step E ^^ k) st st' \<and> (\<nexists>u. work_step E st' u) \<longrightarrow>
      mset (map ntag (ix_notified (xs_x st'))) = add_mset (fd, c) (mset acc) \<and>
      (\<exists>ios. (fd, ios) \<in> set (ix_notified (xs_x st')) \<and> st_completionId ios = c \<and> Q ios))"

lemma drained_completes:
  assumes "reach (xsys_init E) (xstep E) st" "xs_acc st = acc @ [(fd, c)]" "\<And>ios. Q ios"
  shows "completes_with E st acc fd c Q"
  unfolding completes_with_def using drained_status [OF assms(1) _ _ _ _ assms(2)] assms(3) by meson


definition demo_read_msg :: NetworkXioMsg where
  "demo_read_msg = (NetworkXioMsg_new ReadReq)\<lparr>nm_opaque := 42, nm_size := 4096\<rparr>"


end
