(* ===== verification/Data_Path.thy ===== *)
theory Data_Path
  imports IO_Executor_Progress IO_Exec_File_Props
begin

text \<open>
  The way of the data: the range of a fragment, its buffer and its file reach the kernel unchanged
  through the job, the queue and the control block, so the transfer the kernel makes for the control
  block is the one the fragment asked for.
\<close>

section \<open>The parameters of a job are kept\<close>

definition io_params :: "FilerJob \<Rightarrow> bool \<times> int \<times> 64 word \<times> 64 word \<times> int \<times> int \<times> 64 word" where
  "io_params j = (fj_op j = Read, fj_fd j, fj_buffer j, fj_size j, fj_offset j, fj_completionFd j, fj_completionId j)"

text \<open>Every job after an operation was there before it, with the same parameters.\<close>

definition keeps :: "iox \<Rightarrow> iox \<Rightarrow> bool" where
  "keeps s s' \<longleftrightarrow> (\<forall>p j'. ix_jobs s' p = Some j' \<longrightarrow> (\<exists>j. ix_jobs s p = Some j \<and> io_params j' = io_params j))"

lemma keeps_same: "ix_jobs s' = ix_jobs s \<Longrightarrow> keeps s s'"
  by (simp add: keeps_def)

lemma keeps_refl [simp]: "keeps s s"
  by (simp add: keeps_def)

lemma keeps_trans [trans]: "keeps s s1 \<Longrightarrow> keeps s1 s2 \<Longrightarrow> keeps s s2"
  unfolding keeps_def by metis

lemma keeps_put: "ix_jobs s p = Some j \<Longrightarrow> io_params j' = io_params j \<Longrightarrow> ix_jobs s' = (ix_jobs s)(p \<mapsto> j') \<Longrightarrow> keeps s s'"
  by (auto simp: keeps_def)

lemma keeps_remove: "ix_jobs s' = (ix_jobs s)(p := None) \<Longrightarrow> keeps s s'"
  by (auto simp: keeps_def)

lemma get_job_Some: "get_job p s = Inr j \<Longrightarrow> ix_jobs s p = Some j"
  by (auto simp: get_job_def split: option.splits)

lemma same_jobs [simp]:
  "ix_jobs (wakeup_requestQueueHasSpace s) = ix_jobs s" "ix_jobs (wakeup_fdQueueHasSpace s) = ix_jobs s"
  "ix_jobs (wakeup_ctxCond n s) = ix_jobs s"
  by (simp_all add: wakeup_requestQueueHasSpace_def wakeup_fdQueueHasSpace_def wakeup_ctxCond_def)

lemma same_jobs_ctx: "on_ctx f s = Inr s' \<Longrightarrow> ix_jobs s' = ix_jobs s"
  by (auto simp: on_ctx_def rbind_eq_Inr)

lemma same_jobs_pause: "pause_ctxCond s = Inr s' \<Longrightarrow> ix_jobs s' = ix_jobs s"
  by (auto simp: pause_ctxCond_def rbind_eq_Inr)

lemma keeps_post:
  assumes "doPostProcessingOfJob E p s = Inr s'"
  shows "keeps s s'"
proof -
  obtain job nt job1 where g: "get_job p s = Inr job" and r: "FilerJob_reset (clock E (ix_tick s)) job = Inr (nt, job1)"
    and s': "ix_jobs s' = (if fj_canBeFreed job1 then (ix_jobs s)(p := None) else (ix_jobs s)(p \<mapsto> job1))"
    using assms unfolding doPostProcessingOfJob_def rbind_eq_Inr by (auto simp: rbind_eq_Inr)
  have "io_params job1 = io_params job"
    using r by (auto simp: FilerJob_reset_def setServiceTime_def rbind_eq_Inr io_params_def)
  then show ?thesis
    using s' keeps_put [OF get_job_Some [OF g], of job1 s'] keeps_remove [of s' s p] by (cases "fj_canBeFreed job1") simp_all
qed

lemma keeps_finish_job: "finish_job E r p s = Inr s' \<Longrightarrow> keeps s s'"
proof -
  assume "finish_job E r p s = Inr s'"
  then obtain j where j: "get_job p s = Inr j" "doPostProcessingOfJob E p (put_job p (j\<lparr>fj_retcode := r\<rparr>) s) = Inr s'"
    by (auto simp: finish_job_def rbind_eq_Inr)
  have "keeps s (put_job p (j\<lparr>fj_retcode := r\<rparr>) s)"
    by (rule keeps_put [OF get_job_Some [OF j(1)]]) (simp_all add: io_params_def put_job_def)
  then show ?thesis using keeps_post [OF j(2)] by (rule keeps_trans)
qed

lemma keeps_rfold: "(\<And>x s s'. f x s = Inr s' \<Longrightarrow> keeps s s') \<Longrightarrow> rfold f xs s = Inr s' \<Longrightarrow> keeps s s'"
proof (induction xs arbitrary: s)
  case (Cons x xs)
  then obtain s1 where s1: "f x s = Inr s1" "rfold f xs s1 = Inr s'" by (auto simp: rbind_eq_Inr)
  show ?case by (rule keeps_trans [OF Cons.prems(1) [OF s1(1)] Cons.IH [OF Cons.prems(1) s1(2)]])
qed simp

lemma keeps_finish_list: "rfold (\<lambda>cb. finish_job E r (cb_data cb)) cbs s = Inr s' \<Longrightarrow> keeps s s'"
  by (erule keeps_rfold [rotated]) (rule keeps_finish_job)

section \<open>Control blocks\<close>

text \<open>The control block of a job that is read or written through the kernel.\<close>

definition block_of :: "nat \<Rightarrow> FilerJob \<Rightarrow> iocb" where
  "block_of p j = \<lparr>cb_cmd = (if fj_op j = Read then PREAD else PWRITE), cb_fd = fj_fd j, cb_buf = fj_buffer j,
     cb_nbytes = fj_size j, cb_offset = fj_offset j, cb_data = p\<rparr>"

lemma block_of_params: "io_params j' = io_params j \<Longrightarrow> block_of p j' = block_of p j"
  by (simp add: io_params_def block_of_def)

lemma prepare_block:
  assumes "prepareCallblock t1 t2 p j = Inr (cb, j')"
  shows "cb = block_of p j \<and> io_params j' = io_params j"
  using assms by (auto simp: prepareCallblock_def setWaitTime_def rbind_eq_Inr block_of_def io_params_def split: if_splits)

definition right_block :: "iox \<Rightarrow> iocb \<Rightarrow> bool" where
  "right_block s cb \<longleftrightarrow> (\<exists>j. ix_jobs s (cb_data cb) = Some j \<and> cb = block_of (cb_data cb) j)"

lemma right_block_keeps: "keeps s s' \<Longrightarrow> right_block s' cb \<Longrightarrow> right_block s cb"
  unfolding keeps_def right_block_def using block_of_params by metis

lemma drain_keeps:
  "drain E q cbs s = Inr (cbs', s') \<Longrightarrow> keeps s s' \<and> (\<exists>new. cbs' = cbs @ new \<and> (\<forall>cb\<in>set new. right_block s cb))"
proof (induction q arbitrary: cbs s)
  case (Cons p q)
  show ?case
  proof (cases "FilerCtx_isEmpty (ix_ctx s)")
    case True
    with Cons.prems show ?thesis by simp
  next
    case False
    with Cons.prems obtain job cb job1 s1 s2 where g: "get_job p s = Inr job"
      and st: "prepareCallblock (clock E (ix_tick s)) (clock E (Suc (ix_tick s))) p job = Inr (cb, job1)"
        "on_ctx (decrementNumAvailable 1)
          ((put_job p job1 s)\<lparr>ix_requestQueue := q, ix_tick := Suc (Suc (ix_tick s))\<rparr>) = Inr s1"
        "pause_ctxCond s1 = Inr s2"
        "drain E q (cbs @ [cb]) (s2\<lparr>ix_requestQueueSize := ix_requestQueueSize s2 - 1\<rparr>) = Inr (cbs', s')"
      by (auto simp: rbind_eq_Inr split: if_splits)
    note b = prepare_block [OF st(1)]
    let ?s3 = "s2\<lparr>ix_requestQueueSize := ix_requestQueueSize s2 - 1\<rparr>"
    have k: "keeps s ?s3"
      by (rule keeps_put [OF get_job_Some [OF g] conjunct2 [OF b]])
        (simp add: same_jobs_pause [OF st(3)] same_jobs_ctx [OF st(2)] put_job_def)
    have "right_block s cb" using b get_job_Some [OF g] by (simp add: right_block_def block_of_def)
    moreover from Cons.IH [OF st(4)] obtain new where "keeps ?s3 s'" "cbs' = (cbs @ [cb]) @ new" "\<forall>cb\<in>set new. right_block ?s3 cb"
      by blast
    ultimately show ?thesis using k keeps_trans right_block_keeps by (intro conjI exI [of _ "cb # new"]) (blast, auto)
  qed
qed auto

lemma try_submit_keeps: "try_submit E io n cbs s = Inr (rest, s') \<Longrightarrow> keeps s s'"
proof (induction n arbitrary: cbs s)
  case (Suc n)
  let ?r = "io n cbs"
  let ?s1 = "s\<lparr>ix_stats := (ix_stats s)\<lparr>ss_numSubmitted := ss_numSubmitted (ix_stats s) + word_of_int ?r\<rparr>,
                  ix_inflight := ix_inflight s @ map cb_data (take (nat ?r) cbs)\<rparr>"
  have k1: "keeps s ?s1" by (simp add: keeps_same)
  consider (again) "?r = - EINTR \<or> ?r = - EAGAIN"
    | (hard) "?r < 0" "?r \<noteq> - EINTR" "?r \<noteq> - EAGAIN" | (part) "0 \<le> ?r" "?r < int (length cbs)"
    | (all) "?r \<ge> int (length cbs)" by fastforce
  then show ?case
  proof cases
    case again
    then show ?thesis using Suc by (auto simp: Let_def rbind_eq_Inr)
  next
    case hard
    then obtain s1 s2 where s: "rfold (\<lambda>cb. finish_job E ?r (cb_data cb)) cbs s = Inr s1"
        "on_ctx (incrementNumAvailable (int (length cbs))) s1 = Inr s2" "s' = wakeup_ctxCond (length cbs) s2"
      using Suc.prems by (auto simp: Let_def rbind_eq_Inr)
    have "keeps s1 s'" using same_jobs_ctx [OF s(2)] s(3) by (simp add: keeps_same)
    then show ?thesis using keeps_trans [OF keeps_finish_list [OF s(1)]] by blast
  next
    case part
    then obtain s2 where s2: "on_ctx (incrementNumAvailable ?r) ?s1 = Inr s2"
        "try_submit E io n (drop (nat ?r) cbs) (wakeup_ctxCond (nat ?r) s2) = Inr (rest, s')"
      using Suc.prems by (auto simp: Let_def rbind_eq_Inr)
    have "keeps s (wakeup_ctxCond (nat ?r) s2)" using same_jobs_ctx [OF s2(1)] by (simp add: keeps_same)
    then show ?thesis using Suc.IH [OF s2(2)] by (rule keeps_trans)
  next
    case all
    then show ?thesis using Suc.prems k1 by (cases "cbs = []") (auto simp: Let_def rbind_eq_Inr)
  qed
qed simp

lemma prq_keeps: "ProcessRequestQueue E io s = Inr (n, s') \<Longrightarrow> keeps s s'"
proof -
  assume a: "ProcessRequestQueue E io s = Inr (n, s')"
  then obtain s0 cbs s1 where s0: "pause_ctxCond s = Inr s0" "drain E (ix_requestQueue s0) [] (wakeup_ctxCond 1 s0) = Inr (cbs, s1)"
    unfolding ProcessRequestQueue_def by (auto simp: rbind_eq_Inr)
  have "keeps s (wakeup_ctxCond 1 s0)" using same_jobs_pause [OF s0(1)] by (simp add: keeps_same)
  then have k1: "keeps s s1" using drain_keeps [OF s0(2)] keeps_trans by blast
  show "keeps s s'"
  proof (cases "cbs = []")
    case True
    with a s0 k1 show ?thesis by (simp add: ProcessRequestQueue_def)
  next
    case False
    with a s0 obtain rest s2 s5 where t: "try_submit E io 5 cbs s1 = Inr (rest, s2)"
      and tl: "(if rest = [] then Inr s2
            else
              rbind (rfold (\<lambda>cb. finish_job E (- EINVAL) (cb_data cb)) rest s2) (\<lambda>s3.
              rbind (on_ctx (incrementNumAvailable (int (length rest))) s3) (\<lambda>s4.
              Inr (wakeup_ctxCond (length rest) s4)))) = Inr s5"
      and w: "(if ix_requestQueueSize s5 < sint (cf_maxRequestQueueSize (ix_config s5))
        then wakeup_requestQueueHasSpace s5 else s5) = s'"
      unfolding ProcessRequestQueue_def by (simp add: rbind_eq_Inr del: One_nat_def) blast
    have "keeps s2 s5"
    proof (cases "rest = []")
      case False
      with tl obtain s3 s4 where s: "rfold (\<lambda>cb. finish_job E (- EINVAL) (cb_data cb)) rest s2 = Inr s3"
          "on_ctx (incrementNumAvailable (int (length rest))) s3 = Inr s4" "s5 = wakeup_ctxCond (length rest) s4"
        by (auto simp: rbind_eq_Inr)
      have "keeps s3 s5" using same_jobs_ctx [OF s(2)] s(3) by (simp add: keeps_same)
      then show ?thesis using keeps_trans [OF keeps_finish_list [OF s(1)]] by blast
    qed (use tl in simp)
    moreover have "keeps s5 s'" using w by (auto simp: keeps_same split: if_splits)
    ultimately show ?thesis using keeps_trans k1 try_submit_keeps [OF t] by blast
  qed
qed

section \<open>The other operations\<close>

lemma stamp_job_keeps: "stamp_job E p s = Inr s' \<Longrightarrow> keeps s s'"
proof -
  assume "stamp_job E p s = Inr s'"
  then obtain j j1 where j: "get_job p s = Inr j" "setSubmitTime (clock E (ix_tick s)) j = Inr j1"
      "ix_jobs s' = (ix_jobs s)(p \<mapsto> j1\<lparr>fj_executor := True\<rparr>)"
    by (auto simp: stamp_job_def rbind_eq_Inr put_job_def)
  have "io_params (j1\<lparr>fj_executor := True\<rparr>) = io_params j" using j(2) by (auto simp: setSubmitTime_def rbind_eq_Inr io_params_def)
  then show ?thesis by (rule keeps_put [OF get_job_Some [OF j(1)] _ j(3)])
qed

lemma submit_keeps:
  "submit_fd E p s = Inr (ph, s') \<Longrightarrow> keeps s s'" "submit_request E p s = Inr (ph, s') \<Longrightarrow> keeps s s'"
proof -
  show "keeps s s'" if a: "submit_fd E p s = Inr (ph, s')"
  proof -
    obtain s1 where "stamp_job E p s = Inr s1" "ix_jobs s' = ix_jobs s1"
      using a by (auto simp: submit_fd_def rbind_eq_Inr Let_def)
    then show ?thesis using stamp_job_keeps [of E p s s1] keeps_trans [OF _ keeps_same] by blast
  qed
  show "keeps s s'" if a: "submit_request E p s = Inr (ph, s')"
  proof -
    let ?s0 = "s\<lparr>ix_requestQueueSize := ix_requestQueueSize s + 1, ix_stats := (ix_stats s)\<lparr>ss_maxRequestQueueSize :=
      MaxValue_assign (word_of_int (ix_requestQueueSize s + 1)) (ss_maxRequestQueueSize (ix_stats s))\<rparr>\<rparr>"
    obtain s1 where s1: "stamp_job E p ?s0 = Inr s1" "ix_jobs s' = ix_jobs s1"
      using a by (auto simp: submit_request_def Let_def rbind_eq_Inr)
    have "keeps s ?s0" by (simp add: keeps_same)
    then show ?thesis using keeps_trans [OF _ keeps_trans [OF stamp_job_keeps [OF s1(1)] keeps_same [OF s1(2)]]] by blast
  qed
qed

lemma submitTask_begin_keeps: "submitTask_begin E b p s = Inr (ph, s') \<Longrightarrow> keeps s s'"
proof (cases "ix_state s = RUNNING")
  case True
  assume a: "submitTask_begin E b p s = Inr (ph, s')"
  with True obtain job0 where g: "get_job p s = Inr job0" by (auto simp: submitTask_begin_def rbind_eq_Inr)
  define job where "job = (if \<not> IsDirectIOAligned (fj_userSize job0) \<and> fj_op job0 = Write then job0\<lparr>fj_op := NonAlignedWrite\<rparr> else job0)"
  have k: "keeps s (put_job p job s)"
    by (rule keeps_put [OF get_job_Some [OF g]]) (auto simp: job_def io_params_def put_job_def)
  have r: "keeps (put_job p job s) (put_job p (job\<lparr>fj_retcode := - EAGAIN\<rparr>) (put_job p job s))"
    by (rule keeps_put [of _ p job]) (simp_all add: put_job_def io_params_def)
  have c: "keeps (put_job p job s) (count_full (put_job p job s))" by (simp add: keeps_same count_full_def)
  have "keeps (put_job p job s) s'"
    using a True r c submit_keeps unfolding submitTask_begin_def job_def
    by (auto simp: g Let_def split: if_split_asm)
  then show ?thesis using k keeps_trans by blast
qed (simp add: submitTask_begin_def)

lemma process_keeps: "submitTask_process E io s = Inr s' \<Longrightarrow> keeps s s'"
  by (auto simp: submitTask_process_def rbind_eq_Inr split: if_splits dest: prq_keeps)

lemma callbacks_keeps: "ProcessCallbacks E evs s = Inr s' \<Longrightarrow> keeps s s'"
  unfolding ProcessCallbacks_def
proof (erule keeps_rfold [rotated])
  fix ev s s' assume "ProcessCallback E ev s = Inr s'"
  then obtain r s3 s4 where s: "finish_job E r (fst ev) s = Inr s3" "on_ctx (incrementNumAvailable 1) s3 = Inr s4" "s' = wakeup_ctxCond 1 s4"
    by (auto simp: ProcessCallback_def rbind_eq_Inr)
  have "keeps s3 s'" using same_jobs_ctx [OF s(2)] s(3) by (simp add: keeps_same)
  then show "keeps s s'" using keeps_trans [OF keeps_finish_job [OF s(1)]] by blast
qed

lemma event_keeps: "completion_event E io ev s = Inr s' \<Longrightarrow> keeps s s'"
proof (cases ev)
  case (EvCtx n chunks)
  assume "completion_event E io ev s = Inr s'"
  with EvCtx obtain evs where "ProcessCallbacks E evs (s\<lparr>ix_inflight := fold remove1 (map fst evs) (ix_inflight s)\<rparr>) = Inr s'"
    by (auto simp: completion_event_def rbind_eq_Inr split: option.splits)
  from callbacks_keeps [OF this] show ?thesis by (simp add: keeps_def)
qed (auto simp: completion_event_def rbind_eq_Inr split: if_splits dest: prq_keeps)

lemma fd_job_run_keeps:
  assumes "fd_job_run E ue pw p s = Inr s'"
  shows "keeps s s'"
proof -
  obtain job where g: "get_job p s = Inr job" using assms by (auto simp: fd_job_run_def rbind_eq_Inr)
  let ?c = "s\<lparr>ix_tick := Suc (Suc (ix_tick s)), ix_stats := (ix_stats s)\<lparr>ss_numSubmitted := ss_numSubmitted (ix_stats s) + 1\<rparr>\<rparr>"
  show ?thesis
  proof (cases "fj_op job = Delete \<or> fj_op job = NonAlignedWrite")
    case True
    then obtain r j where j: "setWaitTime (clock E (ix_tick s)) (clock E (Suc (ix_tick s))) job = Inr j"
        "finish_job E r p (put_job p j ?c) = Inr s'"
      using assms g by (auto simp: fd_job_run_def rbind_eq_Inr Let_def)
    have "io_params j = io_params job" using j(1) by (auto simp: setWaitTime_def rbind_eq_Inr io_params_def)
    then have "keeps s (put_job p j ?c)" by (rule keeps_put [OF get_job_Some [OF g]]) (simp add: put_job_def)
    then show ?thesis using keeps_finish_job [OF j(2)] by (rule keeps_trans)
  next
    case False
    with assms g have "finish_job E (- EINVAL) p s = Inr s'" by (simp add: fd_job_run_def Let_def)
    then show ?thesis by (rule keeps_finish_job)
  qed
qed

lemma fd_body_keeps:
  assumes "ProcessFdQueue_body E ue pw s = Inr (b, s')"
  shows "keeps s s'"
proof (cases "ix_fdQueue s")
  case Nil
  with assms show ?thesis by (auto simp: ProcessFdQueue_body_def rbind_eq_Inr keeps_same)
next
  case (Cons p q)
  with assms obtain v s1 where v: "fd_job_run E ue pw p (s\<lparr>ix_fdQueueCond := v, ix_fdQueue := q\<rparr>) = Inr s1" "ix_jobs s' = ix_jobs s1"
    by (auto simp: ProcessFdQueue_body_def rbind_eq_Inr Let_def split: if_splits)
  have "keeps s (s\<lparr>ix_fdQueueCond := v, ix_fdQueue := q\<rparr>)" by (simp add: keeps_same)
  then show ?thesis using keeps_trans [OF _ keeps_trans [OF fd_job_run_keeps [OF v(1)] keeps_same [OF v(2)]]] by blast
qed

section \<open>Steps of the threads\<close>

lemma jobs_after_submit [simp]: "ix_jobs (xs_x (after_submit p t ph x st)) = ix_jobs x"
  by (simp add: after_submit_def split: submit_phase.splits)

lemma step_keeps:
  assumes "exec_action E a st = Some (Inr st')" "\<And>p j. a \<noteq> ANew p j"
  shows "keeps (xs_x st) (xs_x st')"
proof (cases a)
  case (ANew p j)
  with assms(2) show ?thesis by blast
next
  case (ABegin b p)
  then obtain ph x where "submitTask_begin E b p (xs_x st) = Inr (ph, x)" "ix_jobs (xs_x st') = ix_jobs x"
    using assms(1) by (auto simp: rbind_eq_Inr split: if_splits)
  then show ?thesis using keeps_trans [OF submitTask_begin_keeps keeps_same] by blast
next
  case (AResumeFd p)
  let ?x = "(xs_x st)\<lparr>ix_fdWoken := remove1 p (ix_fdWoken (xs_x st)), ix_fdWaiters := remove1 p (ix_fdWaiters (xs_x st))\<rparr>"
  obtain ph x where x: "submit_fd E p ?x = Inr (ph, x)" "ix_jobs (xs_x st') = ix_jobs x"
    using AResumeFd assms(1) by (auto simp: rbind_eq_Inr split: if_splits)
  have "keeps (xs_x st) ?x" by (simp add: keeps_same)
  then show ?thesis using keeps_trans [OF _ keeps_trans [OF submit_keeps(1) [OF x(1)] keeps_same [OF x(2)]]] by blast
next
  case (AResumeRequest p)
  let ?x = "(xs_x st)\<lparr>ix_requestWoken := remove1 p (ix_requestWoken (xs_x st)),
    ix_requestWaiters := remove1 p (ix_requestWaiters (xs_x st))\<rparr>"
  obtain ph x where x: "submit_request E p ?x = Inr (ph, x)" "ix_jobs (xs_x st') = ix_jobs x"
    using AResumeRequest assms(1) by (auto simp: rbind_eq_Inr split: if_splits)
  have "keeps (xs_x st) ?x" by (simp add: keeps_same)
  then show ?thesis using keeps_trans [OF _ keeps_trans [OF submit_keeps(2) [OF x(1)] keeps_same [OF x(2)]]] by blast
next
  case (ADelete p)
  with assms(1) show ?thesis by (auto intro: keeps_remove split: if_splits)
qed (use assms(1) in \<open>auto simp: rbind_eq_Inr keeps_same stop_intake_def stop_final_def Let_def
      split: if_splits dest: process_keeps event_keeps fd_body_keeps\<close>)

text \<open>A job that is there before and after a step is the same job.\<close>

lemma step_same_job:
  assumes "xstep E st st'" "ix_jobs (xs_x st) p = Some j" "ix_jobs (xs_x st') p = Some j'"
  shows "io_params j' = io_params j"
  using assms(1)
proof cases
  case (xstepI a)
  show ?thesis
  proof (cases "\<exists>q k. a = ANew q k")
    case True
    then show ?thesis using xstepI(2) assms(2,3) by (auto simp: put_job_def split: if_splits)
  next
    case False
    then have "keeps (xs_x st) (xs_x st')" using step_keeps [OF xstepI(2)] by blast
    then show ?thesis using assms(2,3) unfolding keeps_def by fastforce
  qed
qed

text \<open>Steps during which the job at \<open>p\<close> is not deleted.\<close>

definition alive_step :: "sysenv \<Rightarrow> nat \<Rightarrow> xsys \<Rightarrow> xsys \<Rightarrow> bool" where
  "alive_step E p st st' \<longleftrightarrow> xstep E st st' \<and> ix_jobs (xs_x st') p \<noteq> None"

lemma alive_same_job:
  assumes "(alive_step E p)\<^sup>*\<^sup>* st st'" "ix_jobs (xs_x st) p = Some j"
  shows "\<exists>j'. ix_jobs (xs_x st') p = Some j' \<and> io_params j' = io_params j"
  using assms
proof (induction rule: rtranclp_induct)
  case (step st1 st2)
  then obtain j1 j2 where "ix_jobs (xs_x st1) p = Some j1" "io_params j1 = io_params j" "ix_jobs (xs_x st2) p = Some j2"
    by (auto simp: alive_step_def)
  then show ?case using step_same_job [of E st1 st2 p j1 j2] step.hyps(2) by (auto simp: alive_step_def)
qed simp

section \<open>What the kernel is given\<close>

text \<open>The control blocks that \<open>ProcessRequestQueue\<close> fills in a state.\<close>

definition blocks :: "sysenv \<Rightarrow> iox \<Rightarrow> iocb list" where
  "blocks E s =
     (case rbind (pause_ctxCond s) (\<lambda>s0. drain E (ix_requestQueue s0) [] (wakeup_ctxCond 1 s0)) of
        Inl _ \<Rightarrow> [] | Inr (cbs, _) \<Rightarrow> cbs)"

lemma blocks_right:
  assumes "cb \<in> set (blocks E s)"
  shows "right_block s cb"
proof (cases "rbind (pause_ctxCond s) (\<lambda>s0. drain E (ix_requestQueue s0) [] (wakeup_ctxCond 1 s0))")
  case (Inl e)
  then show ?thesis using assms by (simp add: blocks_def)
next
  case (Inr r)
  obtain cbs s1 where r: "r = (cbs, s1)" by (cases r)
  have cb: "cb \<in> set cbs" using assms Inr r by (simp add: blocks_def)
  obtain s0 where s0: "pause_ctxCond s = Inr s0" "drain E (ix_requestQueue s0) [] (wakeup_ctxCond 1 s0) = Inr (cbs, s1)"
    using Inr unfolding r rbind_eq_Inr by blast
  have "keeps s (wakeup_ctxCond 1 s0)" using same_jobs_pause [OF s0(1)] by (simp add: keeps_same)
  then show ?thesis using drain_keeps [OF s0(2)] cb right_block_keeps by auto
qed

lemma try_submit_sees:
  "(\<And>n cbs'. suffix cbs' cbs \<Longrightarrow> io1 n cbs' = io2 n cbs') \<Longrightarrow> try_submit E io1 n cbs s = try_submit E io2 n cbs s"
proof (induction n arbitrary: cbs s)
  case (Suc n)
  have e: "io1 n cbs = io2 n cbs" using Suc.prems by blast
  have "io1 m cbs' = io2 m cbs'" if "suffix cbs' (drop k cbs)" for m cbs' k
    using that Suc.prems suffix_drop suffix_order.trans by blast
  then have ih: "try_submit E io1 n (drop k cbs) s' = try_submit E io2 n (drop k cbs) s'" for k s' by (rule Suc.IH)
  from ih [of 0] have ih0: "try_submit E io1 n cbs s' = try_submit E io2 n cbs s'" for s' by simp
  show ?case unfolding try_submit.simps Let_def e ih ih0 ..
qed simp

text \<open>\<open>io_submit\<close> is only ever given these blocks, or what is left of them after a part was taken.\<close>

lemma prq_sees_blocks:
  assumes "\<And>n cbs. suffix cbs (blocks E s) \<Longrightarrow> io1 n cbs = io2 n cbs"
  shows "ProcessRequestQueue E io1 s = ProcessRequestQueue E io2 s"
proof (cases "rbind (pause_ctxCond s) (\<lambda>s0. drain E (ix_requestQueue s0) [] (wakeup_ctxCond 1 s0))")
  case (Inl e)
  then show ?thesis by (cases "pause_ctxCond s") (simp_all add: ProcessRequestQueue_def)
next
  case (Inr r)
  then obtain s0 cbs s1 where s0: "pause_ctxCond s = Inr s0" "drain E (ix_requestQueue s0) [] (wakeup_ctxCond 1 s0) = Inr (cbs, s1)"
    by (cases r) (auto simp: rbind_eq_Inr)
  then have "blocks E s = cbs" by (simp add: blocks_def)
  then have "try_submit E io1 5 cbs s1 = try_submit E io2 5 cbs s1" using assms try_submit_sees by blast
  then show ?thesis unfolding ProcessRequestQueue_def s0(1) rbind_simps s0(2) prod.case by simp
qed

section \<open>The transfer\<close>

text \<open>
  The documented effect of \<open>pread\<close> and \<open>pwrite\<close> of a whole control block, on the bytes of memory and of
  the open files.
\<close>

definition preads :: "iocb \<Rightarrow> (int \<Rightarrow> int \<Rightarrow> 8 word) \<Rightarrow> (64 word \<Rightarrow> 8 word) \<Rightarrow> (64 word \<Rightarrow> 8 word) \<Rightarrow> bool" where
  "preads cb disk mem mem' \<longleftrightarrow>
     (\<forall>a. mem' a = (if unat (a - cb_buf cb) < unat (cb_nbytes cb)
                    then disk (cb_fd cb) (cb_offset cb + int (unat (a - cb_buf cb))) else mem a))"

definition pwrites :: "iocb \<Rightarrow> (64 word \<Rightarrow> 8 word) \<Rightarrow> (int \<Rightarrow> int \<Rightarrow> 8 word) \<Rightarrow> (int \<Rightarrow> int \<Rightarrow> 8 word) \<Rightarrow> bool" where
  "pwrites cb mem disk disk' \<longleftrightarrow>
     (\<forall>fd i. disk' fd i = (if fd = cb_fd cb \<and> cb_offset cb \<le> i \<and> i < cb_offset cb + int (unat (cb_nbytes cb))
                          then mem (cb_buf cb + word_of_int (i - cb_offset cb)) else disk fd i))"

lemma round_covers:
  assumes "unat n \<le> 2 ^ 32 - 512"
  shows "unat n \<le> unat (RoundToNext512 n)" "IsDirectIOAligned n \<Longrightarrow> RoundToNext512 n = n"
proof -
  have r: "unat (RoundToNext512 n) = (unat n + 511) div 512 * 512" by (rule unat_RoundToNext512_small [OF assms])
  then show "unat n \<le> unat (RoundToNext512 n)" using round_up_512 [of "unat n"] by simp
  show "RoundToNext512 n = n" if "IsDirectIOAligned n"
  proof -
    from that obtain k where "unat n = 512 * k" by (auto simp: aligned_iff_dvd)
    with r have "unat (RoundToNext512 n) = unat n" by simp
    then show ?thesis by (simp add: word_unat_eq_iff)
  qed
qed

text \<open>
  C11. A transfer is the one that was asked for. Let the job of a fragment be at \<open>p\<close>, and let the threads
  of the executor take any steps during which it is not deleted. The control block that
  \<open>ProcessRequestQueue\<close> then fills for it is for the file, the buffer and the offset of the fragment and
  for its size rounded up to 512; \<open>io_submit\<close> is given nothing but these blocks. So, by the documented
  effect of the kernel, a read puts into each byte of the buffer the byte of the file at the same
  distance from the offset and changes no memory beyond the rounded size, and a write of a multiple
  of 512 bytes puts exactly the buffer into the file and changes no other byte of any file.
\<close>

theorem transfer_as_asked:
  assumes "make_job op fd close jobFd f = Inr j" "op = Read \<or> op = Write" "unat (fr_size f) \<le> 2 ^ 32 - 512"
    and "ix_jobs (xs_x st) p = Some j" "(alive_step E p)\<^sup>*\<^sup>* st st'" "cb \<in> set (blocks E (xs_x st'))" "cb_data cb = p"
  shows "cb = \<lparr>cb_cmd = (if op = Read then PREAD else PWRITE), cb_fd = fd, cb_buf = fr_addr f,
        cb_nbytes = RoundToNext512 (fr_size f), cb_offset = fr_offset f, cb_data = p\<rparr> \<and>
    (\<forall>io1 io2. (\<forall>n cbs. suffix cbs (blocks E (xs_x st')) \<longrightarrow> io1 n cbs = io2 n cbs) \<longrightarrow>
      ProcessRequestQueue E io1 (xs_x st') = ProcessRequestQueue E io2 (xs_x st')) \<and>
    (\<forall>disk mem mem'. preads cb disk mem mem' \<longrightarrow>
      (\<forall>i<unat (fr_size f). mem' (fr_addr f + of_nat i) = disk fd (fr_offset f + int i)) \<and>
      (\<forall>a. unat (RoundToNext512 (fr_size f)) \<le> unat (a - fr_addr f) \<longrightarrow> mem' a = mem a)) \<and>
    (\<forall>mem disk disk'. IsDirectIOAligned (fr_size f) \<and> pwrites cb mem disk disk' \<longrightarrow>
      (\<forall>i<unat (fr_size f). disk' fd (fr_offset f + int i) = mem (fr_addr f + of_nat i)) \<and>
      (\<forall>g k. g \<noteq> fd \<or> k < fr_offset f \<or> fr_offset f + int (unat (fr_size f)) \<le> k \<longrightarrow> disk' g k = disk g k))"
proof -
  obtain j' where j': "ix_jobs (xs_x st') p = Some j'" "io_params j' = io_params j" using alive_same_job [OF assms(5,4)] by blast
  have "cb = block_of p j'" using blocks_right [OF assms(6)] j'(1) assms(7) by (auto simp: right_block_def)
  then have "cb = block_of p j" using block_of_params [OF j'(2)] by simp
  then have cb: "cb = \<lparr>cb_cmd = (if op = Read then PREAD else PWRITE), cb_fd = fd, cb_buf = fr_addr f,
      cb_nbytes = RoundToNext512 (fr_size f), cb_offset = fr_offset f, cb_data = p\<rparr>"
    using assms(1,2) by (auto simp: make_job_def FilerJob_fd_def rbind_eq_Inr setBuffer_def block_of_def FilerJob_blank_def)
  note r = round_covers [OF assms(3)]
  have small: "i < 2 ^ 64" if "i < unat (fr_size f)" for i :: nat using that assms(3) by simp
  have rd: "mem' (fr_addr f + of_nat i) = disk fd (fr_offset f + int i)" if "preads cb disk mem mem'" "i < unat (fr_size f)" for disk mem mem' i
    using that r(1) small [OF that(2)] by (simp add: preads_def cb unsigned_of_nat take_bit_nat_eq_self)
  have wr: "disk' fd (fr_offset f + int i) = mem (fr_addr f + of_nat i)"
    if "IsDirectIOAligned (fr_size f)" "pwrites cb mem disk disk'" "i < unat (fr_size f)" for mem disk disk' i
  proof -
    have "int i < int (unat (fr_size f))" using that(3) by (simp only: of_nat_less_iff)
    then show ?thesis using that r(2) by (simp add: pwrites_def cb)
  qed
  have rest: "mem' a = mem a" if "preads cb disk mem mem'" "unat (RoundToNext512 (fr_size f)) \<le> unat (a - fr_addr f)" for disk mem mem' a
    using that by (simp add: preads_def cb)
  have other: "disk' g k = disk g k"
    if "IsDirectIOAligned (fr_size f)" "pwrites cb mem disk disk'" "g \<noteq> fd \<or> k < fr_offset f \<or> fr_offset f + int (unat (fr_size f)) \<le> k"
    for mem disk disk' g k
    using that r(2) by (auto simp: pwrites_def cb)
  show ?thesis
    by (intro conjI allI impI cb) (use prq_sees_blocks [of E "xs_x st'"] in blast, (erule (1) rd | erule (1) rest)+, (elim conjE, erule (2) wr | elim conjE, erule (2) other)+)
qed

lemma demo_read_block:
  "\<exists>st1 st2 cb. xstep tick_env st1 st2 \<and> ix_jobs (xs_x st1) 1 = Some demo_job \<and> ix_jobs (xs_x st2) 1 \<noteq> None \<and>
    cb \<in> set (blocks tick_env (xs_x st2)) \<and> cb_data cb = 1"
proof -
  obtain st2 where st2: "exec_actions tick_env demo_read (xsys_start demo_iox) = Some st2"
      and cb: "\<exists>cb. cb \<in> set (blocks tick_env (xs_x st2)) \<and> cb_data cb = 1" and j: "ix_jobs (xs_x st2) 1 \<noteq> None"
    by (simp add: demo_read_def demo_read_eval blocks_def prepareCallblock_def setWaitTime_def on_ctx_def decrementNumAvailable_def
        pause_ctxCond_def wakeup_ctxCond_def FilerCtx_isEmpty_def get_job_def put_job_def)
  then obtain st1 where st1: "exec_action tick_env (ANew 1 demo_job) (xsys_start demo_iox) = Some (Inr st1)"
      "exec_action tick_env (ABegin False 1) st1 = Some (Inr st2)"
    unfolding demo_read_def exec_actions.simps by (auto simp del: exec_action.simps split: option.splits sum.splits)
  have "action_ok (ABegin False 1) st1"
    using demo_read_run st1(1) unfolding demo_read_def run_ok.simps by (auto simp del: exec_action.simps)
  then have "xstep tick_env st1 st2" using st1(2) by (rule xstepI)
  moreover have "ix_jobs (xs_x st1) 1 = Some demo_job" using st1(1) by (auto simp: put_job_def split: if_splits)
  ultimately show ?thesis using cb j by blast
qed

theorem transfer_as_asked_witness:
  "\<exists>cb mem'. cb_fd cb = 5 \<and> cb_buf cb = 4096 \<and> cb_nbytes cb = 512 \<and> preads cb (\<lambda>fd i. word_of_int i) (\<lambda>_. 0) mem' \<and>
    mem' (4096 + of_nat 7) = 7"
proof -
  obtain st1 st2 cb where st: "xstep tick_env st1 st2" "ix_jobs (xs_x st1) 1 = Some demo_job" "ix_jobs (xs_x st2) 1 \<noteq> None"
      "cb \<in> set (blocks tick_env (xs_x st2))" "cb_data cb = 1"
    using demo_read_block by blast
  have m: "make_job Read 5 False 6 demo_frag = Inr demo_job"
    by (simp add: make_job_def FilerJob_fd_def demo_frag_def demo_job_def setBuffer_def FilerJob_blank_def FD_INVALID_def)
  have a: "(alive_step tick_env 1)\<^sup>*\<^sup>* st1 st2" using st(1,3) by (auto simp: alive_step_def)
  have z: "unat (fr_size demo_frag) \<le> 2 ^ 32 - 512" by (simp add: demo_frag_def)
  note t = transfer_as_asked [OF m disjI1 [OF refl] z st(2) a st(4,5)]
  define mem' where "mem' = (\<lambda>a. if unat (a - cb_buf cb) < unat (cb_nbytes cb) then (word_of_int (cb_offset cb + int (unat (a - cb_buf cb))) :: 8 word) else 0)"
  have p: "preads cb (\<lambda>fd i. word_of_int i) (\<lambda>_. 0) mem'" by (simp add: preads_def mem'_def)
  have "\<forall>i<unat (fr_size demo_frag). mem' (fr_addr demo_frag + of_nat i) = word_of_int (fr_offset demo_frag + int i)"
    using conjunct1 [OF conjunct2 [OF conjunct2 [OF t]]] p by blast
  then have "mem' (4096 + of_nat 7) = 7" by (auto simp: demo_frag_def dest: spec [of _ 7])
  moreover have "cb_fd cb = 5" "cb_buf cb = 4096" "cb_nbytes cb = 512"
    using conjunct1 [OF t] by (simp_all add: demo_frag_def RoundToNext512_def DirectIOSize_def)
  ultimately show ?thesis using p by blast
qed

end
