(* ===== verification/Xio_Message_Types.thy ===== *)
theory Xio_Message_Types
  imports Xio_Protocol
begin

text \<open>
  Type safety of the unpacker: whatever bytes arrive, an object the parser builds is well formed, so a
  message the conversion accepts has fields in the ranges of their C++ types.
\<close>

section \<open>Well-formed objects\<close>

text \<open>
  A negative number is negative, and a string is made of bytes of the input, of which there are at
  most \<open>n\<close>.
\<close>

fun obj_ok :: "nat \<Rightarrow> mobj \<Rightarrow> bool" where
  "obj_ok n (MNeg d) = (d < 0)"
| "obj_ok n (MStr s) = (length s \<le> n)"
| "obj_ok n (MBin s) = (length s \<le> n)"
| "obj_ok n (MArr xs) = list_all (obj_ok n) xs"
| "obj_ok n (MMap kvs) = list_all (\<lambda>kv. obj_ok n (fst kv) \<and> obj_ok n (snd kv)) kvs"
| "obj_ok n _ = True"

fun frame_ok :: "nat \<Rightarrow> frame \<Rightarrow> bool" where
  "frame_ok n (FArray xs _) = obj_ok n (MArr xs)"
| "frame_ok n (FKey kvs _) = obj_ok n (MMap kvs)"
| "frame_ok n (FValue kvs k _) = (obj_ok n (MMap kvs) \<and> obj_ok n k)"

fun token_ok :: "nat \<Rightarrow> token \<Rightarrow> bool" where
  "token_ok n (Item obj) = obj_ok n obj"
| "token_ok n _ = True"

section \<open>The parser builds well-formed objects\<close>

lemma obj_ok_mint [simp]: "obj_ok n (mint d)"
  by (simp add: mint_def)

lemma obj_ok_mstr [simp]: "obj_ok n (mstr body) \<longleftrightarrow> length body \<le> n"
  by (simp add: mstr_def)

lemma with_bytes_token:
  assumes "with_bytes k bs f = Token t rest" "length bs \<le> n"
    and "\<And>body r. f body r = Token t rest \<Longrightarrow> length body \<le> n \<Longrightarrow> length r \<le> n \<Longrightarrow> token_ok n t"
  shows "token_ok n t"
  using assms(1,2) assms(3) [of "take k bs" "drop k bs"] by (simp add: with_bytes_def split: if_splits)

lemma lex_token_ok:
  assumes "lex bs = Token t rest" "length bs \<le> n"
  shows "token_ok n t"
proof (cases bs)
  case (Cons b cs)
  then have "length cs \<le> n" using assms(2) by simp
  then show ?thesis
    using assms(1) unfolding Cons lex.simps Let_def sized_def
    by (auto split: if_splits elim!: with_bytes_token)
qed (use assms in simp)

lemma push_item_ok:
  "obj_ok n obj \<Longrightarrow> list_all (frame_ok n) st \<Longrightarrow>
    (case push_item obj st of Inl obj' \<Rightarrow> obj_ok n obj' | Inr st' \<Rightarrow> list_all (frame_ok n) st')"
  by (induction obj st rule: push_item.induct) auto

lemma push_token_ok:
  "token_ok n t \<Longrightarrow> list_all (frame_ok n) st \<Longrightarrow>
    (case push_token t st of Inl obj \<Rightarrow> obj_ok n obj | Inr st' \<Rightarrow> list_all (frame_ok n) st')"
  by (cases t) (auto simp: push_token_def intro: push_item_ok)

lemma execute_obj_ok:
  "execute st bs = UNPACK_SUCCESS obj r \<Longrightarrow> list_all (frame_ok n) st \<Longrightarrow> length bs \<le> n \<Longrightarrow> obj_ok n obj"
proof (induction st bs rule: execute.induct)
  case (1 st bs)
  from "1.prems"(1) obtain t rest where l: "lex bs = Token t rest"
    by (subst (asm) execute.simps) (auto split: lexed.splits)
  have ok: "case push_token t st of Inl obj \<Rightarrow> obj_ok n obj | Inr st' \<Rightarrow> list_all (frame_ok n) st'"
    using push_token_ok [OF lex_token_ok [OF l "1.prems"(3)] "1.prems"(2)] .
  show ?case
  proof (cases "push_token t st")
    case (Inl obj')
    with "1.prems"(1) l ok show ?thesis by (simp add: execute.simps [of st bs])
  next
    case (Inr st')
    with "1.prems"(1) l have "execute st' rest = UNPACK_SUCCESS obj r" by (simp add: execute.simps [of st bs])
    from "1.IH" [OF l Inr this] ok Inr lex_shorter [OF l] "1.prems"(3) show ?thesis by simp
  qed
qed

section \<open>The conversion keeps the message typed\<close>

lemma convert_signed_range:
  "convert_signed bits obj = Some v \<Longrightarrow> obj_ok n obj \<Longrightarrow> bits > 0 \<Longrightarrow> int_range bits v"
  by (cases obj) (auto simp: int_range_def split: if_splits intro: order_trans [of _ 0] order_less_le_trans [of _ 0])

lemma convert_string_bounded: "convert_string obj = Some s \<Longrightarrow> obj_ok n obj \<Longrightarrow> length s \<le> n"
  by (cases obj) auto

lemma opcode_ok_cast: "int_range 32 v \<Longrightarrow> opcode_ok (opcode_cast v)"
  by (auto simp: opcode_cast_def opcode_ok_def)

lemma convert_field_ok:
  assumes "convert_field i obj m = Inr m'" "obj_ok n obj" "n < 2 ^ 32" "msg_ok m"
  shows "msg_ok m'"
proof -
  have num: "int_range 32 v" if "convert_signed 32 obj = Some v" for v using convert_signed_range [OF that assms(2)] by simp
  have num64: "int_range 64 v" if "convert_signed 64 obj = Some v" for v using convert_signed_range [OF that assms(2)] by simp
  have str: "length s < 2 ^ 32" if "convert_string obj = Some s" for s
    using convert_string_bounded [OF that assms(2)] assms(3) by simp
  show ?thesis
    using assms(1,4)
    by (auto simp: convert_field_def assign_field_def msg_ok_def opcode_ok_cast num num64
        dest: str split: if_splits option.splits)
qed

lemma convert_fields_ok:
  "convert_fields i objs m = Inr m' \<Longrightarrow> list_all (obj_ok n) objs \<Longrightarrow> n < 2 ^ 32 \<Longrightarrow> msg_ok m \<Longrightarrow> msg_ok m'"
proof (induction objs arbitrary: i m)
  case (Cons obj objs)
  then obtain m1 where m1: "convert_field i obj m = Inr m1" "convert_fields (Suc i) objs m1 = Inr m'"
    by (auto split: sum.splits)
  then show ?case using Cons convert_field_ok [OF m1(1), of n] by simp
qed simp

lemma unpack_msg_ok:
  assumes "length sbuf < 2 ^ 32" "msg_ok m" "unpack_msg sbuf m = Inr m'"
  shows "msg_ok m'"
proof -
  obtain obj r where e: "execute [] sbuf = UNPACK_SUCCESS obj r" and c: "convert_msg obj m = Inr m'"
    using assms(3) by (auto simp: unpack_msg_def split: unpack_return.splits)
  obtain objs where o: "obj = MArr objs" "convert_fields 0 objs m = Inr m'"
    using c by (auto simp: convert_msg_def split: mobj.splits)
  have "list_all (obj_ok (length sbuf)) objs" using execute_obj_ok [OF e, of "length sbuf"] o(1) by simp
  then show ?thesis using convert_fields_ok [OF o(2)] assms(1,2) by blast
qed

text \<open>
  C14. A received message is well typed: whatever bytes a peer sends (fewer than four gigabytes), if
  \<open>unpack_msg\<close> accepts them then every field of the message is a value of its C++ type - the opcode and
  the error number fit in 32 bits, the return value and the timeout in 64, an opcode outside the
  enumeration is kept as a number - and packing the message again and unpacking it gives the same
  message, so nothing of an accepted message is lost when it is forwarded.
\<close>

theorem unpacked_msg_typed:
  assumes "length sbuf < 2 ^ 32" "msg_ok m" "unpack_msg sbuf m = Inr m'"
  shows "msg_ok m' \<and> unpack_msg (pack_msg m' @ rest) m0 = Inr m'"
  using unpack_msg_ok [OF assms] unpack_pack_msg by blast

theorem unpacked_msg_typed_witness:
  "let m = NetworkXioMsg_new Noop; m' = m\<lparr>nm_opcode := OtherOpcode (-1), nm_filename := ''a''\<rparr> in
     unpack_msg [0x92, 0xff, 0xc4, 1, 97] m = Inr m' \<and> msg_ok m' \<and> unpack_msg (pack_msg m') m = Inr m'"
proof -
  let ?m = "NetworkXioMsg_new Noop" let ?m' = "?m\<lparr>nm_opcode := OtherOpcode (-1), nm_filename := ''a''\<rparr>"
  have u: "unpack_msg [0x92, 0xff, 0xc4, 1, 97] ?m = Inr ?m'" by code_simp
  have ok: "msg_ok ?m" by (simp add: msg_ok_def opcode_ok_def int_range_def NetworkXioMsg_new_def)
  show ?thesis using unpacked_msg_typed [OF _ ok u, of "[]" ?m] u by (simp add: Let_def)
qed

end
