(* ===== verification/Locks.thy ===== *)
theory Locks
  imports Sync
begin

text \<open>
  The lock and the condition variable the other components are built on: \<open>Spinlock\<close>
  (\<open>src/util/Spinlock.h\<close>), which guards the client's queue of requests and the work queue's list of
  finished requests, and \<open>ConditionWrapper\<close> (\<open>src/util/ConditionWrapper.h\<close>). The mutual exclusion shown
  here is what lets the models of those components take a guarded section as one step.
\<close>

section \<open>Spinlock\<close>

text \<open>The flag, and where each thread is: outside the lock, in the loop of \<open>lock\<close>, or holding the lock.\<close>

datatype spin_pc = Outside | Spinning | Inside

record Spinlock =
  sl_flag :: bool
  sl_pc :: "nat \<Rightarrow> spin_pc"

definition Spinlock_new :: Spinlock where
  "Spinlock_new = \<lparr>sl_flag = False, sl_pc = (\<lambda>_. Outside)\<rparr>"

text \<open>\<open>test_and_set\<close> sets the flag and returns its old value, in one atomic access.\<close>

definition test_and_set :: "Spinlock \<Rightarrow> bool \<times> Spinlock" where
  "test_and_set s = (sl_flag s, s\<lparr>sl_flag := True\<rparr>)"

text \<open>One evaluation of the loop condition of \<open>lock\<close>; the loop ends when the flag was clear.\<close>

definition Spinlock_lock :: "nat \<Rightarrow> Spinlock \<Rightarrow> Spinlock" where
  "Spinlock_lock t s =
     (let (old, s') = test_and_set s in if old then s' else s'\<lparr>sl_pc := (sl_pc s')(t := Inside)\<rparr>)"

definition Spinlock_unlock :: "nat \<Rightarrow> Spinlock \<Rightarrow> Spinlock" where
  "Spinlock_unlock t s = s\<lparr>sl_flag := False, sl_pc := (sl_pc s)(t := Outside)\<rparr>"

inductive spin_step :: "Spinlock \<Rightarrow> Spinlock \<Rightarrow> bool" where
  spin_call: "sl_pc s t = Outside \<Longrightarrow> spin_step s (s\<lparr>sl_pc := (sl_pc s)(t := Spinning)\<rparr>)"
| spin_test: "sl_pc s t = Spinning \<Longrightarrow> spin_step s (Spinlock_lock t s)"
| spin_unlock: "sl_pc s t = Inside \<Longrightarrow> spin_step s (Spinlock_unlock t s)"

definition spin_inv :: "Spinlock \<Rightarrow> bool" where
  "spin_inv s \<longleftrightarrow> (sl_flag s \<longleftrightarrow> (\<exists>t. sl_pc s t = Inside)) \<and>
     (\<forall>t u. sl_pc s t = Inside \<and> sl_pc s u = Inside \<longrightarrow> t = u)"

lemma spin_inv_step: "spin_step s s' \<Longrightarrow> spin_inv s \<Longrightarrow> spin_inv s'"
proof (induction rule: spin_step.induct)
  case (spin_call s t)
  then have "(if u = t then Spinning else sl_pc s u) = Inside \<longleftrightarrow> sl_pc s u = Inside" for u by auto
  with spin_call.prems show ?case by (simp add: spin_inv_def)
next
  case (spin_test s t)
  then show ?case
    by (cases "sl_flag s") (auto simp: spin_inv_def Spinlock_lock_def test_and_set_def)
next
  case (spin_unlock s t)
  then show ?case by (auto simp: spin_inv_def Spinlock_unlock_def)
qed

interpretation spins: invariant_system "\<lambda>s. s = Spinlock_new" spin_step spin_inv
proof unfold_locales
  show "spin_inv s" if "s = Spinlock_new" for s
    using that by (simp add: spin_inv_def Spinlock_new_def)
  show "spin_inv s'" if "spin_inv s" "spin_step s s'" for s s'
    using spin_inv_step that by blast
qed

text \<open>
  C24. The spinlock excludes: however the threads interleave their calls of \<open>lock\<close> and \<open>unlock\<close>, at most
  one holds the lock. While one does, an evaluation of the loop condition by another changes nothing;
  when none does, the next evaluation by any thread in the loop gets the lock.
\<close>

theorem spinlock_exclusive:
  assumes "reach (\<lambda>s. s = Spinlock_new) spin_step s"
  shows "(\<forall>t u. sl_pc s t = Inside \<and> sl_pc s u = Inside \<longrightarrow> t = u) \<and>
    (\<forall>t. if \<exists>u. sl_pc s u = Inside then Spinlock_lock t s = s else sl_pc (Spinlock_lock t s) t = Inside)"
proof -
  have i: "spin_inv s" by (rule spins.inv_reach [OF assms])
  then have "Spinlock_lock t s = s" if "\<exists>u. sl_pc s u = Inside" for t
    using that by (auto simp: spin_inv_def Spinlock_lock_def test_and_set_def)
  moreover have "sl_pc (Spinlock_lock t s) t = Inside" if "\<nexists>u. sl_pc s u = Inside" for t
    using i that by (auto simp: spin_inv_def Spinlock_lock_def test_and_set_def)
  ultimately show ?thesis using i by (simp add: spin_inv_def)
qed

theorem spinlock_exclusive_witness:
  "\<exists>s. sl_pc s 1 = Inside \<and> sl_pc s 2 = Spinning \<and> Spinlock_lock 2 s = s"
proof -
  let ?s1 = "Spinlock_new\<lparr>sl_pc := (sl_pc Spinlock_new)(1 := Spinning)\<rparr>"
  let ?s2 = "Spinlock_lock 1 ?s1"
  let ?s3 = "?s2\<lparr>sl_pc := (sl_pc ?s2)(2 := Spinning)\<rparr>"
  have 0: "reach (\<lambda>s. s = Spinlock_new) spin_step Spinlock_new" by (rule reach_init) (rule refl)
  have 1: "reach (\<lambda>s. s = Spinlock_new) spin_step ?s1"
    by (rule reach_step [OF 0 spin_call]) (simp add: Spinlock_new_def)
  have 2: "reach (\<lambda>s. s = Spinlock_new) spin_step ?s2" by (rule reach_step [OF 1 spin_test]) simp
  have 3: "reach (\<lambda>s. s = Spinlock_new) spin_step ?s3"
    by (rule reach_step [OF 2 spin_call]) (simp add: Spinlock_lock_def test_and_set_def Spinlock_new_def)
  have in1: "sl_pc ?s3 1 = Inside" by (simp add: Spinlock_lock_def test_and_set_def Spinlock_new_def)
  then have "\<exists>u. sl_pc ?s3 u = Inside" ..
  then have "Spinlock_lock 2 ?s3 = ?s3" using conjunct2 [OF spinlock_exclusive [OF 3], THEN spec, of 2] by (simp only: if_True)
  then show ?thesis using in1 by (intro exI [of _ ?s3]) simp
qed

section \<open>ConditionWrapper\<close>

text \<open>
  Every operation holds the mutex, so each is one step; a wait gives the mutex up. The threads in
  \<open>wait\<close> are waiting or, after a notification or spuriously, woken and about to take the mutex again.
  A thread that has returned is in neither list.
\<close>

record ConditionWrapper =
  cw_waiting :: "nat list"
  cw_woken :: "nat list"

definition ConditionWrapper_pause :: "nat \<Rightarrow> ConditionWrapper \<Rightarrow> ConditionWrapper" where
  "ConditionWrapper_pause t c = c\<lparr>cw_waiting := cw_waiting c @ [t]\<rparr>"

text \<open>\<open>pauseIf\<close> is \<open>wait\<close> with a predicate: \<open>while (!pred()) wait\<close>; despite its name it waits unless \<open>pred\<close>.\<close>

definition ConditionWrapper_pauseIf :: "bool \<Rightarrow> nat \<Rightarrow> ConditionWrapper \<Rightarrow> ConditionWrapper" where
  "ConditionWrapper_pauseIf pred t c = (if pred then c else ConditionWrapper_pause t c)"

definition ConditionWrapper_wakeup :: "ConditionWrapper \<Rightarrow> ConditionWrapper" where
  "ConditionWrapper_wakeup c = c\<lparr>cw_waiting := [], cw_woken := cw_woken c @ cw_waiting c\<rparr>"

definition ConditionWrapper_wakeupIf :: "bool \<Rightarrow> ConditionWrapper \<Rightarrow> ConditionWrapper" where
  "ConditionWrapper_wakeupIf pred c = (if pred then ConditionWrapper_wakeup c else c)"

text \<open>A woken thread takes the mutex: after \<open>pause\<close> it returns, in \<open>pauseIf\<close> it looks at the predicate again.\<close>

definition resume_pause :: "nat \<Rightarrow> ConditionWrapper \<Rightarrow> ConditionWrapper" where
  "resume_pause t c = c\<lparr>cw_woken := remove1 t (cw_woken c)\<rparr>"

definition resume_pauseIf :: "bool \<Rightarrow> nat \<Rightarrow> ConditionWrapper \<Rightarrow> ConditionWrapper" where
  "resume_pauseIf pred t c = ConditionWrapper_pauseIf pred t (resume_pause t c)"

text \<open>
  Threads that wait with \<open>pauseIf\<close> for a predicate of shared data, and threads that change the data under
  the mutex and then call \<open>wakeupIf\<close> with the predicate. The third component collects the values of the
  predicate at the returns of \<open>pauseIf\<close>.
\<close>

inductive cond_step :: "('d \<Rightarrow> bool) \<Rightarrow> 'd \<times> ConditionWrapper \<times> bool list \<Rightarrow> 'd \<times> ConditionWrapper \<times> bool list \<Rightarrow> bool"
  for pred :: "'d \<Rightarrow> bool" where
  cond_pause: "t \<notin> set (cw_waiting c) \<union> set (cw_woken c) \<Longrightarrow>
    cond_step pred (d, c, rs) (d, ConditionWrapper_pauseIf (pred d) t c, if pred d then rs @ [pred d] else rs)"
| cond_resume: "t \<in> set (cw_woken c) \<Longrightarrow>
    cond_step pred (d, c, rs) (d, resume_pauseIf (pred d) t c, if pred d then rs @ [pred d] else rs)"
| cond_spurious: "t \<in> set (cw_waiting c) \<Longrightarrow>
    cond_step pred (d, c, rs) (d, c\<lparr>cw_waiting := remove1 t (cw_waiting c), cw_woken := cw_woken c @ [t]\<rparr>, rs)"
| cond_change: "cond_step pred (d, c, rs) (d', ConditionWrapper_wakeupIf (pred d') c, rs)"

definition cond_init :: "'d \<times> ConditionWrapper \<times> bool list \<Rightarrow> bool" where
  "cond_init st \<longleftrightarrow> (\<exists>d. st = (d, \<lparr>cw_waiting = [], cw_woken = []\<rparr>, []))"

definition cond_inv :: "('d \<Rightarrow> bool) \<Rightarrow> 'd \<times> ConditionWrapper \<times> bool list \<Rightarrow> bool" where
  "cond_inv pred = (\<lambda>(d, c, rs). (pred d \<longrightarrow> cw_waiting c = []) \<and> (\<forall>r\<in>set rs. r))"

lemmas condition_defs = ConditionWrapper_pauseIf_def ConditionWrapper_pause_def ConditionWrapper_wakeupIf_def
  ConditionWrapper_wakeup_def resume_pauseIf_def resume_pause_def

interpretation conds: invariant_system cond_init "cond_step pred" "cond_inv pred" for pred :: "'d \<Rightarrow> bool"
proof unfold_locales
  show "cond_inv pred st" if "cond_init st" for st
    using that by (auto simp: cond_init_def cond_inv_def)
  show "cond_inv pred st'" if "cond_inv pred st" "cond_step pred st st'" for st st'
    using that(2,1) by induction (auto simp: cond_inv_def condition_defs)
qed



end
