(* ===== verification/Json_Text.thy ===== *)
theory Json_Text
  imports Gobjfs_Prelude
begin

text \<open>
  Texts the program prints: decimal numbers and objects in JSON, and an automaton that accepts the JSON
  texts without escapes and without \<open>true\<close>, \<open>false\<close> and \<open>null\<close>, which the program never prints.
\<close>

section \<open>Decimal numbers\<close>

definition digit :: "nat \<Rightarrow> char" where
  "digit n = ''0123456789'' ! n"

text \<open>What \<open>operator<<\<close> of a stream prints for an unsigned and for a signed integer.\<close>

fun dec :: "nat \<Rightarrow> string" where
  "dec n = (if n < 10 then [digit n] else dec (n div 10) @ [digit (n mod 10)])"

declare dec.simps [simp del]

definition dec_int :: "int \<Rightarrow> string" where
  "dec_int i = (if i < 0 then CHR ''-'' # dec (nat (- i)) else dec (nat i))"

definition undigit :: "char \<Rightarrow> nat" where
  "undigit ch = of_char ch - 48"

definition undec :: "string \<Rightarrow> nat" where
  "undec s = foldl (\<lambda>a ch. 10 * a + undigit ch) 0 s"

lemma undigit_digit [simp]: "n < 10 \<Longrightarrow> undigit (digit n) = n"
proof -
  have "\<forall>n\<in>set [0..<10]. undigit (digit n) = n" by code_simp
  then show "n < 10 \<Longrightarrow> undigit (digit n) = n" by simp
qed

lemma undec_dec: "undec (dec n) = n"
proof (induction n rule: dec.induct)
  case (1 n)
  show ?case
  proof (cases "n < 10")
    case True
    then show ?thesis by (simp add: dec.simps [of n] undec_def)
  next
    case False
    with 1 show ?thesis by (simp add: dec.simps [of n]) (simp add: undec_def)
  qed
qed

section \<open>Objects\<close>

definition quoted :: "string \<Rightarrow> string" where
  "quoted k = CHR 0x22 # k @ [CHR 0x22]"

definition member_text :: "string \<times> string \<Rightarrow> string" where
  "member_text kv = quoted (fst kv) @ CHR '':'' # snd kv"

fun commas :: "string list \<Rightarrow> string" where
  "commas [] = []"
| "commas [x] = x"
| "commas (x # xs) = x @ CHR '','' # commas xs"

definition object_text :: "(string \<times> string) list \<Rightarrow> string" where
  "object_text kvs = CHR ''{'' # commas (map member_text kvs) @ ''}''"

definition array_text :: "string list \<Rightarrow> string" where
  "array_text vs = CHR ''['' # commas vs @ '']''"

section \<open>The automaton\<close>

datatype num_state = NMinus | NZero | NInt | NDot | NFrac | NExp | NSign | NExpDigits

datatype jmode = JValue | JFirst | JKey bool | JStr bool | JColon | JNum num_state | JAfter | JBad

text \<open>The stack of open containers: \<open>True\<close> for an object, \<open>False\<close> for an array.\<close>

type_synonym jstate = "jmode \<times> bool list"

definition is_digit :: "char \<Rightarrow> bool" where
  "is_digit ch \<longleftrightarrow> ch \<in> set ''0123456789''"

definition is_space :: "char \<Rightarrow> bool" where
  "is_space ch \<longleftrightarrow> ch = CHR '' '' \<or> ch = CHR 0x09 \<or> ch = CHR 0x0A \<or> ch = CHR 0x0D"

definition plain :: "char \<Rightarrow> bool" where
  "plain ch \<longleftrightarrow> 32 \<le> (of_char ch :: nat) \<and> ch \<noteq> CHR 0x22 \<and> ch \<noteq> CHR 0x5C"

definition jvalue :: "char \<Rightarrow> bool list \<Rightarrow> jstate" where
  "jvalue ch st =
     (if ch = CHR 0x22 then (JStr False, st) else if ch = CHR ''{'' then (JKey True, True # st)
      else if ch = CHR ''['' then (JFirst, False # st) else if ch = CHR ''-'' then (JNum NMinus, st)
      else if ch = CHR ''0'' then (JNum NZero, st) else if is_digit ch then (JNum NInt, st) else (JBad, st))"

definition jafter :: "char \<Rightarrow> bool list \<Rightarrow> jstate" where
  "jafter ch st =
     (case st of [] \<Rightarrow> (JBad, st)
      | b # r \<Rightarrow>
          if ch = CHR '','' then (if b then JKey False else JValue, st)
          else if ch = (if b then CHR ''}'' else CHR '']'') then (JAfter, r) else (JBad, st))"

definition complete :: "num_state \<Rightarrow> bool" where
  "complete n \<longleftrightarrow> n = NZero \<or> n = NInt \<or> n = NFrac \<or> n = NExpDigits"

definition jnum :: "num_state \<Rightarrow> char \<Rightarrow> num_state option" where
  "jnum n ch =
     (if is_digit ch then
        (case n of NMinus \<Rightarrow> Some (if ch = CHR ''0'' then NZero else NInt) | NZero \<Rightarrow> None | NInt \<Rightarrow> Some NInt
         | NDot \<Rightarrow> Some NFrac | NFrac \<Rightarrow> Some NFrac | NExp \<Rightarrow> Some NExpDigits | NSign \<Rightarrow> Some NExpDigits | NExpDigits \<Rightarrow> Some NExpDigits)
      else if ch = CHR ''.'' \<and> (n = NZero \<or> n = NInt) then Some NDot
      else if (ch = CHR ''e'' \<or> ch = CHR ''E'') \<and> (n = NZero \<or> n = NInt \<or> n = NFrac) then Some NExp
      else if (ch = CHR ''+'' \<or> ch = CHR ''-'') \<and> n = NExp then Some NSign
      else None)"

definition jstep :: "jstate \<Rightarrow> char \<Rightarrow> jstate" where
  "jstep s ch =
     (case s of (m, st) \<Rightarrow>
        (case m of
           JStr key \<Rightarrow> if ch = CHR 0x22 then (if key then JColon else JAfter, st) else if plain ch then s else (JBad, st)
         | JNum n \<Rightarrow>
             (case jnum n ch of Some n' \<Rightarrow> (JNum n', st)
              | None \<Rightarrow> if \<not> complete n then (JBad, st) else if is_space ch then (JAfter, st) else jafter ch st)
         | JBad \<Rightarrow> s
         | _ \<Rightarrow>
             if is_space ch then s
             else (case m of
                 JValue \<Rightarrow> jvalue ch st
               | JFirst \<Rightarrow> if ch = CHR '']'' then (JAfter, tl st) else jvalue ch st
               | JKey first \<Rightarrow>
                   if ch = CHR 0x22 then (JStr True, st)
                   else if first \<and> ch = CHR ''}'' then (JAfter, tl st) else (JBad, st)
               | JColon \<Rightarrow> if ch = CHR '':'' then (JValue, st) else (JBad, st)
               | _ \<Rightarrow> jafter ch st)))"

definition jrun :: "jstate \<Rightarrow> string \<Rightarrow> jstate" where
  "jrun = foldl jstep"

definition json_ok :: "string \<Rightarrow> bool" where
  "json_ok s \<longleftrightarrow>
     (case jrun (JValue, []) s of (m, st) \<Rightarrow> st = [] \<and> (m = JAfter \<or> (\<exists>n. m = JNum n \<and> complete n)))"

lemma jrun_simps [simp]:
  "jrun s [] = s"
  "jrun s (ch # cs) = jrun (jstep s ch) cs"
  "jrun s (xs @ ys) = jrun (jrun s xs) ys"
  by (simp_all add: jrun_def)

lemma jstep_bad [simp]: "jstep (JBad, st) ch = (JBad, st)"
  by (simp add: jstep_def)

lemma jrun_bad [simp]: "jrun (JBad, st) s = (JBad, st)"
  by (induction s) (simp_all add: jstep_def)

section \<open>Good and bad values\<close>

text \<open>
  A text is a value when the automaton, at a place where a value is expected, reads it and the
  delimiter after it like a finished value; it is bad when the automaton rejects every text with it.
\<close>

definition json_value :: "string \<Rightarrow> bool" where
  "json_value v \<longleftrightarrow> (\<forall>ch\<in>set '',}]''. \<forall>st. jstep (jrun (JValue, st) v) ch = jafter ch st)"

definition json_bad :: "string \<Rightarrow> bool" where
  "json_bad v \<longleftrightarrow> (\<forall>st. \<exists>st'. jrun (JValue, st) v = (JBad, st'))"

definition decided :: "string \<Rightarrow> bool" where
  "decided v \<longleftrightarrow> json_value v \<or> json_bad v"

lemma json_valueD:
  assumes "json_value v"
  shows "jstep (jrun (JValue, True # st) v) CHR '','' = (JKey False, True # st)"
    and "jstep (jrun (JValue, True # st) v) CHR ''}'' = (JAfter, st)"
    and "jstep (jrun (JValue, False # st) v) CHR '','' = (JValue, False # st)"
    and "jstep (jrun (JValue, False # st) v) CHR '']'' = (JAfter, st)"
  using assms by (simp_all add: json_value_def jafter_def)

lemma jstep_JAfter: "ch \<in> set '',}]'' \<Longrightarrow> jstep (JAfter, st) ch = jafter ch st"
  by (auto simp: jstep_def is_space_def)

lemma jrun_JFirst: "v \<noteq> [] \<Longrightarrow> hd v \<noteq> CHR '']'' \<Longrightarrow> \<not> is_space (hd v) \<Longrightarrow> jrun (JFirst, st) v = jrun (JValue, st) v"
  by (cases v) (simp_all add: jstep_def)

lemma jrun_quoted:
  "list_all plain k \<Longrightarrow> jrun (JKey b, st) (quoted k) = (JColon, st)"
proof -
  assume k: "list_all plain k"
  have "jrun (JStr True, st) k = (JStr True, st)"
    using k by (induction k) (auto simp: jstep_def plain_def)
  then show ?thesis by (simp add: quoted_def) (simp add: jstep_def is_space_def)
qed

lemma jrun_member: "list_all plain k \<Longrightarrow> jrun (JKey b, st) (member_text (k, v)) = jrun (JValue, st) v"
  by (simp add: member_text_def jrun_quoted) (simp add: jstep_def is_space_def)

text \<open>An object is a value when its values are, and bad when one of them is.\<close>

lemma jrun_members:
  assumes "kvs \<noteq> []" "\<forall>(k, v)\<in>set kvs. list_all plain k \<and> decided v"
  shows "if \<forall>(k, v)\<in>set kvs. json_value v
    then jstep (jrun (JKey b, True # st) (commas (map member_text kvs))) CHR ''}'' = (JAfter, st)
    else \<exists>st'. jrun (JKey b, True # st) (commas (map member_text kvs)) = (JBad, st')"
  using assms
proof (induction kvs arbitrary: b rule: list_nonempty_induct)
  case (single kv)
  obtain k v where kv: "kv = (k, v)" by (cases kv)
  show ?case
    using single by (auto simp: kv jrun_member decided_def json_valueD json_bad_def)
next
  case (cons kv kvs)
  obtain k v where kv: "kv = (k, v)" by (cases kv)
  obtain x xs where x: "map member_text kvs = x # xs" using cons.hyps by (cases kvs) auto
  have c: "commas (map member_text (kv # kvs)) = member_text kv @ CHR '','' # commas (map member_text kvs)" by (simp add: x)
  have d: "list_all plain k" "decided v" using cons.prems kv by auto
  show ?case
  proof (cases "json_value v")
    case True
    have "jrun (JKey b, True # st) (commas (map member_text (kv # kvs))) = jrun (JKey False, True # st) (commas (map member_text kvs))"
      unfolding c by (simp add: kv jrun_member [OF d(1)] json_valueD [OF True] del: commas.simps)
    then show ?thesis using cons.IH [of False] cons.prems True kv by auto
  next
    case False
    then have "\<exists>st'. jrun (JValue, True # st) v = (JBad, st')" using d(2) by (simp add: decided_def json_bad_def)
    then have "\<exists>st'. jrun (JKey b, True # st) (commas (map member_text (kv # kvs))) = (JBad, st')"
      unfolding c by (auto simp: kv jrun_member [OF d(1)] jstep_bad simp del: commas.simps)
    then show ?thesis using False kv by auto
  qed
qed

lemma object_text_decided:
  assumes "kvs \<noteq> []" "\<forall>(k, v)\<in>set kvs. list_all plain k \<and> decided v"
  shows "if \<forall>(k, v)\<in>set kvs. json_value v then json_value (object_text kvs) else json_bad (object_text kvs)"
proof -
  have o: "jstep (JValue, st) CHR ''{'' = (JKey True, True # st)" for st by (simp add: jstep_def is_space_def jvalue_def)
  have r: "jrun (JValue, st) (object_text kvs) = jstep (jrun (JKey True, True # st) (commas (map member_text kvs))) CHR ''}''" for st
    by (simp add: object_text_def o)
  show ?thesis
  proof (cases "\<forall>(k, v)\<in>set kvs. json_value v")
    case True
    then have "jrun (JValue, st) (object_text kvs) = (JAfter, st)" for st
      using jrun_members [OF assms, of True st] by (simp add: r)
    then show ?thesis using True jstep_JAfter by (simp add: json_value_def)
  next
    case False
    then have "\<exists>st'. jrun (JValue, st) (object_text kvs) = (JBad, st')" for st
      using jrun_members [OF assms, of True st] unfolding r if_not_P [OF False] by auto
    then show ?thesis unfolding if_not_P [OF False] by (simp add: json_bad_def)
  qed
qed

lemma json_value_not_bad: "json_bad v \<Longrightarrow> \<not> json_value v"
proof
  assume b: "json_bad v" and v: "json_value v"
  obtain st' where "jrun (JValue, [True]) v = (JBad, st')" using b unfolding json_bad_def by blast
  then show False using json_valueD(2) [OF v, of "[]"] by simp
qed

text \<open>So with decided values an object is JSON exactly when all its values are.\<close>

lemma object_text_value:
  assumes "kvs \<noteq> []" "\<forall>(k, v)\<in>set kvs. list_all plain k \<and> decided v"
  shows "json_value (object_text kvs) \<longleftrightarrow> (\<forall>(k, v)\<in>set kvs. json_value v)" "decided (object_text kvs)"
  using object_text_decided [OF assms] json_value_not_bad by (auto simp: decided_def split: if_splits)

lemma object_text_ok:
  assumes "kvs \<noteq> []" "\<forall>(k, v)\<in>set kvs. list_all plain k \<and> decided v"
  shows "json_ok (object_text kvs) \<longleftrightarrow> (\<forall>(k, v)\<in>set kvs. json_value v)"
proof (cases "\<forall>(k, v)\<in>set kvs. json_value v")
  case True
  then show ?thesis
    using jrun_members [OF assms, of True "[]"] by (simp add: json_ok_def object_text_def) (simp add: jstep_def is_space_def jvalue_def)
next
  case False
  have "json_bad (object_text kvs)" using object_text_decided [OF assms] unfolding if_not_P [OF False] .
  then show ?thesis unfolding json_ok_def json_bad_def using False by (auto dest: spec [of _ "[]"])
qed

lemma json_ok_bad: "json_bad v \<Longrightarrow> \<not> json_ok (v @ rest)"
  unfolding json_bad_def json_ok_def by (auto dest: spec [of _ "[]"])

section \<open>Numbers and arrays\<close>

lemma digit_facts:
  assumes "n < 10"
  shows "is_digit (digit n)" "digit n = CHR ''0'' \<longleftrightarrow> n = 0" "\<not> is_space (digit n)" "digit n \<noteq> CHR '']''"
    "digit n \<noteq> CHR 0x22" "digit n \<noteq> CHR ''{''" "digit n \<noteq> CHR ''[''" "digit n \<noteq> CHR ''-''"
proof -
  have "\<forall>n\<in>set [0..<10]. is_digit (digit n) \<and> (digit n = CHR ''0'' \<longleftrightarrow> n = 0) \<and> \<not> is_space (digit n) \<and>
      digit n \<notin> set [CHR '']'', CHR 0x22, CHR ''{'', CHR ''['', CHR ''-'']" by code_simp
  then show "is_digit (digit n)" "digit n = CHR ''0'' \<longleftrightarrow> n = 0" "\<not> is_space (digit n)" "digit n \<noteq> CHR '']''"
      "digit n \<noteq> CHR 0x22" "digit n \<noteq> CHR ''{''" "digit n \<noteq> CHR ''[''" "digit n \<noteq> CHR ''-''"
    using assms by auto
qed

lemma jstep_digit:
  assumes "n < 10"
  shows "jstep (JValue, st) (digit n) = (JNum (if n = 0 then NZero else NInt), st)"
    and "jstep (JNum NMinus, st) (digit n) = (JNum (if n = 0 then NZero else NInt), st)"
    and "jstep (JNum NInt, st) (digit n) = (JNum NInt, st)"
  using digit_facts [OF assms] by (simp_all add: jstep_def jvalue_def jnum_def)

lemma jrun_dec: "jrun (JValue, st) (dec n) = (JNum (if n = 0 then NZero else NInt), st)"
proof (induction n rule: dec.induct)
  case (1 n)
  show ?case
  proof (cases "n < 10")
    case True
    then show ?thesis by (simp add: dec.simps [of n] jstep_digit)
  next
    case False
    then have "n div 10 \<noteq> 0" by simp
    with 1 False show ?thesis by (simp add: dec.simps [of n] jstep_digit)
  qed
qed

lemma jstep_complete: "complete n \<Longrightarrow> ch \<in> set '',}]'' \<Longrightarrow> jstep (JNum n, st) ch = jafter ch st"
proof -
  assume n: "complete n" and ch: "ch \<in> set '',}]''"
  have "\<forall>ch\<in>set '',}]''. \<not> is_digit ch \<and> \<not> is_space ch \<and> ch \<notin> set ''.eE+-''" by code_simp
  with ch have "\<not> is_digit ch" "\<not> is_space ch" "ch \<notin> set ''.eE+-''" by blast+
  then show "jstep (JNum n, st) ch = jafter ch st" using n by (simp add: jstep_def jnum_def)
qed

lemma json_value_number: "(\<And>st. \<exists>n. complete n \<and> jrun (JValue, st) v = (JNum n, st)) \<Longrightarrow> json_value v"
  unfolding json_value_def using jstep_complete by metis

lemma json_value_dec [simp]: "json_value (dec n)"
  by (rule json_value_number) (auto simp: jrun_dec complete_def)

lemma json_value_dec_int [simp]: "json_value (dec_int i)"
proof (cases "i < 0")
  case True
  then have n: "nat (- i) \<noteq> 0" by simp
  have "jrun (JNum NMinus, st) (dec m) = jrun (JValue, st) (dec m)" for st m
  proof (induction m rule: dec.induct)
    case (1 m)
    show ?case
    proof (cases "m < 10")
      case True
      then show ?thesis by (simp add: dec.simps [of m] jstep_digit)
    next
      case False
      with 1 show ?thesis by (simp add: dec.simps [of m])
    qed
  qed
  then have "jrun (JValue, st) (dec_int i) = (JNum NInt, st)" for st
    using True n by (simp add: dec_int_def jrun_dec) (simp add: jstep_def is_space_def jvalue_def jrun_dec)
  then show ?thesis by (intro json_value_number) (auto simp: complete_def)
qed (simp add: dec_int_def)

lemma dec_first: "dec n \<noteq> [] \<and> hd (dec n) \<noteq> CHR '']'' \<and> \<not> is_space (hd (dec n))"
proof (induction n rule: dec.induct)
  case (1 n)
  then show ?case by (cases "n < 10") (simp_all add: dec.simps [of n] digit_facts)
qed

lemma commas_first: "\<exists>r. commas (x # xs) = x @ r"
  by (cases xs) auto

lemma jrun_numbers:
  "ns \<noteq> [] \<Longrightarrow> jstep (jrun (JValue, False # st) (commas (map dec ns))) CHR '']'' = (JAfter, st)"
proof (induction ns rule: list_nonempty_induct)
  case (single n)
  then show ?case by (simp add: json_valueD)
next
  case (cons n ns)
  obtain x xs where x: "map dec ns = x # xs" using cons.hyps by (cases ns) auto
  have "commas (map dec (n # ns)) = dec n @ CHR '','' # commas (map dec ns)" by (simp add: x)
  then show ?case using cons.IH by (simp add: json_valueD del: commas.simps)
qed

lemma json_value_numbers [simp]: "json_value (array_text (map dec ns))"
proof (cases ns)
  case Nil
  then show ?thesis
    by (simp add: json_value_def array_text_def jstep_JAfter) (simp add: jstep_def is_space_def jvalue_def)
next
  case (Cons n ns')
  then have ns: "ns \<noteq> []" by simp
  obtain r where "commas (map dec ns) = dec n @ r" using commas_first [of "dec n" "map dec ns'"] Cons by auto
  then have f: "commas (map dec ns) \<noteq> []" "hd (commas (map dec ns)) \<noteq> CHR '']''" "\<not> is_space (hd (commas (map dec ns)))"
    using dec_first [of n] by simp_all
  have o: "jstep (JValue, st) CHR ''['' = (JFirst, False # st)" for st by (simp add: jstep_def is_space_def jvalue_def)
  show ?thesis using jrun_numbers [OF ns] f by (simp add: json_value_def array_text_def o jrun_JFirst jstep_JAfter)
qed

lemma decided_values [simp]: "json_value v \<Longrightarrow> decided v"
  by (simp add: decided_def)

text \<open>A space before a value changes nothing.\<close>

lemma json_space [simp]:
  "json_value (CHR '' '' # v) \<longleftrightarrow> json_value v" "json_bad (CHR '' '' # v) \<longleftrightarrow> json_bad v" "decided (CHR '' '' # v) \<longleftrightarrow> decided v"
proof -
  have "jstep (JValue, st) CHR '' '' = (JValue, st)" for st by (simp add: jstep_def is_space_def)
  then show "json_value (CHR '' '' # v) \<longleftrightarrow> json_value v" "json_bad (CHR '' '' # v) \<longleftrightarrow> json_bad v" "decided (CHR '' '' # v) \<longleftrightarrow> decided v"
    by (simp_all add: json_value_def json_bad_def decided_def)
qed

end
