(* ===== verification/Cpu_Stats.thy ===== *)
theory Cpu_Stats
  imports Stats
begin

text \<open>
  CPU times of a thread or process (\<open>src/util/CpuStats.cpp\<close>): reading them from the kernel and the
  difference of two readings with its CPU utilisation.
\<close>

section \<open>Data and reading\<close>

record CpuStats =
  cp_userTimeMicrosec :: "64 word"
  cp_systemTimeMicrosec :: "64 word"
  cp_wallTimeMicrosec :: "64 word"
  cp_cpuUtil :: int
  cp_voluntaryCtxSwitch :: int
  cp_involuntaryCtxSwitch :: int

definition CpuStats_init :: CpuStats where
  "CpuStats_init = \<lparr>cp_userTimeMicrosec = 0, cp_systemTimeMicrosec = 0, cp_wallTimeMicrosec = 0, cp_cpuUtil = 0,
     cp_voluntaryCtxSwitch = 0, cp_involuntaryCtxSwitch = 0\<rparr>"

text \<open>A \<open>timeval\<close> is a pair of seconds and microseconds.\<close>

record rusage =
  ru_utime :: "int \<times> int"
  ru_stime :: "int \<times> int"
  ru_nvcsw :: int
  ru_nivcsw :: int

definition micros :: "int \<times> int \<Rightarrow> 64 word" where
  "micros tv = word_of_int (fst tv * 1000000 + snd tv)"

text \<open>
  \<open>usage\<close> and \<open>wall\<close> are the answers of \<open>getrusage\<close> (for the process or the thread) and
  \<open>gettimeofday\<close>, each with its errno.
\<close>

definition getFromKernel :: "(bool \<Rightarrow> int \<times> rusage) \<Rightarrow> int \<times> int \<times> int \<Rightarrow> bool \<Rightarrow> CpuStats \<Rightarrow> int \<times> CpuStats" where
  "getFromKernel usage wall isProcess c =
     (if fst (usage isProcess) \<noteq> 0 then (- fst (usage isProcess), c)
      else let u = snd (usage isProcess) in
        (0, c\<lparr>cp_userTimeMicrosec := micros (ru_utime u), cp_systemTimeMicrosec := micros (ru_stime u),
              cp_wallTimeMicrosec := (if fst wall \<noteq> 0 then cp_wallTimeMicrosec c else micros (snd wall)),
              cp_voluntaryCtxSwitch := ru_nvcsw u, cp_involuntaryCtxSwitch := ru_nivcsw u\<rparr>))"

definition getProcessStats :: "(bool \<Rightarrow> int \<times> rusage) \<Rightarrow> int \<times> int \<times> int \<Rightarrow> CpuStats \<Rightarrow> int \<times> CpuStats" where
  "getProcessStats usage wall = getFromKernel usage wall True"

definition getThreadStats :: "(bool \<Rightarrow> int \<times> rusage) \<Rightarrow> int \<times> int \<times> int \<Rightarrow> CpuStats \<Rightarrow> int \<times> CpuStats" where
  "getThreadStats usage wall = getFromKernel usage wall False"

section \<open>Differences\<close>

text \<open>
  The conversion of a \<open>float\<close> that is not finite or does not fit to \<open>int32_t\<close> is undefined.
\<close>

definition float_to_int32 :: "real \<Rightarrow> int res" where
  "float_to_int32 x =
     (let i = (if x < 0 then \<lceil>x\<rceil> else \<lfloor>x\<rfloor>)
      in if - (2 ^ 31) \<le> i \<and> i < 2 ^ 31 then Inr i else Inl (UndefinedBehaviour ''float to int32_t''))"

definition CpuStats_subtract :: "sysenv \<Rightarrow> CpuStats \<Rightarrow> CpuStats \<Rightarrow> CpuStats res" where
  "CpuStats_subtract E c other =
     (let user = cp_userTimeMicrosec c - cp_userTimeMicrosec other;
          system = cp_systemTimeMicrosec c - cp_systemTimeMicrosec other;
          wall = cp_wallTimeMicrosec c - cp_wallTimeMicrosec other;
          totalCpuTime = fl E (real (unat (user + system)))
      in if wall = 0 then Inl (UndefinedBehaviour ''float to int32_t'')
         else rbind (float_to_int32 (fl E (fl E (totalCpuTime * 100) / fl E (real (unat wall))))) (\<lambda>util.
              Inr \<lparr>cp_userTimeMicrosec = user, cp_systemTimeMicrosec = system, cp_wallTimeMicrosec = wall, cp_cpuUtil = util,
                cp_voluntaryCtxSwitch = cp_voluntaryCtxSwitch c - cp_voluntaryCtxSwitch other,
                cp_involuntaryCtxSwitch = cp_involuntaryCtxSwitch c - cp_involuntaryCtxSwitch other\<rparr>))"

definition userTimeSec :: "CpuStats \<Rightarrow> 64 word" where
  "userTimeSec c = cp_userTimeMicrosec c div 1000000"

definition systemTimeSec :: "CpuStats \<Rightarrow> 64 word" where
  "systemTimeSec c = cp_systemTimeMicrosec c div 1000000"

section \<open>The utilisation\<close>

text \<open>
  For a later reading of a process on \<open>n\<close> CPUs (its CPU time grew by at most \<open>n\<close> times the wall time)
  and exact arithmetic the utilisation is the percentage rounded down, at most \<open>100 n\<close>; zero is
  possible.
\<close>

lemma utilisation_le:
  assumes "cpu \<le> n * w" "0 < w" "100 * n < 2147483648"
  shows "float_to_int32 (real cpu * 100 / real w) = Inr \<lfloor>real cpu * 100 / real w\<rfloor> \<and>
    0 \<le> \<lfloor>real cpu * 100 / real w\<rfloor> \<and> \<lfloor>real cpu * 100 / real w\<rfloor> \<le> 100 * int n"
proof -
  let ?x = "real cpu * 100 / real w"
  have "real cpu \<le> real n * real w" using assms(1) by (metis of_nat_le_iff of_nat_mult)
  then have "?x \<le> 100 * real n" using assms(2) by (simp add: divide_le_eq mult_ac)
  then have f: "\<lfloor>?x\<rfloor> \<le> 100 * int n" by linarith
  moreover have pos: "0 \<le> ?x" by simp
  moreover have "0 \<le> \<lfloor>?x\<rfloor>" using pos by simp
  moreover have "\<lfloor>?x\<rfloor> < 2147483648" using f assms(3) by linarith
  moreover have "\<not> ?x < 0" using pos by (simp only: not_less)
  ultimately show ?thesis unfolding float_to_int32_def Let_def by (simp del: zero_le_floor divide_less_0_iff)
qed

lemma CpuStats_subtract_util:
  assumes "exact_fl E" "cp_wallTimeMicrosec other < cp_wallTimeMicrosec c"
    and le: "unat (cp_userTimeMicrosec c - cp_userTimeMicrosec other + (cp_systemTimeMicrosec c - cp_systemTimeMicrosec other))
      \<le> n * unat (cp_wallTimeMicrosec c - cp_wallTimeMicrosec other)" and n: "100 * n < 2147483648"
  shows "\<exists>d. CpuStats_subtract E c other = Inr d \<and> 0 \<le> cp_cpuUtil d \<and> cp_cpuUtil d \<le> 100 * int n"
proof -
  have w: "cp_wallTimeMicrosec c - cp_wallTimeMicrosec other \<noteq> 0" using assms(2) by auto
  then have "0 < unat (cp_wallTimeMicrosec c - cp_wallTimeMicrosec other)" by (simp add: unat_gt_0)
  from utilisation_le [OF le this n] w assms(1) show ?thesis
    by (simp add: CpuStats_subtract_def Let_def exact_fl_def)
qed

lemma CpuStats_subtract_same_time:
  "cp_wallTimeMicrosec c = cp_wallTimeMicrosec other \<Longrightarrow>
    CpuStats_subtract E c other = Inl (UndefinedBehaviour ''float to int32_t'')"
  by (simp add: CpuStats_subtract_def)

end
