(* ===== verification/Stats_Text.thy ===== *)
theory Stats_Text
  imports Json_Text IO_Exec_File Gobjfs_Client Cpu_Stats
begin

text \<open>
  The texts of the statistics: \<open>operator<<\<close> of the counters and histograms, \<open>getState\<close> and \<open>print\<close> of the
  executor, \<open>ToString\<close> of the CPU times and of the client, \<open>GetStats\<close> of the memory pools. How a stream
  prints a \<open>float\<close> is an argument: \<open>fmt (Some x)\<close> for the number \<open>x\<close>, \<open>fmt None\<close> for a result that is
  not a number. How it prints a pointer is an argument too.
\<close>

type_synonym float_format = "real option \<Rightarrow> string"

abbreviation dec_word :: "'a::len word \<Rightarrow> string" where
  "dec_word w \<equiv> dec (unat w)"

abbreviation newline :: string where
  "newline \<equiv> [CHR 0x0A]"

section \<open>Counters and histograms\<close>

text \<open>
  The standard deviation as it is printed: with one sample the variance divides by zero, and a negative
  variance has no root.
\<close>

definition stdDeviation_value :: "sysenv \<Rightarrow> StatsCounter \<Rightarrow> real option" where
  "stdDeviation_value E c = (if sc_numSamples c = 1 \<or> sc_variance E c < 0 then None else Some (sc_stdDeviation E c))"

definition StatsCounter_text :: "sysenv \<Rightarrow> float_format \<Rightarrow> StatsCounter \<Rightarrow> string" where
  "StatsCounter_text E fmt c =
     (if sc_numSamples c = 0
      then object_text [(''min'', ''0''), (''avg'', ''0''), (''stddev'', ''0''), (''max'', ''0''), (''numSamples'', ''0'')]
      else object_text [(''min'', dec_int (sc_min c)), (''avg'', fmt (Some (sc_mean c))), (''stddev'', fmt (stdDeviation_value E c)),
        (''max'', dec_int (sc_max c)), (''numSamples'', dec_word (sc_numSamples c))])"

definition Histogram_text :: "Histogram \<Rightarrow> string" where
  "Histogram_text h = object_text [(''numSamples'', dec_word (h_numSamples h)),
     (''histogram'', array_text (map dec (map unat (h_buckets h))))]"

definition MaxValue_text :: "32 word \<Rightarrow> string" where
  "MaxValue_text mx = dec_word mx"

definition MinValue_text :: "32 word \<Rightarrow> string" where
  "MinValue_text mn = dec_word mn"

section \<open>The executor\<close>

definition OpStats_getState :: "sysenv \<Rightarrow> float_format \<Rightarrow> OpStats \<Rightarrow> string" where
  "OpStats_getState E fmt s = CHR '' '' # object_text [(''numOps'', dec_word (op_numOps s)), (''numBytes'', dec_word (op_numBytes s)),
     (''waitTime'', StatsCounter_text E fmt (op_waitTime s)), (''waitHist'', Histogram_text (op_waitHist s)),
     (''serviceTime'', StatsCounter_text E fmt (op_serviceTime s)), (''serviceHist'', Histogram_text (op_serviceHist s))]"

definition Statistics_getState :: "sysenv \<Rightarrow> float_format \<Rightarrow> Statistics \<Rightarrow> string" where
  "Statistics_getState E fmt s = object_text [(''stats'', object_text [
     (''write'', OpStats_getState E fmt (ss_write s)), (''nonAlignedWrite'', OpStats_getState E fmt (ss_nonAlignedWrite s)),
     (''read'', OpStats_getState E fmt (ss_read s)), (''delete'', OpStats_getState E fmt (ss_delete s)),
     (''numQueued'', dec_word (ss_numQueued s)), (''numSubmitted'', dec_word (ss_numSubmitted s)),
     (''numCompleted'', dec_word (ss_numCompleted s)), (''maxRequestQueueSize'', MaxValue_text (ss_maxRequestQueueSize s)),
     (''maxFdQueueSize'', MaxValue_text (ss_maxFdQueueSize s)), (''idleLoop'', dec_word (ss_idleLoop s)),
     (''numProcessedInLoop'', StatsCounter_text E fmt (ss_numProcessedInLoop s)),
     (''numCompletionEvents'', dec_word (ss_numCompletionEvents s)), (''requestQueueLow1'', dec_word (ss_requestQueueLow1 s)),
     (''requestQueueLow2'', dec_word (ss_requestQueueLow2 s)), (''requestQueueFull'', dec_word (ss_requestQueueFull s))])]"

definition FilerCtx_getState :: "FilerCtx \<Rightarrow> string" where
  "FilerCtx_getState c = CHR '' '' # member_text (''ctx'',
     object_text [(''numAvail'', dec_int (cx_numAvailable c)), (''queueDepth'', dec_int (cx_ioQueueDepth c))])"

definition IOExecutor_getState :: "sysenv \<Rightarrow> float_format \<Rightarrow> int \<Rightarrow> iox \<Rightarrow> string" where
  "IOExecutor_getState E fmt core s =
     CHR ''{'' # commas [member_text (''core'', dec_int core), member_text (''fdqueueSize'', dec_int (ix_fdQueueSize s)),
       member_text (''requestQueue'', dec_int (ix_requestQueueSize s)), FilerCtx_getState (ix_ctx s),
       Statistics_getState E fmt (ix_stats s)] @ ''}'' @ newline"

definition Config_print :: "Config \<Rightarrow> string" where
  "Config_print c = CHR '' '' # commas [member_text (''queueDepth'', dec_word (cf_queueDepth c)),
     member_text (''maxRequestQueueSize'', dec_word (cf_maxRequestQueueSize c)),
     member_text (''maxFdQueueSize'', dec_word (cf_maxFdQueueSize c)), member_text (''minSubmitSize'', dec_word (cf_minSubmitSize c)),
     member_text (''noSubmitterThread'', dec (if cf_noSubmitterThread c then 1 else 0))]"

definition CpuStats_ToString :: "CpuStats \<Rightarrow> string" where
  "CpuStats_ToString c = object_text [(''user_time(us)'', dec_word (cp_userTimeMicrosec c)),
     (''system_time(us)'', dec_word (cp_systemTimeMicrosec c)), (''wall_time(us)'', dec_word (cp_wallTimeMicrosec c)),
     (''vol ctx switch'', dec_int (cp_voluntaryCtxSwitch c)), (''invol ctx switch'', dec_int (cp_involuntaryCtxSwitch c))]"

text \<open>The lines \<open>print\<close> logs; the times of the fd thread are an argument the source does not use.\<close>

definition Statistics_print :: "sysenv \<Rightarrow> float_format \<Rightarrow> CpuStats \<Rightarrow> CpuStats \<Rightarrow> CpuStats \<Rightarrow> Statistics \<Rightarrow> string list" where
  "Statistics_print E fmt completionThread submitterThread fdQueueThread s =
     [member_text (''completionThread'', CpuStats_ToString completionThread),
      member_text (''submitterThread'', CpuStats_ToString submitterThread),
      member_text (''fdQueueThread'', CpuStats_ToString submitterThread),
      Statistics_getState E fmt s] @
     (if ss_numSubmitted s \<noteq> ss_numQueued s \<or> ss_numSubmitted s \<noteq> ss_numCompleted s
      then [''NOTE discrepancy in IOExecutor stats between numQueued, numSubmitted and numCompleted''] else [])"

section \<open>The file service, the memory pools and the client\<close>

definition getFileTranslatorStats :: "sysenv \<Rightarrow> float_format \<Rightarrow> IOExecService \<Rightarrow> string" where
  "getFileTranslatorStats E fmt sv = '' fileTranslatorStats='' @ StatsCounter_text E fmt (sv_fileTranslatorStats sv) @
     '',fileTranslatorHist='' @ Histogram_text (sv_fileTranslatorHist sv) @ newline"

text \<open>\<open>IOExecGetStats\<close> on the texts of the service; \<open>cores\<close> are the cores of the executors.\<close>

definition service_getStats :: "sysenv \<Rightarrow> float_format \<Rightarrow> int list \<Rightarrow> IOExecService \<Rightarrow> int \<Rightarrow> int \<times> string" where
  "service_getStats E fmt cores sv len =
     IOExecGetStats (getFileTranslatorStats E fmt sv) (map2 (IOExecutor_getState E fmt) cores (sv_ioexecVec sv)) len"

definition AlignedMempool_GetStats :: "string \<Rightarrow> AlignedMempool \<Rightarrow> string" where
  "AlignedMempool_GetStats this p = ''for alignedmempool thisptr='' @ this @
     '':bytes alloc='' @ dec_word (mp_bytesAllocated (am_stats p)) @ '':num alloc='' @ dec_word (mp_numAllocCalls (am_stats p)) @
     '':num failed='' @ dec_word (mp_numFailedAllocCalls (am_stats p)) @ '':num free='' @ dec_word (mp_numFreeCalls (am_stats p)) @ newline"

definition ObjectMempool_GetStats :: "string \<Rightarrow> ObjectMempool \<Rightarrow> string" where
  "ObjectMempool_GetStats this p = ''for objmempool thisptr='' @ this @
     '':bytes alloc='' @ dec_word (mp_bytesAllocated (om_stats p)) @ '':num alloc='' @ dec_word (mp_numAllocCalls (om_stats p)) @
     '':num reused='' @ dec_word (mp_numReused (om_stats p)) @ '':num free='' @ dec_word (mp_numFreeCalls (om_stats p)) @ newline"

definition statistics_ToString :: "sysenv \<Rightarrow> float_format \<Rightarrow> NetworkXioClient \<Rightarrow> string" where
  "statistics_ToString E fmt nc = '' num_queued='' @ dec_word (nc_num_queued nc) @ '',num_failed='' @ dec_word (nc_num_failed nc) @
     '',num_completed(incl. failed)='' @ dec_word (nc_num_completed nc) @ '',rtt_hist='' @ Histogram_text (nc_rtt_hist nc) @
     '',rtt_stats='' @ StatsCounter_text E fmt (nc_rtt_stats nc)"

text \<open>\<open>ctx_get_stats\<close>: \<open>this\<close> is the text of the pointer to the context, \<open>null\<close> that of a null pointer.\<close>

definition ctx_get_stats :: "sysenv \<Rightarrow> float_format \<Rightarrow> string \<Rightarrow> string \<Rightarrow> client_ctx option \<Rightarrow> cworld \<Rightarrow> string" where
  "ctx_get_stats E fmt this null ctx w =
     (case ctx of
        Some c \<Rightarrow>
          if cc_net_client c then statistics_ToString E fmt (cw_nc w)
          else ''invalid ctx or client connection '' @ ''ctx='' @ this @ '' netclient='' @ null
      | None \<Rightarrow> ''invalid ctx or client connection '' @ ''ctx='' @ null)"

section \<open>Which texts are JSON\<close>

text \<open>The documented behaviour of a stream: numbers are printed as numbers, other results are not.\<close>

definition fmt_ok :: "float_format \<Rightarrow> bool" where
  "fmt_ok fmt \<longleftrightarrow> (\<forall>x. json_value (fmt (Some x))) \<and> json_bad (fmt None)"

definition has_number :: "sysenv \<Rightarrow> StatsCounter \<Rightarrow> bool" where
  "has_number E c \<longleftrightarrow> sc_numSamples c = 0 \<or> stdDeviation_value E c \<noteq> None"

lemma json_value_zero [simp]: "json_value ''0''"
  using json_value_dec [of 0] by (simp add: dec.simps digit_def)

lemma decided_fmt: "fmt_ok fmt \<Longrightarrow> decided (fmt x)"
  by (cases x) (auto simp: fmt_ok_def decided_def)

lemma json_value_fmt: "fmt_ok fmt \<Longrightarrow> json_value (fmt x) \<longleftrightarrow> x \<noteq> None"
  by (cases x) (auto simp: fmt_ok_def dest: json_value_not_bad)

lemma StatsCounter_text_json:
  assumes "fmt_ok fmt"
  shows "json_value (StatsCounter_text E fmt c) \<longleftrightarrow> has_number E c" "decided (StatsCounter_text E fmt c)"
  using object_text_value [of "[(''min'', dec_int (sc_min c)), (''avg'', fmt (Some (sc_mean c))), (''stddev'', fmt (stdDeviation_value E c)),
      (''max'', dec_int (sc_max c)), (''numSamples'', dec_word (sc_numSamples c))]"]
    object_text_value [of "[(''min'', ''0''), (''avg'', ''0''), (''stddev'', ''0''), (''max'', ''0''), (''numSamples'', ''0'')]"]
  by (simp_all add: StatsCounter_text_def plain_def decided_fmt [OF assms] json_value_fmt [OF assms] has_number_def)

lemma Histogram_text_json: "json_value (Histogram_text h)"
  unfolding Histogram_text_def by (subst object_text_value(1)) (simp_all add: plain_def del: map_map)

definition op_counters :: "OpStats \<Rightarrow> StatsCounter list" where
  "op_counters s = [op_waitTime s, op_serviceTime s]"

lemma OpStats_getState_json:
  assumes "fmt_ok fmt"
  shows "json_value (OpStats_getState E fmt s) \<longleftrightarrow> (\<forall>c\<in>set (op_counters s). has_number E c)" "decided (OpStats_getState E fmt s)"
  using object_text_value [of "[(''numOps'', dec_word (op_numOps s)), (''numBytes'', dec_word (op_numBytes s)),
     (''waitTime'', StatsCounter_text E fmt (op_waitTime s)), (''waitHist'', Histogram_text (op_waitHist s)),
     (''serviceTime'', StatsCounter_text E fmt (op_serviceTime s)), (''serviceHist'', Histogram_text (op_serviceHist s))]"]
  by (simp_all add: OpStats_getState_def plain_def StatsCounter_text_json [OF assms] Histogram_text_json op_counters_def)

definition counters :: "Statistics \<Rightarrow> StatsCounter list" where
  "counters s = op_counters (ss_write s) @ op_counters (ss_nonAlignedWrite s) @ op_counters (ss_read s) @
     op_counters (ss_delete s) @ [ss_numProcessedInLoop s]"

lemma Statistics_getState_ok:
  assumes "fmt_ok fmt"
  shows "json_ok (Statistics_getState E fmt s) \<longleftrightarrow> (\<forall>c\<in>set (counters s). has_number E c)"
  unfolding Statistics_getState_def
  by (simp add: object_text_ok object_text_value plain_def OpStats_getState_json [OF assms] StatsCounter_text_json [OF assms]
      MaxValue_text_def counters_def ball_Un conj_ac)

lemma CpuStats_ToString_ok: "json_ok (CpuStats_ToString c)"
  unfolding CpuStats_ToString_def by (subst object_text_ok) (simp_all add: plain_def)

text \<open>The text of an executor: after the member \<open>ctx\<close> a member has to follow, but the statistics are an object.\<close>

lemma IOExecutor_getState_bad: "\<not> json_ok (IOExecutor_getState E fmt core s)"
proof -
  have m: "jstep (jrun (JKey b, [True]) (member_text (k, v))) CHR '','' = (JKey False, [True])"
    if "list_all plain k" "json_value v" for b k v
    using that by (simp add: jrun_member json_valueD)
  have sp: "jstep (JKey False, [True]) CHR '' '' = (JKey False, [True])" by (simp add: jstep_def is_space_def)
  have o: "jstep (JValue, []) CHR ''{'' = (JKey True, [True])" by (simp add: jstep_def is_space_def jvalue_def)
  have b: "jstep (JKey False, [True]) CHR ''{'' = (JBad, [True])" by (simp add: jstep_def is_space_def)
  have c: "jstep (jrun (JKey False, [True]) (FilerCtx_getState (ix_ctx s))) CHR '','' = (JKey False, [True])"
    unfolding FilerCtx_getState_def by (simp add: sp) (rule m, simp add: plain_def, subst object_text_value(1), simp_all add: plain_def)
  have "fst (jrun (JValue, []) (IOExecutor_getState E fmt core s)) = JBad"
    by (simp add: IOExecutor_getState_def o m c plain_def) (simp add: Statistics_getState_def object_text_def b)
  then show ?thesis by (auto simp: json_ok_def split: prod.splits)
qed

text \<open>
  C30. The statistics are JSON only when every standard deviation is a number. The text of
  \<open>Statistics::getState\<close> is JSON exactly when none of its nine counters has a sample without a standard
  deviation; one whose counter has exactly one sample is not, since \<open>variance\<close> then divides by
  \<open>numSamples_ - 1 = 0\<close>. The text of \<open>IOExecutor::getState\<close>, which puts that object without a name into
  another, is never JSON, whatever the state.
\<close>

theorem statistics_json:
  assumes "fmt_ok fmt"
  shows "(json_ok (Statistics_getState E fmt s) \<longleftrightarrow> (\<forall>c\<in>set (counters s). has_number E c)) \<and>
    ((\<exists>c\<in>set (counters s). sc_numSamples c = 1) \<longrightarrow> \<not> json_ok (Statistics_getState E fmt s)) \<and>
    \<not> json_ok (IOExecutor_getState E fmt core x)"
proof -
  have "\<not> has_number E c" if "sc_numSamples c = 1" for c using that by (simp add: has_number_def stdDeviation_value_def)
  then show ?thesis using Statistics_getState_ok [OF assms] IOExecutor_getState_bad by blast
qed

text \<open>A format with the property: every number as one digit.\<close>

definition demo_format :: float_format where
  "demo_format x = (case x of None \<Rightarrow> ''-nan'' | Some _ \<Rightarrow> ''0'')"

lemma demo_format_ok: "fmt_ok demo_format"
proof -
  have "jstep (JValue, st) CHR ''-'' = (JNum NMinus, st)" "jstep (JNum NMinus, st) CHR ''n'' = (JBad, st)" for st
    by (simp_all add: jstep_def is_space_def jvalue_def jnum_def is_digit_def complete_def)
  then show ?thesis by (simp add: fmt_ok_def demo_format_def json_bad_def)
qed

theorem statistics_json_witness:
  "json_ok (Statistics_getState tick_env demo_format Statistics_init) \<and>
   \<not> json_ok (Statistics_getState tick_env demo_format (Statistics_init\<lparr>ss_numProcessedInLoop := StatsCounter_init\<lparr>sc_numSamples := 1\<rparr>\<rparr>))"
proof
  have "\<forall>c\<in>set (counters Statistics_init). has_number tick_env c"
    by (simp add: counters_def op_counters_def Statistics_init_def OpStats_init_def has_number_def StatsCounter_init_def)
  then show "json_ok (Statistics_getState tick_env demo_format Statistics_init)" using statistics_json [OF demo_format_ok] by blast
  have "StatsCounter_init\<lparr>sc_numSamples := 1\<rparr> \<in> set (counters (Statistics_init\<lparr>ss_numProcessedInLoop := StatsCounter_init\<lparr>sc_numSamples := 1\<rparr>\<rparr>))"
    by (simp add: counters_def)
  moreover have "sc_numSamples (StatsCounter_init\<lparr>sc_numSamples := 1\<rparr>) = 1" by simp
  ultimately show "\<not> json_ok (Statistics_getState tick_env demo_format (Statistics_init\<lparr>ss_numProcessedInLoop := StatsCounter_init\<lparr>sc_numSamples := 1\<rparr>\<rparr>))"
    using statistics_json [OF demo_format_ok] by blast
qed

section \<open>The texts of the other components\<close>

text \<open>\<open>print\<close> shows the times of the submitter thread twice, whatever those of the fd thread are.\<close>

lemma Statistics_print_fd_thread: "Statistics_print E fmt c s f x = Statistics_print E fmt c s f' x"
  by (simp add: Statistics_print_def)

text \<open>A number in a text can be read back.\<close>

lemma queued_text:
  "\<exists>rest. statistics_ToString E fmt nc = '' num_queued='' @ dec_word (nc_num_queued nc) @ '','' @ rest \<and>
    undec (dec_word (nc_num_queued nc)) = unat (nc_num_queued nc)"
  by (simp add: statistics_ToString_def undec_dec)

end
