(* ===== verification/Event_Poller.thy ===== *)
theory Event_Poller
  imports Gobjfs_Prelude
begin

text \<open>
  The event loop of \<open>src/util/EPoller.h\<close>: events with their handlers, the loop that threads run, and
  the shutdown. The answers of the kernel are arguments; a handler is a name that the model records
  when it is called.
\<close>

section \<open>State\<close>

record EPollCtx =
  ec_handler :: nat
  ec_userData :: "64 word"
  ec_fd :: int
  ec_magic :: int

record EPoller =
  ep_fd :: int
  ep_shutdownPtr :: bool
  ep_mustExit :: bool
  ep_numThreads :: "32 word"
  ep_eventList :: "(nat \<times> EPollCtx) list"
  ep_called :: "(nat \<times> int \<times> 64 word) list"
  ep_closed :: "int list"

definition EPoller_new :: EPoller where
  "EPoller_new = \<lparr>ep_fd = -1, ep_shutdownPtr = False, ep_mustExit = False, ep_numThreads = 0, ep_eventList = [], ep_called = [],
     ep_closed = []\<rparr>"

text \<open>The constant does not fit an \<open>int\<close>; the conversion wraps.\<close>

definition MAGIC :: int where
  "MAGIC = 0xDEAFBABE - 2 ^ 32"

section \<open>Events\<close>

text \<open>\<open>ctl_err\<close> is the errno of \<open>epoll_ctl\<close>, zero on success; \<open>p\<close> the address of the new context.\<close>

definition addEvent :: "int \<Rightarrow> nat \<Rightarrow> 64 word \<Rightarrow> int \<Rightarrow> nat \<Rightarrow> EPoller \<Rightarrow> int \<times> EPoller" where
  "addEvent ctl_err p userData eventFD handler e =
     (if eventFD < 0 then (- EINVAL, e)
      else if ctl_err \<noteq> 0 then (- ctl_err, e)
      else (0, e\<lparr>ep_eventList := list_push (p, \<lparr>ec_handler = handler, ec_userData = userData, ec_fd = eventFD, ec_magic = MAGIC\<rparr>)
              (ep_eventList e)\<rparr>))"

fun erase_event :: "64 word \<Rightarrow> int \<Rightarrow> (nat \<times> EPollCtx) list \<Rightarrow> bool \<times> (nat \<times> EPollCtx) list" where
  "erase_event userData eventFD [] = (False, [])"
| "erase_event userData eventFD (c # cs) =
     (if ec_userData (snd c) = userData \<and> ec_fd (snd c) = eventFD then (True, cs)
      else let (found, rest) = erase_event userData eventFD cs in (found, c # rest))"

definition dropEvent :: "int \<Rightarrow> 64 word \<Rightarrow> int \<Rightarrow> EPoller \<Rightarrow> int \<times> EPoller" where
  "dropEvent ctl_err userData eventFD e =
     (let (found, rest) = erase_event userData eventFD (ep_eventList e)
      in (if \<not> found then - ENOENT else - ctl_err, e\<lparr>ep_eventList := rest\<rparr>))"

text \<open>The key of an event is the address of its context.\<close>

definition processEvent :: "nat \<Rightarrow> EPoller \<Rightarrow> (int \<times> EPoller) res" where
  "processEvent key e =
     (case map_of (ep_eventList e) key of
        None \<Rightarrow> Inl (UseAfterFree key)
      | Some c \<Rightarrow>
          if ec_magic c \<noteq> MAGIC then Inr (- ENOENT, e)
          else Inr (0, e\<lparr>ep_called := ep_called e @ [(ec_handler c, ec_fd c, ec_userData c)]\<rparr>))"

section \<open>Life\<close>

text \<open>
  \<open>init\<close>: the results of \<open>epoll_create1\<close> (a descriptor or a negative number), of creating the eventfd
  (a descriptor or a negative number), and of adding it. The failing \<open>close\<close> of the first branch
  overwrites \<open>errno\<close>.
\<close>

definition EPoller_init :: "int \<Rightarrow> int \<Rightarrow> int \<Rightarrow> nat \<Rightarrow> EPoller \<Rightarrow> int \<times> EPoller" where
  "EPoller_init epfd evfd ctl_err p e =
     (if epfd < 0 then (- EBADF, e\<lparr>ep_fd := -1\<rparr>)
      else let e1 = e\<lparr>ep_fd := epfd\<rparr> in
        if evfd < 0 then (-1, e1\<lparr>ep_fd := -1, ep_closed := ep_closed e @ [epfd]\<rparr>)
        else let e2 = e1\<lparr>ep_shutdownPtr := True\<rparr>;
                 (ret, e3) = addEvent ctl_err p (of_nat p) evfd 0 e2
             in if ret < 0 then (ret, snd (dropEvent EBADF (of_nat p) evfd (e3\<lparr>ep_fd := -1, ep_closed := ep_closed e @ [epfd]\<rparr>)))
                else (0, e3))"

text \<open>
  One pass of the loop of \<open>run\<close> after \<open>epoll_wait\<close> has returned: an error (\<open>None\<close>) or the keys of the
  ready events. The loops still to do are counted down only when there was no error.
\<close>

fun process_events :: "nat list \<Rightarrow> EPoller \<Rightarrow> EPoller res" where
  "process_events [] e = Inr e"
| "process_events (k # ks) e = rbind (processEvent k e) (\<lambda>(_, e1). process_events ks e1)"

text \<open>
  The loop on the successive results of \<open>epoll_wait\<close>; with each comes whether another thread has set
  \<open>mustExit_\<close> by then. When the results run out the thread waits in \<open>epoll_wait\<close>.
\<close>

fun run_loop :: "(bool \<times> nat list option) list \<Rightarrow> int \<Rightarrow> EPoller \<Rightarrow> EPoller res" where
  "run_loop [] numLoops e =
     (if ep_mustExit e \<or> numLoops = 0 then Inr e else Inl (Blocked ''epoll_wait''))"
| "run_loop ((ex, out) # outs) numLoops e =
     (if ep_mustExit e \<or> numLoops = 0 then Inr e
      else let e1 = (if ex then e\<lparr>ep_mustExit := True\<rparr> else e) in
        case out of
          None \<Rightarrow> run_loop outs numLoops e1
        | Some keys \<Rightarrow> rbind (process_events keys e1) (\<lambda>e2.
            run_loop outs (if numLoops > 0 then numLoops - 1 else numLoops) e2))"

text \<open>The wakeup of \<open>shutdown\<close> before the thread leaves is in the model of their race below.\<close>

definition EPoller_run :: "(bool \<times> nat list option) list \<Rightarrow> int \<Rightarrow> EPoller \<Rightarrow> (int \<times> EPoller) res" where
  "EPoller_run outs numLoops e =
     (if ep_mustExit e then Inr (0, e)
      else rbind (run_loop outs numLoops (e\<lparr>ep_numThreads := ep_numThreads e + 1\<rparr>)) (\<lambda>e1.
           Inr (0, e1\<lparr>ep_numThreads := ep_numThreads e1 - 1\<rparr>)))"

definition addToAnotherEPoller :: "int \<Rightarrow> nat \<Rightarrow> 64 word \<Rightarrow> nat \<Rightarrow> EPoller \<Rightarrow> EPoller \<Rightarrow> int \<times> EPoller" where
  "addToAnotherEPoller ctl_err p this handler e other = addEvent ctl_err p this (ep_fd e) handler other"

text \<open>\<open>eventHandler\<close> ends without a return statement.\<close>

definition eventHandler :: "64 word \<Rightarrow> (bool \<times> nat list option) list \<Rightarrow> int \<Rightarrow> 64 word \<Rightarrow> EPoller \<Rightarrow> (int \<times> EPoller) res" where
  "eventHandler this outs fd userData e =
     rbind (rassert ''fd == fd_'' (fd = ep_fd e)) (\<lambda>_.
     rbind (rassert ''userData == this'' (userData = this)) (\<lambda>_.
     rbind (EPoller_run outs 1 e) (\<lambda>_. Inl (UndefinedBehaviour ''no return value''))))"

text \<open>
  \<open>shutdown\<close>: \<open>quiesce\<close> is what the threads do while it waits; it goes on only when none is left.
\<close>

definition EPoller_shutdown :: "(EPoller \<Rightarrow> EPoller) \<Rightarrow> EPoller \<Rightarrow> (int \<times> EPoller) res" where
  "EPoller_shutdown quiesce e =
     (if \<not> ep_shutdownPtr e then Inr (0, e)
      else let e1 = e\<lparr>ep_mustExit := True\<rparr>; e2 = (if ep_numThreads e1 = 0 then e1 else quiesce e1) in
        if ep_numThreads e2 \<noteq> 0 then Inl (Blocked ''shutdown of the epoller'') else Inr (0, e2\<lparr>ep_shutdownPtr := False\<rparr>))"

definition EPoller_destroy :: "(EPoller \<Rightarrow> EPoller) \<Rightarrow> EPoller \<Rightarrow> EPoller res" where
  "EPoller_destroy quiesce e =
     rbind (EPoller_shutdown quiesce e) (\<lambda>(_, e1).
     let e2 = e1\<lparr>ep_eventList := []\<rparr> in
     Inr (if ep_fd e2 \<noteq> -1 then e2\<lparr>ep_closed := ep_closed e2 @ [ep_fd e2], ep_fd := -1\<rparr> else e2))"

section \<open>Events are kept by address\<close>

text \<open>
  Adding an event and dropping it again leaves the list as it was, provided that no earlier entry has
  the same data and descriptor; while it is there, its handler is called with its descriptor and data.
\<close>

lemma erase_event_added:
  "\<forall>c \<in> set cs. \<not> (ec_userData (snd c) = u \<and> ec_fd (snd c) = d) \<Longrightarrow> ec_userData (snd x) = u \<Longrightarrow> ec_fd (snd x) = d \<Longrightarrow>
    erase_event u d (cs @ [x]) = (True, cs)"
  by (induction cs) auto

lemma add_then_drop:
  assumes "\<forall>c \<in> set (ep_eventList e). \<not> (ec_userData (snd c) = u \<and> ec_fd (snd c) = d)" "0 \<le> d"
  shows "dropEvent 0 u d (snd (addEvent 0 p u d h e)) = (0, e)"
  using assms erase_event_added [OF assms(1)] by (simp add: addEvent_def dropEvent_def list_push_def)

lemma added_event_handled:
  assumes "p \<notin> fst ` set (ep_eventList e)" "0 \<le> d"
  shows "processEvent p (snd (addEvent 0 p u d h e)) =
    Inr (0, (snd (addEvent 0 p u d h e))\<lparr>ep_called := ep_called e @ [(h, d, u)]\<rparr>)"
proof -
  have "map_of (ep_eventList e) p = None" using assms(1) by (simp add: map_of_eq_None_iff)
  then show ?thesis using assms(2) by (simp add: addEvent_def processEvent_def list_push_def map_add_def)
qed

text \<open>
  A ready event whose context was dropped meanwhile is read after it was freed.
\<close>

lemma dropped_event_faults:
  assumes "p \<notin> fst ` set (ep_eventList e)" "0 \<le> d"
    and "\<forall>c \<in> set (ep_eventList e). \<not> (ec_userData (snd c) = u \<and> ec_fd (snd c) = d)"
  shows "processEvent p (snd (dropEvent 0 u d (snd (addEvent 0 p u d h e)))) = Inl (UseAfterFree p)"
  using assms(1) add_then_drop [OF assms(3,2)] map_of_eq_None_iff [of "ep_eventList e" p] by (simp add: processEvent_def)

section \<open>The race of shutdown with a leaving thread\<close>

text \<open>
  The loop of \<open>shutdown\<close> and the end of \<open>run\<close> in one other thread, one shared access at a time. The
  thread wakes a waiter before it decrements the number of threads.
\<close>

datatype shutdown_pc = AtTest | BeforePause | Paused | Finished

datatype run_pc = InRun | Notified | Gone

record shutdown_race =
  sh_shutdown :: shutdown_pc
  sh_run :: run_pc
  sh_numThreads :: "32 word"

inductive shutdown_race_step :: "shutdown_race \<Rightarrow> shutdown_race \<Rightarrow> bool" where
  sh_exit: "sh_shutdown s = AtTest \<Longrightarrow> sh_numThreads s = 0 \<Longrightarrow> shutdown_race_step s (s\<lparr>sh_shutdown := Finished\<rparr>)"
| sh_write: "sh_shutdown s = AtTest \<Longrightarrow> sh_numThreads s \<noteq> 0 \<Longrightarrow> shutdown_race_step s (s\<lparr>sh_shutdown := BeforePause\<rparr>)"
| sh_pause: "sh_shutdown s = BeforePause \<Longrightarrow> shutdown_race_step s (s\<lparr>sh_shutdown := Paused\<rparr>)"
| sh_wakeup: "sh_run s = InRun \<Longrightarrow>
    shutdown_race_step s (s\<lparr>sh_run := Notified, sh_shutdown := (if sh_shutdown s = Paused then AtTest else sh_shutdown s)\<rparr>)"
| sh_leave: "sh_run s = Notified \<Longrightarrow> shutdown_race_step s (s\<lparr>sh_run := Gone, sh_numThreads := sh_numThreads s - 1\<rparr>)"

inductive_cases shutdown_race_stepE: "shutdown_race_step s t"

definition race_start :: "shutdown_race \<Rightarrow> bool" where
  "race_start s \<longleftrightarrow> s = \<lparr>sh_shutdown = AtTest, sh_run = InRun, sh_numThreads = 1\<rparr>"

text \<open>The pause has no timeout: \<open>shutdown\<close> can be left waiting with no thread to wake it.\<close>

lemma shutdown_lost_wakeup:
  "\<exists>s. reach race_start shutdown_race_step s \<and> sh_shutdown s = Paused \<and> sh_numThreads s = 0 \<and>
     (\<forall>t. \<not> shutdown_race_step s t)"
proof -
  let ?s = "\<lambda>sd r n. \<lparr>sh_shutdown = sd, sh_run = r, sh_numThreads = n\<rparr>"
  have a: "reach race_start shutdown_race_step (?s AtTest InRun 1)" by (rule reach_init) (simp add: race_start_def)
  have "shutdown_race_step (?s AtTest InRun 1) (?s BeforePause InRun 1)" using sh_write [of "?s AtTest InRun 1"] by simp
  from reach_step [OF a this] have b: "reach race_start shutdown_race_step (?s BeforePause InRun 1)" .
  have "shutdown_race_step (?s BeforePause InRun 1) (?s BeforePause Notified 1)" using sh_wakeup [of "?s BeforePause InRun 1"] by simp
  from reach_step [OF b this] have c: "reach race_start shutdown_race_step (?s BeforePause Notified 1)" .
  have "shutdown_race_step (?s BeforePause Notified 1) (?s BeforePause Gone 0)" using sh_leave [of "?s BeforePause Notified 1"] by simp
  from reach_step [OF c this] have d: "reach race_start shutdown_race_step (?s BeforePause Gone 0)" .
  have "shutdown_race_step (?s BeforePause Gone 0) (?s Paused Gone 0)" using sh_pause [of "?s BeforePause Gone 0"] by simp
  from reach_step [OF d this] have "reach race_start shutdown_race_step (?s Paused Gone 0)" .
  moreover have "\<not> shutdown_race_step (?s Paused Gone 0) t" for t by (auto elim: shutdown_race_stepE)
  ultimately show ?thesis by (intro exI [of _ "?s Paused Gone 0"]) simp
qed

end
