(* ===== verification/Spec2Isabelle.thy ===== *)
theory Spec2Isabelle
  imports IO_Executor_Behaviour IO_Exec_File_Props Xio_IOHandler_Props Xio_Server_Life Remote_Read Gobjfs_Client_Props
    Xio_Server_Progress Xio_Client_Progress Server_Read Data_Path Xio_Message_Types Locks Stats_Text Event_Poller Cpu_Stats
begin

text \<open>
  gobjfs serves reads, writes and deletes of files by asynchronous direct I/O, within a process and
  over a network. This development models the library (the code under \<open>src/src\<close> and \<open>src/include\<close>, and the part of the
  vendored msgpack it uses) and proves what its components guarantee, on every branch and under every
  interleaving that the modelled threads can produce.

  \<^bold>\<open>The program and its theories.\<close>

  \<^item> \<open>Gobjfs_Prelude\<close>: outcomes, errno values, the environment, and the interfaces (locales) of a FIFO
    queue, of a transition system with an invariant, of a system that comes to rest, and of a prefix
    codec.
  \<^item> \<open>OS_Utils\<close> (\<open>util/os_utils.h\<close>), \<open>Stats\<close> (\<open>util/Stats.h\<close>), \<open>Sync\<close> (semaphores, notifiers and
    eventfds of \<open>util\<close>), \<open>Locks\<close> (\<open>util/Spinlock.h\<close>, \<open>util/ConditionWrapper.h\<close>), \<open>Event_Poller\<close>
    (\<open>util/EPoller.h\<close>), \<open>Cpu_Stats\<close> (\<open>util/CpuStats.cpp\<close>). \<open>Json_Text\<close> decides whether a text is JSON;
    \<open>Stats_Text\<close> holds the texts that the components print of their statistics and state.
  \<^item> \<open>Filer_Job\<close> (\<open>FilerJob.cpp\<close>, \<open>Timer.h\<close>) is one unit of I/O; \<open>IO_Executor\<close> (\<open>IOExecutor.cpp\<close>) the
    executor: callers submit jobs to a request queue or, for deletes and synchronous writes, to an fd
    queue; submitting threads hand batches to the kernel, a completion thread and an fd thread finish
    jobs and write status records to the pipe of the caller. \<open>IO_Executor_Inv\<close>, \<open>_Queue\<close>, \<open>_Frame\<close>
    and \<open>_Submit\<close> hold its invariant, \<open>IO_Executor_System\<close> the threads as a transition system,
    \<open>IO_Executor_Safety\<close>, \<open>IO_Executor_Behaviour\<close> and \<open>IO_Executor_Progress\<close> its properties; \<open>Data_Path\<close>
    follows a fragment from the batch to the kernel.
  \<^item> \<open>Mempool\<close> (\<open>Mempool.cpp\<close>, \<open>gMempool.cpp\<close>) and \<open>IO_Exec_File\<close> (\<open>gIOExecFile.cpp\<close>, \<open>gparse.cpp\<close>): the
    C interface, with one executor per core and files assigned to executors by a hash of the name;
    properties in \<open>IO_Exec_File_Props\<close>.
  \<^item> \<open>MsgPack\<close> and \<open>Xio_Protocol\<close> (\<open>NetworkXioProtocol.h\<close>): bytes and messages of the network protocol;
    \<open>Xio_Message_Types\<close>: the ranges of what is unpacked.
  \<^item> The server: \<open>Xio_WorkQueue\<close> (the worker threads), \<open>Xio_IOHandler\<close> (a request becomes a batch of
    the file service, its status record a reply), \<open>Xio_Server\<close> (connections, requests, replies),
    \<open>Xio_Server_Life\<close> (start, stop, completion thread, \<open>gobjfs_server.cpp\<close>), \<open>Xio_Server_System\<close> (all
    its threads as a transition system), \<open>Xio_Server_Progress\<close> (the callbacks registered with libxio, the
    whole loops of \<open>run\<close> and of a worker, progress); properties of replies in \<open>Xio_IOHandler_Props\<close>.
  \<^item> The client: \<open>Xio_Client\<close> (\<open>NetworkXioClient.cpp\<close>), \<open>Gobjfs_Client\<close> (\<open>gobjfs_client.cpp\<close>,
    \<open>context.h\<close>), \<open>Xio_Client_System\<close> (callers and event loop as a transition system),
    \<open>Xio_Client_Progress\<close> (callbacks, the thread of the event loop, progress), \<open>Gobjfs_Client_Props\<close>.
  \<^item> \<open>Remote_Read\<close>: a read from the client through the server and back; \<open>Server_Read\<close>: a read request of
    the server on the file service and the executor.

  \<^bold>\<open>How code is represented.\<close> A class is a record of its members, followed where needed by the effects
  it has had (notifications written, descriptors closed, messages sent). Objects that are deleted live
  in heaps, partial maps from addresses; an access to a deleted object is the fault \<open>UseAfterFree\<close>.
  Each function is a definition of the same name (prefixed by its class or by \<open>client_\<close>, \<open>server_\<close>
  where names clash). Its result is a \<open>res\<close>: a fault (a failed assertion, a null or dangling pointer,
  undefined behaviour, waiting for ever, an abort) or a value. An assertion is a fault, so a run
  without fault is a run of the builds with and without assertions. C integers are words where
  they wrap or are unsigned and \<open>int\<close> where the source cannot overflow them; a \<open>float\<close> is a real number
  rounded by \<open>fl\<close> of the environment. The answers of the kernel, of libxio, of boost and of the
  allocators, and the clock, are arguments; \<open>env_ok\<close> assumes that the clock advances from one reading to
  the next and that the logarithm of a latency is one of the twenty buckets of the histogram.

  Threads are transition systems: an action is a stretch of code between two points at which another
  thread can be observed, and the invariants are proved for every interleaving of actions. A call that
  blocks takes what the other threads do meanwhile as an argument. Stretches under a lock are actions
  because the locks exclude: \<open>Locks\<close> proves it for the spin lock. Two stretches are taken as atomic
  although the code holds no lock over them: a worker of the server finishes \<open>process_request\<close> before
  the status record of the read it started is handled (after the read is accepted the worker no longer
  touches the request, as the comment in \<open>NetworkXioIOHandler.cpp\<close> demands, so it can be taken to happen
  at the submission), and a completion callback runs to its end.

  \<^bold>\<open>What is shown.\<close>

  \<^item> Executor: no interleaving faults; every accepted job is notified exactly once; counters agree with
    the queues; requests reach the kernel in order; each completion is reported with the right code.
    a running executor finishes what it accepted, and it implements a bag of accepted jobs; every
    transfer is the one its batch named. These hold when \<open>io_submit\<close> takes a whole batch or asks to try again. What happens otherwise, and
    for sync jobs, short writes, shutdown and failed initialisation, is proved as well, and is not what
    the code means to do.
  \<^item> File service: a batch is a run of the executor of its file; also the start of the service, the
    extent of the statistics text and descriptors of files read by name.
  \<^item> Protocol: messages are recovered from their bytes, truncated messages are refused, and whatever
    bytes arrive, an accepted message has its fields in the ranges of their types.
  \<^item> Server: no interleaving touches a deleted request or connection; reference counts are exact; the
    pool of threads stays within its bounds; a reply carries the opaque value of its request; every
    request is answered except reads the file service left without an answer. Requests
    whose offset is not a multiple of 512 are excluded: they fail an assertion.
  \<^item> Client: no interleaving touches a deleted message or request; a request is completed at most once;
    notifiers and slots are accounted for; the client comes to rest with every read completed;
    results of the synchronous read on every branch.
  \<^item> Together: a remote read reads the range that was asked for and returns its status; a read request
    of the server is one job of the executor, and the status record of that job gives its reply.
  \<^item> Utilities: rounding, statistics against their mathematical definitions, pools that hand out no
    block twice, retry loops, the event poller and CPU utilisation; exclusion of the spin lock, no
    lost wake-up with a predicate, and when the text of the statistics is JSON.

  \<^bold>\<open>Bounds.\<close> Counting theorems assume fewer than \<open>2 ^ 32\<close> accepted jobs or samples, the width of the
  counters of the statistics; a server has fewer than \<open>2 ^ 64\<close> requests, the width of a reference
  count. Loops that end are total functions; loops that wait for the kernel consume a list of its
  answers, and running out of it is the outcome \<open>Blocked\<close> or \<open>None\<close>, so no fuel is chosen.
  \<open>try_submit\<close> has the five tries of the source.

  \<^bold>\<open>Not modelled.\<close> Log messages; options and memory slabs given to libxio; CPU affinity; the
  configuration parser of boost (its result is an argument); \<open>lang_utils.h\<close> and the extern "C" wrappers
  of \<open>gIOExecFile.cpp\<close>, which only forward; the eventfd variant of \<open>SemaphoreWrapper\<close>, which is not compiled;
  the content of files and buffers beyond the effect of one transfer; tests and benchmarks;
  memory-order effects weaker than interleaving. With a submitter thread (not the default) single passes of
  \<open>execute\<close> are modelled, and it is not part of the transition system.
\<close>

end
